(* ===== verification/Prelude.thy ===== *)
theory Prelude
  imports Main "HOL-Library.Word"
begin

text \<open>
  What every component shares: Go error values with \<open>errors.Is\<close>, the three ways a Go call can end
  (a value, an error, a panic), programs over a world as state passing functions with their
  combinators, the notion of a program that keeps an invariant of part of the world, and the
  automation the component proofs use.
\<close>

named_theorems prog_simps "unfolding of the program combinators"
named_theorems keeps_intros "structural rules: which programs keep an invariant"

lemma unat_bound: "unat (w :: 'a::len word) < 2 ^ LENGTH('a)"
  by (rule unsigned_less)

section \<open>Go error values\<close>

text \<open>
  Every package-level \<open>errors.New\<close> of the repository is one constructor, since \<open>errors.Is\<close> compares
  the pointers and not the messages. The last three are sentinels of the libraries the code
  compares against: \<open>sql.ErrNoRows\<close>, \<open>jws.ErrInvalidSignature\<close> and \<open>jwp.ErrInvalidClaims\<close>.
\<close>

datatype sentinel =
    ErrInvalidHash | ErrIncompatibleVersion | ErrInvalidPassword
  | ErrCircularDependency | ErrUnknownRole
  | ErrCredentialsInsertAlreadyExists | ErrCredentialsSelectNotFound
  | ErrCredentialsSelectByEmailNotFound
  | ErrCredentialsUpdateEmailAlreadyExists | ErrCredentialsUpdateEmailNotFound
  | ErrCredentialsUpdatePasswordNotFound | ErrCredentialsUpdateRoleNotFound
  | ErrShortCodeDeleteNotFound | ErrShortCodeInsertNested | ErrShortCodeInsertAlreadyExists
  | ErrShortCodeSelectNotFound
  | ErrInvalidRequest | ErrShortCodeConsumeInvalid | ErrShortCodeConsumeExpired
  | ErrCredentialsUpdateRoleSelfUpdate | ErrCredentialsUpdateRoleDowngradeSuperior
  | ErrCredentialsUpdateRoleToHigher
  | ErrTokenRefreshInvalidAccessToken | ErrTokenRefreshInvalidRefreshToken
  | ErrTokenRefreshMismatchClaims | ErrTokenRefreshMismatchSource
  | ErrMissingAuth | ErrInvalidAuth | ErrUnexpectedClaims
  | ErrNoRows | ErrInvalidSignature | ErrInvalidClaims

text \<open>
  An error is a sentinel, a driver error carrying an SQLSTATE (\<open>pgdriver.Error\<close>, read with
  \<open>errors.As\<close> and \<open>Field('C')\<close>), an error of another library that matches no sentinel, a
  \<open>fmt.Errorf("msg: %w", err)\<close> or an \<open>errors.Join\<close>.
\<close>

datatype go_error =
    Sentinel sentinel
  | PgError string
  | Opaque string
  | Wrap string go_error
  | Join "go_error list"

fun errors_is :: "go_error \<Rightarrow> sentinel \<Rightarrow> bool" where
  "errors_is (Sentinel s) t = (s = t)"
| "errors_is (PgError c) t = False"
| "errors_is (Opaque m) t = False"
| "errors_is (Wrap m e) t = errors_is e t"
| "errors_is (Join es) t = list_ex (\<lambda>e. errors_is e t) es"

text \<open>\<open>errors.As(err, &pgErr)\<close> followed by \<open>pgErr.Field('C')\<close>: the code of the first driver error
  of the tree, in the depth-first order of \<open>errors.As\<close>.\<close>

fun first_some :: "'a option list \<Rightarrow> 'a option" where
  "first_some [] = None"
| "first_some (None # xs) = first_some xs"
| "first_some (Some x # xs) = Some x"

fun errors_as_pg :: "go_error \<Rightarrow> string option" where
  "errors_as_pg (PgError c) = Some c"
| "errors_as_pg (Sentinel s) = None"
| "errors_as_pg (Opaque m) = None"
| "errors_as_pg (Wrap m e) = errors_as_pg e"
| "errors_as_pg (Join es) = first_some (map errors_as_pg es)"

text \<open>The sentinels an error matches, all of them.\<close>

definition sentinels_of :: "go_error \<Rightarrow> sentinel set" where
  "sentinels_of e = {s. errors_is e s}"

lemma sentinels_of_simps [simp]:
  "sentinels_of (Sentinel s) = {s}"
  "sentinels_of (PgError c) = {}"
  "sentinels_of (Opaque m) = {}"
  "sentinels_of (Wrap m e) = sentinels_of e"
  "sentinels_of (Join es) = (\<Union>e\<in>set es. sentinels_of e)"
  by (auto simp: sentinels_of_def list_ex_iff)

lemma errors_is_sentinels: "errors_is e s \<longleftrightarrow> s \<in> sentinels_of e"
  by (simp add: sentinels_of_def)

section \<open>Outcomes and programs\<close>

text \<open>A Go call ends with a value, with a non-nil error, or by panicking.\<close>

datatype 'a outcome = Ret 'a | Fail go_error | Panic string

fun map_outcome_ret :: "('a \<Rightarrow> 'b outcome) \<Rightarrow> 'a outcome \<Rightarrow> 'b outcome" where
  "map_outcome_ret f (Ret a) = f a"
| "map_outcome_ret f (Fail e) = Fail e"
| "map_outcome_ret f (Panic p) = Panic p"

text \<open>\<open>if err != nil { return ..., fmt.Errorf("msg: %w", err) }\<close>\<close>

fun wrap_outcome :: "string \<Rightarrow> 'a outcome \<Rightarrow> 'a outcome" where
  "wrap_outcome m (Ret a) = Ret a"
| "wrap_outcome m (Fail e) = Fail (Wrap m e)"
| "wrap_outcome m (Panic p) = Panic p"

definition returned :: "'a outcome \<Rightarrow> bool" where
  "returned r \<longleftrightarrow> (case r of Ret _ \<Rightarrow> True | _ \<Rightarrow> False)"

lemma returned_simps [simp]: "returned (Ret a)" "\<not> returned (Fail e)" "\<not> returned (Panic p)"
  by (simp_all add: returned_def)

definition fails_with :: "'a outcome \<Rightarrow> sentinel \<Rightarrow> bool" where
  "fails_with r s \<longleftrightarrow> (case r of Fail e \<Rightarrow> errors_is e s | _ \<Rightarrow> False)"

lemma fails_with_simps [simp]:
  "\<not> fails_with (Ret a) s" "fails_with (Fail e) s = errors_is e s" "\<not> fails_with (Panic p) s"
  by (simp_all add: fails_with_def)

lemma fails_with_wrap [simp]: "fails_with (wrap_outcome m r) s = fails_with r s"
  by (cases r) simp_all

lemma wrap_outcome_Ret [simp]: "wrap_outcome m r = Ret a \<longleftrightarrow> r = Ret a"
  by (cases r) simp_all

lemma returned_wrap [simp]: "returned (wrap_outcome m r) = returned r"
  by (cases r) simp_all

text \<open>A program reads and replaces the world, and ends in an outcome. A failing or panicking
  program keeps the effects it had before it stopped.\<close>

type_synonym ('w, 'a) prog = "'w \<Rightarrow> 'a outcome \<times> 'w"

definition ret :: "'a \<Rightarrow> ('w, 'a) prog" where
  "ret a = (\<lambda>w. (Ret a, w))"

definition fail :: "go_error \<Rightarrow> ('w, 'a) prog" where
  "fail e = (\<lambda>w. (Fail e, w))"

definition lift :: "'a outcome \<Rightarrow> ('w, 'a) prog" where
  "lift r = (\<lambda>w. (r, w))"

definition andThen :: "('w, 'a) prog \<Rightarrow> ('a \<Rightarrow> ('w, 'b) prog) \<Rightarrow> ('w, 'b) prog" where
  "andThen m f = (\<lambda>w. case m w of
     (Ret a, w') \<Rightarrow> f a w' | (Fail e, w') \<Rightarrow> (Fail e, w') | (Panic p, w') \<Rightarrow> (Panic p, w'))"

definition wrap :: "string \<Rightarrow> ('w, 'a) prog \<Rightarrow> ('w, 'a) prog" where
  "wrap msg m = (\<lambda>w. case m w of (r, w') \<Rightarrow> (wrap_outcome msg r, w'))"

text \<open>\<open>if err != nil\<close> with a body of its own.\<close>

definition onError :: "('w, 'a) prog \<Rightarrow> (go_error \<Rightarrow> ('w, 'a) prog) \<Rightarrow> ('w, 'a) prog" where
  "onError m h = (\<lambda>w. case m w of (Fail e, w') \<Rightarrow> h e w' | r \<Rightarrow> r)"

lemma ret_run [simp]: "ret a w = (Ret a, w)"
  by (simp add: ret_def)

lemma fail_run [simp]: "fail e w = (Fail e, w)"
  by (simp add: fail_def)

lemma lift_run [simp]: "lift r w = (r, w)"
  by (simp add: lift_def)

lemmas prog_defs [prog_simps] = andThen_def wrap_def onError_def

lemma andThen_Ret: "andThen m f w = (Ret b, w'') \<longleftrightarrow>
    (\<exists>a w'. m w = (Ret a, w') \<and> f a w' = (Ret b, w''))"
  by (cases "m w") (auto simp: andThen_def split: outcome.splits)

lemma wrap_Ret: "wrap msg m w = (Ret a, w') \<longleftrightarrow> m w = (Ret a, w')"
  by (cases "m w") (auto simp: wrap_def)

lemma ret_Ret: "ret a w = (Ret b, w') \<longleftrightarrow> a = b \<and> w = w'"
  by auto

lemma fail_Ret: "fail e w = (Ret b, w') \<longleftrightarrow> False"
  by simp

lemmas run_Ret = andThen_Ret wrap_Ret ret_Ret fail_Ret

lemma onError_Ret: "onError m h w = (Ret r, w') \<longleftrightarrow>
    m w = (Ret r, w') \<or> (\<exists>e w1. m w = (Fail e, w1) \<and> h e w1 = (Ret r, w'))"
  by (cases "m w") (auto simp: onError_def split: outcome.splits)

lemma onError_fail_Ret: "(\<And>e w r w'. h e w \<noteq> (Ret r, w')) \<Longrightarrow>
    onError m h w = (Ret r, w') \<longleftrightarrow> m w = (Ret r, w')"
  by (auto simp: onError_Ret)

lemma snd_wrap [simp]: "snd (wrap msg m w) = snd (m w)"
  by (cases "m w") (simp add: wrap_def)

lemma fst_wrap [simp]: "fst (wrap msg m w) = wrap_outcome msg (fst (m w))"
  by (cases "m w") (simp add: wrap_def)

section \<open>Programs that keep an invariant\<close>

text \<open>\<open>keeps I m\<close>: whatever way \<open>m\<close> ends, a world with \<open>I\<close> is left in a world with \<open>I\<close>.\<close>

definition keeps :: "('w \<Rightarrow> bool) \<Rightarrow> ('w, 'a) prog \<Rightarrow> bool" where
  "keeps I m \<longleftrightarrow> (\<forall>w. I w \<longrightarrow> I (snd (m w)))"

lemma keepsI: "(\<And>w. I w \<Longrightarrow> I (snd (m w))) \<Longrightarrow> keeps I m"
  by (simp add: keeps_def)

lemma keepsD: "keeps I m \<Longrightarrow> I w \<Longrightarrow> I (snd (m w))"
  by (simp add: keeps_def)

lemma keeps_pure [keeps_intros]:
  "keeps I (ret a)" "keeps I (fail e)" "keeps I (lift r)"
  by (simp_all add: keeps_def)

lemma keeps_andThen [keeps_intros]:
  assumes "keeps I m" "\<And>a. keeps I (f a)"
  shows "keeps I (andThen m f)"
proof (rule keepsI)
  fix w assume I: "I w"
  obtain r w' where m: "m w = (r, w')" by (cases "m w")
  with assms(1) I have "I w'" by (auto dest: keepsD)
  with m assms(2) show "I (snd (andThen m f w))"
    by (auto simp: andThen_def keeps_def split: outcome.splits)
qed

lemma keeps_wrap [keeps_intros]: "keeps I m \<Longrightarrow> keeps I (wrap msg m)"
  by (simp add: keeps_def)

lemma keeps_onError [keeps_intros]:
  assumes "keeps I m" "\<And>e. keeps I (h e)"
  shows "keeps I (onError m h)"
proof (rule keepsI)
  fix w assume I: "I w"
  obtain r w' where m: "m w = (r, w')" by (cases "m w")
  with assms(1) I have "I w'" by (auto dest: keepsD)
  with m assms(2) show "I (snd (onError m h w))"
    by (auto simp: onError_def keeps_def split: outcome.splits)
qed

lemma keeps_if [keeps_intros]: "keeps I m \<Longrightarrow> keeps I n \<Longrightarrow> keeps I (if b then m else n)"
  by simp

lemma keeps_Let [keeps_intros]: "(\<And>x. keeps I (f x)) \<Longrightarrow> keeps I (Let a f)"
  by simp

lemma keeps_option [keeps_intros]:
  "keeps I m \<Longrightarrow> (\<And>x. keeps I (f x)) \<Longrightarrow> keeps I (case x of None \<Rightarrow> m | Some y \<Rightarrow> f y)"
  by (cases x) simp_all

lemma keeps_sum [keeps_intros]:
  "(\<And>x. keeps I (f x)) \<Longrightarrow> (\<And>x. keeps I (g x)) \<Longrightarrow>
   keeps I (case s of Inl x \<Rightarrow> f x | Inr y \<Rightarrow> g y)"
  by (cases s) simp_all

end
