(* ===== verification/ResolveDeps.thy ===== *)
theory ResolveDeps
  imports Prelude "HOL-Library.AList"
begin

text \<open>
  \<open>internal/lib/resolveDependants.go\<close>: the flattening of an inheritance graph. A Go map is an
  association list with distinct keys; the order in which a round iterates over it, which Go leaves
  open, is a parameter \<open>order\<close> of the model. The functions are total for any \<open>order\<close>.
\<close>

type_synonym ('m, 'd) go_map = "('m \<times> 'd) list"

definition entry :: "('m, 'd list) go_map \<Rightarrow> 'm \<Rightarrow> 'd list" where
  "entry g m = (case map_of g m of None \<Rightarrow> [] | Some ds \<Rightarrow> ds)"

section \<open>The algorithm\<close>

text \<open>Every module is a leaf; then the edges of \<open>deps\<close> are added.\<close>

definition add_deps :: "'m \<times> 'm list \<Rightarrow> ('m, 'm set) go_map \<Rightarrow> ('m, 'm set) go_map" where
  "add_deps d g = (case d of (m, ds) \<Rightarrow>
     AList.update m ((case map_of g m of None \<Rightarrow> {} | Some s \<Rightarrow> s) \<union> set ds) g)"

definition seed_graph :: "('m, 'd list) go_map \<Rightarrow> ('m, 'm list) go_map \<Rightarrow> ('m, 'm set) go_map" where
  "seed_graph mods deps = fold add_deps deps (map (\<lambda>(m, ds). (m, {})) mods)"

text \<open>One step of a round: a module without remaining dependencies leaves the graph.\<close>

definition visit ::
    "'m \<Rightarrow> ('m, 'm set) go_map \<times> 'm list \<times> bool \<Rightarrow> ('m, 'm set) go_map \<times> 'm list \<times> bool" where
  "visit m st = (case st of (g, out, hasResolved) \<Rightarrow>
     if map_of g m = Some {}
     then (map (\<lambda>(k, s). (k, s - {m})) (AList.delete m g), out @ [m], True)
     else (g, out, hasResolved))"

definition resolve_round ::
    "'m list \<Rightarrow> ('m, 'm set) go_map \<Rightarrow> 'm list \<Rightarrow> ('m, 'm set) go_map \<times> 'm list \<times> bool" where
  "resolve_round ks g out = fold visit ks (g, out, False)"

lemma visit_length: "length (fst (visit m st)) \<le> length (fst st)"
  by (auto simp: visit_def AList.delete_eq intro: order_trans [OF length_filter_le] split: prod.splits)

lemma fold_visit_length: "length (fst (fold visit ks st)) \<le> length (fst st)"
proof (induction ks arbitrary: st)
  case (Cons k ks)
  have "length (fst (fold visit ks (visit k st))) \<le> length (fst (visit k st))" by (rule Cons.IH)
  also have "\<dots> \<le> length (fst st)" by (rule visit_length)
  finally show ?case by simp
qed simp

lemma delete_shorter: "map_of g m = Some s \<Longrightarrow> length (AList.delete m g) < length g"
  unfolding AList.delete_eq by (rule length_filter_less [where x = "(m, s)"]) (auto dest: map_of_SomeD)

lemma round_decreases:
  "fold visit ks (g, out, False) = (g', out', True) \<Longrightarrow> length g' < length g"
proof (induction ks)
  case (Cons k ks)
  show ?case
  proof (cases "map_of g k = Some {}")
    case True
    let ?st = "visit k (g, out, False)"
    have "length (fst ?st) < length g" using True by (simp add: visit_def delete_shorter)
    moreover have "length g' \<le> length (fst ?st)"
      using Cons.prems fold_visit_length [of ks ?st] by simp
    ultimately show ?thesis by simp
  next
    case False
    then show ?thesis using Cons by (simp add: visit_def)
  qed
qed simp

function resolve_order ::
    "(nat \<Rightarrow> 'm list \<Rightarrow> 'm list) \<Rightarrow> nat \<Rightarrow> ('m, 'm set) go_map \<Rightarrow> 'm list \<Rightarrow> go_error + 'm list" where
  "resolve_order order n g out =
     (if g = [] then Inr out
      else case resolve_round (order n (map fst g)) g out of
        (g', out', hasResolved) \<Rightarrow>
          if \<not> hasResolved
          then Inl (Wrap ''circular dependency'' (Sentinel ErrCircularDependency))
          else resolve_order order (Suc n) g' out')"
  by pat_completeness auto

termination
  by (relation "measure (\<lambda>(order, n, g, out). length g)")
    (auto simp: resolve_round_def intro: round_decreases [OF sym])

declare resolve_order.simps [simp del]

text \<open>The flattening along the depth order. A module absent from \<open>mods\<close> has the zero value, the
  empty list.\<close>

definition looked_up :: "('m \<Rightarrow> 'd list option) \<Rightarrow> 'm \<Rightarrow> 'd list" where
  "looked_up r d = (case r d of None \<Rightarrow> [] | Some ds \<Rightarrow> ds)"

definition append_dep :: "'m \<Rightarrow> 'm \<Rightarrow> ('m \<Rightarrow> 'd list option) \<Rightarrow> ('m \<Rightarrow> 'd list option)" where
  "append_dep m dep r = r(m := Some (looked_up r m @ looked_up r dep))"

definition flatten_step ::
    "('m, 'd list) go_map \<Rightarrow> ('m, 'm list) go_map \<Rightarrow> 'm \<Rightarrow> ('m \<Rightarrow> 'd list option) \<Rightarrow> ('m \<Rightarrow> 'd list option)" where
  "flatten_step mods deps m resolved =
     fold (append_dep m) (entry deps m) (resolved(m := Some (entry mods m)))"

definition ResolveDependants ::
    "(nat \<Rightarrow> 'm list \<Rightarrow> 'm list) \<Rightarrow> ('m, 'd list) go_map \<Rightarrow> ('m, 'm list) go_map \<Rightarrow>
     go_error + ('m \<Rightarrow> 'd list option)" where
  "ResolveDependants order mods deps =
     (case resolve_order order 0 (seed_graph mods deps) [] of
        Inl e \<Rightarrow> Inl e
      | Inr resolvedMods \<Rightarrow> Inr (fold (flatten_step mods deps) resolvedMods Map.empty))"

section \<open>The seeded graph\<close>

definition iteration_order :: "(nat \<Rightarrow> 'm list \<Rightarrow> 'm list) \<Rightarrow> bool" where
  "iteration_order order \<longleftrightarrow> (\<forall>n ks. set (order n ks) = set ks)"

definition known :: "('m, 'd list) go_map \<Rightarrow> ('m, 'm list) go_map \<Rightarrow> 'm set" where
  "known mods deps = set (map fst mods) \<union> set (map fst deps)"

lemma map_of_update: "map_of (AList.update k v al) x = (if x = k then Some v else map_of al x)"
  by (simp add: update_conv')

lemma map_of_add_deps: "map_of (add_deps (k, xs) g) m =
    (if m = k then Some ((case map_of g k of None \<Rightarrow> {} | Some s \<Rightarrow> s) \<union> set xs) else map_of g m)"
  by (simp add: add_deps_def map_of_update)

lemma seed_fold:
  assumes "distinct (map fst ds)" "set (map fst ds) \<inter> {m. \<exists>s. map_of g m = Some s \<and> s \<noteq> {}} = {}"
  shows "map_of (fold add_deps ds g) m =
    (case map_of ds m of Some xs \<Rightarrow> Some (set xs) | None \<Rightarrow> map_of g m)"
  using assms
proof (induction ds arbitrary: g)
  case (Cons d ds)
  obtain k xs where d: "d = (k, xs)" by (cases d)
  have e: "(case map_of g k of None \<Rightarrow> {} | Some s \<Rightarrow> s) = {}"
    using Cons.prems(2) d by (auto split: option.splits)
  have "map_of (fold add_deps ds (add_deps d g)) m =
      (case map_of ds m of Some xs \<Rightarrow> Some (set xs) | None \<Rightarrow> map_of (add_deps d g) m)"
    using Cons.prems d
    by (intro Cons.IH) (auto simp: map_of_add_deps split: if_splits)
  moreover have "map_of ds k = None" using Cons.prems(1) d by (simp add: map_of_eq_None_iff)
  ultimately show ?case
    unfolding d using e by (cases "m = k"; cases "map_of ds m") (simp_all add: map_of_add_deps)
qed (simp split: option.split)

lemma map_of_leaves: "map_of (map (\<lambda>(m, ds). (m, {})) mods) m =
    (if m \<in> set (map fst mods) then Some {} else None)"
  by (induction mods) auto

lemma seed_graph_map:
  assumes "distinct (map fst deps)"
  shows "map_of (seed_graph mods deps) m =
    (if m \<in> known mods deps then Some (set (entry deps m)) else None)"
proof -
  have "map_of (seed_graph mods deps) m = (case map_of deps m of Some xs \<Rightarrow> Some (set xs)
      | None \<Rightarrow> map_of (map (\<lambda>(m, ds). (m, {})) mods) m)"
    unfolding seed_graph_def using assms by (rule seed_fold) (auto simp: map_of_leaves split: if_splits)
  then show ?thesis
    using map_of_eq_None_iff [of deps m]
    by (cases "map_of deps m") (simp_all add: map_of_leaves known_def entry_def)
qed

lemma seed_graph_distinct:
  assumes "distinct (map fst mods)"
  shows "distinct (map fst (seed_graph mods deps))"
proof -
  have "distinct (map fst (fold add_deps ds g))" if "distinct (map fst g)" for ds g
    using that
  proof (induction ds arbitrary: g)
    case (Cons d ds)
    then show ?case by (auto simp: add_deps_def distinct_update split: prod.split)
  qed simp
  moreover have "map fst (map (\<lambda>(m, ds). (m, {})) mods) = map fst mods" by auto
  ultimately show ?thesis using assms unfolding seed_graph_def by metis
qed

section \<open>The invariant of the rounds\<close>

text \<open>\<open>out\<close> lists modules after everything they inherit from; the graph holds the other modules,
  each with the dependencies that are not listed yet.\<close>

definition depth_ordered :: "('m \<Rightarrow> 'm set) \<Rightarrow> 'm list \<Rightarrow> bool" where
  "depth_ordered dep out \<longleftrightarrow> (\<forall>xs m ys. out = xs @ m # ys \<longrightarrow> dep m \<subseteq> set xs)"

definition rounds_inv ::
    "'m set \<Rightarrow> ('m \<Rightarrow> 'm set) \<Rightarrow> ('m, 'm set) go_map \<Rightarrow> 'm list \<Rightarrow> bool" where
  "rounds_inv K dep g out \<longleftrightarrow>
     distinct out \<and> set out \<subseteq> K \<and> depth_ordered dep out \<and>
     (\<forall>m. map_of g m = (if m \<in> K - set out then Some (dep m - set out) else None))"

lemma depth_ordered_snoc: "depth_ordered dep out \<Longrightarrow> dep m \<subseteq> set out \<Longrightarrow> depth_ordered dep (out @ [m])"
  by (auto simp: depth_ordered_def append_eq_append_conv2 append_eq_Cons_conv Cons_eq_append_conv)

lemma map_of_map_snd: "map_of (map (\<lambda>(k, s). (k, f s)) g) m = map_option f (map_of g m)"
  by (induction g) auto

lemma visit_inv:
  assumes "rounds_inv K dep g out" "visit m (g, out, b) = (g', out', b')"
  shows "rounds_inv K dep g' out'"
    and "b' = (b \<or> map_of g m = Some {})"
    and "map_of g m \<noteq> Some {} \<Longrightarrow> g' = g \<and> out' = out"
proof -
  show "b' = (b \<or> map_of g m = Some {})" "map_of g m \<noteq> Some {} \<Longrightarrow> g' = g \<and> out' = out"
    using assms(2) by (auto simp: visit_def split: if_splits)
  show "rounds_inv K dep g' out'"
  proof (cases "map_of g m = Some {}")
    case True
    then have g': "g' = map (\<lambda>(k, s). (k, s - {m})) (AList.delete m g)" "out' = out @ [m]"
      using assms(2) by (auto simp: visit_def)
    have "m \<in> K - set out" "dep m \<subseteq> set out"
      using True assms(1) by (auto simp: rounds_inv_def split: if_splits)
    with assms(1) show ?thesis
      unfolding rounds_inv_def g' map_of_map_snd
      by (auto intro: depth_ordered_snoc simp: delete_conv')
  next
    case False
    then show ?thesis using assms by (auto simp: visit_def)
  qed
qed

lemma fold_visit_inv:
  assumes "rounds_inv K dep g out" "fold visit ks (g, out, b) = (g', out', b')"
  shows "rounds_inv K dep g' out' \<and>
    (\<not> b' \<longrightarrow> \<not> b \<and> g' = g \<and> out' = out \<and> (\<forall>k\<in>set ks. map_of g k \<noteq> Some {}))"
  using assms
proof (induction ks arbitrary: g out b)
  case (Cons k ks)
  obtain g1 out1 b1 where v: "visit k (g, out, b) = (g1, out1, b1)" by (cases "visit k (g, out, b)")
  note inv = visit_inv [OF Cons.prems(1) v]
  have "fold visit ks (g1, out1, b1) = (g', out', b')" using Cons.prems(2) v by simp
  from Cons.IH [OF inv(1) this] inv(2,3) show ?case by auto
qed auto

section \<open>Resolvable modules\<close>

text \<open>A module is resolvable when it is known and so is, hereditarily, everything it inherits
  from, without going round a cycle.\<close>

inductive resolvable :: "'m set \<Rightarrow> ('m \<Rightarrow> 'm set) \<Rightarrow> 'm \<Rightarrow> bool" for K dep where
  resolvable: "m \<in> K \<Longrightarrow> (\<And>d. d \<in> dep m \<Longrightarrow> resolvable K dep d) \<Longrightarrow> resolvable K dep m"

lemma depth_ordered_resolvable:
  assumes "depth_ordered dep out" "set out \<subseteq> K" "m \<in> set out"
  shows "resolvable K dep m"
proof -
  have "\<forall>m\<in>set xs. resolvable K dep m" if "out = xs @ ys" for xs ys
    using that
  proof (induction xs arbitrary: ys rule: rev_induct)
    case (snoc x xs)
    then have "out = xs @ x # ys" by simp
    with assms(1) have "dep x \<subseteq> set xs" by (auto simp: depth_ordered_def)
    moreover from snoc.prems have "\<forall>m\<in>set xs. resolvable K dep m" by (intro snoc.IH) auto
    moreover have "x \<in> K" using snoc.prems assms(2) by auto
    ultimately show ?case by (auto intro: resolvable.intros)
  qed simp
  from this [of out "[]"] assms(3) show ?thesis by simp
qed

lemma stuck_unresolvable:
  assumes "rounds_inv K dep g out" "\<forall>m. map_of g m \<noteq> Some {}" "resolvable K dep m"
  shows "m \<in> set out"
  using assms(3)
proof induction
  case (resolvable m)
  then have "dep m \<subseteq> set out" by blast
  then show ?case
    using resolvable(1) assms(1) assms(2) [rule_format, of m] unfolding rounds_inv_def
    by (metis DiffI Diff_eq_empty_iff)
qed

lemma resolve_order_result:
  assumes "iteration_order order" "rounds_inv K dep g out"
  shows "case resolve_order order n g out of
      Inl e \<Rightarrow> e = Wrap ''circular dependency'' (Sentinel ErrCircularDependency) \<and>
        (\<exists>m\<in>K. \<not> resolvable K dep m)
    | Inr ms \<Rightarrow> set ms = K \<and> distinct ms \<and> depth_ordered dep ms"
  using assms
proof (induction "order" n g out rule: resolve_order.induct [case_names step])
  case (step order n g out)
  show ?case
  proof (cases "g = []")
    case True
    then have "map_of g m = None" for m by simp
    then have "K - set out = {}"
      using step.prems(2) unfolding rounds_inv_def by (metis Diff_iff empty_iff option.distinct(1) subsetI subset_antisym)
    with True step.prems(2) show ?thesis
      by (auto simp: resolve_order.simps [of order n] rounds_inv_def)
  next
    case False
    obtain g' out' b where r: "resolve_round (order n (map fst g)) g out = (g', out', b)"
      by (cases "resolve_round (order n (map fst g)) g out")
    note inv = fold_visit_inv [OF step.prems(2) r [unfolded resolve_round_def]]
    show ?thesis
    proof (cases b)
      case True
      with step.IH [OF False r [symmetric] refl _ step.prems(1) conjunct1 [OF inv]] False r show ?thesis
        by (simp add: resolve_order.simps [of order n g])
    next
      case b: False
      have "set (order n (map fst g)) = set (map fst g)" using step.prems(1) by (simp add: iteration_order_def)
      then have "\<forall>m. map_of g m \<noteq> Some {}"
        using inv b by (metis map_of_eq_None_iff option.distinct(1) set_map)
      note stuck = stuck_unresolvable [OF step.prems(2) this]
      obtain k s where "map_of g k = Some s"
        using \<open>g \<noteq> []\<close> by (metis list.set_intros(1) neq_Nil_conv prod.collapse weak_map_of_SomeI)
      then have "k \<in> K" "k \<notin> set out" using step.prems(2) by (auto simp: rounds_inv_def split: if_splits)
      with stuck have "\<exists>m\<in>K. \<not> resolvable K dep m" by blast
      with r b \<open>g \<noteq> []\<close> show ?thesis by (simp add: resolve_order.simps [of order n g])
    qed
  qed
qed

section \<open>The flattened map\<close>

definition gathered :: "('m \<Rightarrow> 'd list option) \<Rightarrow> 'm list \<Rightarrow> 'd list" where
  "gathered r ds = concat (map (looked_up r) ds)"

lemma gathered_simps [simp]: "gathered r [] = []" "gathered r (d # ds) = looked_up r d @ gathered r ds"
  by (simp_all add: gathered_def)

lemma gathered_cong: "(\<And>d. d \<in> set ds \<Longrightarrow> r d = r' d) \<Longrightarrow> gathered r ds = gathered r' ds"
  by (induction ds) (simp_all add: looked_up_def)

lemma append_dep_other: "k \<noteq> m \<Longrightarrow> fold (append_dep m) ds r k = r k"
  by (induction ds arbitrary: r) (simp_all add: append_dep_def)

lemma flatten_step_other: "k \<noteq> m \<Longrightarrow> flatten_step mods deps m r k = r k"
  by (simp add: flatten_step_def append_dep_other)

lemma append_deps:
  "m \<notin> set ds \<Longrightarrow> r m = Some acc \<Longrightarrow>
   fold (append_dep m) ds r m = Some (acc @ gathered r ds)"
proof (induction ds arbitrary: r acc)
  case (Cons d ds)
  have "gathered (append_dep m d r) ds = gathered r ds"
    using Cons.prems by (intro gathered_cong) (auto simp: append_dep_def)
  moreover have "append_dep m d r m = Some (acc @ looked_up r d)"
    using Cons.prems by (simp add: append_dep_def looked_up_def)
  ultimately show ?case using Cons.IH [of "append_dep m d r"] Cons.prems by simp
qed simp

lemma flatten_step_own:
  assumes "m \<notin> set (entry deps m)"
  shows "flatten_step mods deps m r m =
    Some (entry mods m @ gathered r (entry deps m))"
proof -
  have "gathered (r(m := Some (entry mods m))) (entry deps m) = gathered r (entry deps m)"
    using assms by (intro gathered_cong) auto
  with append_deps [OF assms, of "r(m := Some (entry mods m))"] show ?thesis
    by (simp add: flatten_step_def)
qed

text \<open>The equations every resolved map satisfies.\<close>

definition flattened ::
    "('m, 'd list) go_map \<Rightarrow> ('m, 'm list) go_map \<Rightarrow> 'm set \<Rightarrow> ('m \<Rightarrow> 'd list option) \<Rightarrow> bool" where
  "flattened mods deps ms r \<longleftrightarrow> dom r = ms \<and>
     (\<forall>m\<in>ms. r m = Some (entry mods m @ gathered r (entry deps m)))"

lemma flatten_fold:
  assumes "depth_ordered (\<lambda>m. set (entry deps m)) ms" "distinct ms"
  shows "flattened mods deps (set ms) (fold (flatten_step mods deps) ms Map.empty)"
  using assms
proof (induction ms rule: rev_induct)
  case (snoc m ms)
  let ?r = "fold (flatten_step mods deps) ms Map.empty"
  have "depth_ordered (\<lambda>m. set (entry deps m)) ms" using snoc.prems(1) by (auto simp: depth_ordered_def)
  then have IH: "flattened mods deps (set ms) ?r" using snoc by simp
  have sub: "set (entry deps m) \<subseteq> set ms" using snoc.prems(1) by (auto simp: depth_ordered_def)
  then have own: "m \<notin> set (entry deps m)" using snoc.prems(2) by auto
  have below: "set (entry deps k) \<subseteq> set ms" if "k \<in> set ms" for k
  proof -
    from that obtain xs ys where "ms = xs @ k # ys" by (meson split_list)
    with snoc.prems(1) have "set (entry deps k) \<subseteq> set xs"
      by (auto simp: depth_ordered_def dest: spec [of _ xs] spec [of _ k])
    with \<open>ms = xs @ k # ys\<close> show ?thesis by auto
  qed
  let ?s = "flatten_step mods deps m ?r"
  have same: "gathered ?s (entry deps k) = gathered ?r (entry deps k)"
    if "set (entry deps k) \<subseteq> set ms" for k
    using that snoc.prems(2) by (intro gathered_cong flatten_step_other) auto
  have "?s k = Some (entry mods k @ gathered ?s (entry deps k))" if "k \<in> set (ms @ [m])" for k
  proof (cases "k = m")
    case True
    then show ?thesis using flatten_step_own [OF own] same [OF sub] by simp
  next
    case False
    with that have "k \<in> set ms" by simp
    with IH same [OF below] False show ?thesis by (simp add: flatten_step_other flattened_def)
  qed
  moreover have "dom ?s = set (ms @ [m])"
  proof -
    have "?s k \<noteq> None \<longleftrightarrow> k = m \<or> ?r k \<noteq> None" for k
      using flatten_step_own [OF own, of mods ?r] by (cases "k = m") (simp_all add: flatten_step_other)
    with IH show ?thesis by (auto simp: flattened_def dom_def)
  qed
  ultimately show ?case by (simp add: flattened_def)
qed (simp add: flattened_def)

text \<open>On resolvable modules the equations have one solution.\<close>

lemma flattened_unique:
  assumes "flattened mods deps ms r" "flattened mods deps ms r'"
    and "\<And>m. m \<in> ms \<Longrightarrow> resolvable ms (\<lambda>m. set (entry deps m)) m"
  shows "r = r'"
proof
  fix m
  show "r m = r' m"
  proof (cases "m \<in> ms")
    case True
    from assms(3) [OF this] show ?thesis
    proof induction
      case (resolvable m)
      then have "gathered r (entry deps m) = gathered r' (entry deps m)"
        by (intro gathered_cong) auto
      moreover have "r m = Some (entry mods m @ gathered r (entry deps m))"
        "r' m = Some (entry mods m @ gathered r' (entry deps m))"
        using assms(1,2) resolvable(1) by (simp_all add: flattened_def)
      ultimately show ?case by simp
    qed
  next
    case False
    with assms(1,2) have "m \<notin> dom r" "m \<notin> dom r'" by (simp_all add: flattened_def)
    then show ?thesis by (simp add: domIff)
  qed
qed

definition dep_set :: "('m, 'm list) go_map \<Rightarrow> 'm \<Rightarrow> 'm set" where
  "dep_set deps m = set (entry deps m)"

lemma seed_inv:
  assumes "distinct (map fst deps)"
  shows "rounds_inv (known mods deps) (dep_set deps) (seed_graph mods deps) []"
  using seed_graph_map [OF assms, of mods] by (auto simp: rounds_inv_def depth_ordered_def dep_set_def)

text \<open>Both outcomes, for every iteration order.\<close>

lemma ResolveDependants_cases:
  assumes "iteration_order order" "distinct (map fst deps)"
  obtains (circular) e where "ResolveDependants order mods deps = Inl e"
      "sentinels_of e = {ErrCircularDependency}"
      "\<exists>m\<in>known mods deps. \<not> resolvable (known mods deps) (dep_set deps) m"
  | (resolved) r where "ResolveDependants order mods deps = Inr r"
      "flattened mods deps (known mods deps) r"
      "\<forall>m\<in>known mods deps. resolvable (known mods deps) (dep_set deps) m"
proof -
  note res = resolve_order_result [OF assms(1) seed_inv [OF assms(2), of mods], of 0]
  show thesis
  proof (cases "resolve_order order 0 (seed_graph mods deps) []")
    case (Inl e)
    with res show thesis by (intro circular [of e]) (simp_all add: ResolveDependants_def)
  next
    case (Inr ms)
    with res have ms: "set ms = known mods deps" "distinct ms" "depth_ordered (dep_set deps) ms" by simp_all
    then have "flattened mods deps (set ms) (fold (flatten_step mods deps) ms Map.empty)"
      by (intro flatten_fold) (simp_all add: dep_set_def [abs_def])
    with Inr ms depth_ordered_resolvable [OF ms(3)] show thesis
      by (intro resolved) (auto simp: ResolveDependants_def)
  qed
qed

text \<open>Resolvable everywhere: no unknown parent and no cycle.\<close>

definition inherits :: "('m, 'm list) go_map \<Rightarrow> ('m \<times> 'm) set" where
  "inherits deps = {(m, d). d \<in> dep_set deps m}"

lemma resolvable_wf:
  assumes "\<forall>m\<in>K. resolvable K dep m" "\<And>m. m \<notin> K \<Longrightarrow> dep m = {}"
  shows "wf {(d, m). d \<in> dep m}" and "\<And>m. dep m \<subseteq> K"
proof -
  show "wf {(d, m). d \<in> dep m}"
  proof (rule wfI_pf)
    fix A assume A: "A \<subseteq> {(d, m). d \<in> dep m} `` A"
    have "m \<notin> A" if "resolvable K dep m" for m
      using that by induction (use A in auto)
    moreover have "A \<subseteq> K" using A assms(2) by fastforce
    ultimately show "A = {}" using assms(1) by auto
  qed
  have "d \<in> K" if "resolvable K dep m" "d \<in> dep m" for d m
    using that by cases (auto elim: resolvable.cases)
  then show "dep m \<subseteq> K" for m using assms by (cases "m \<in> K") auto
qed

lemma wf_resolvable:
  assumes "wf {(d, m). d \<in> dep m}" "\<And>m. m \<in> K \<Longrightarrow> dep m \<subseteq> K" "m \<in> K"
  shows "resolvable K dep m"
  using assms(1,3)
proof (induction m rule: wf_induct_rule)
  case (less m)
  have "resolvable K dep d" if "d \<in> dep m" for d
    using that less assms(2) [of m] by blast
  with less(2) show ?case by (rule resolvable.intros)
qed

lemma ResolveDependants_error:
  assumes "iteration_order order" "distinct (map fst deps)" "ResolveDependants order mods deps = Inl e"
  shows "e = Wrap ''circular dependency'' (Sentinel ErrCircularDependency)"
  using resolve_order_result [OF assms(1) seed_inv [OF assms(2), of mods], of 0] assms(3)
  by (auto simp: ResolveDependants_def split: sum.splits)

text \<open>A resolved map holds, for each key, what the keys it reaches hold.\<close>

lemma flattened_set:
  assumes f: "flattened mods deps ms r" and res: "resolvable ms (dep_set deps) m"
  shows "\<exists>ds. r m = Some ds \<and> set ds = {p. \<exists>s. (m, s) \<in> (inherits deps)\<^sup>* \<and> p \<in> set (entry mods s)}"
  using res
proof (induction rule: resolvable.induct)
  case (resolvable m)
  from f resolvable(1) have r: "r m = Some (entry mods m @ gathered r (entry deps m))"
    by (simp add: flattened_def)
  have looked: "set (looked_up r d) = {p. \<exists>s. (d, s) \<in> (inherits deps)\<^sup>* \<and> p \<in> set (entry mods s)}"
    if "d \<in> dep_set deps m" for d
    using resolvable(3) [OF that] by (auto simp: looked_up_def)
  have g: "set (gathered r (entry deps m)) =
      {p. \<exists>d\<in>dep_set deps m. \<exists>s. (d, s) \<in> (inherits deps)\<^sup>* \<and> p \<in> set (entry mods s)}"
    using looked by (auto simp: gathered_def dep_set_def)
  have star: "(m, s) \<in> (inherits deps)\<^sup>* \<longleftrightarrow> s = m \<or> (\<exists>d\<in>dep_set deps m. (d, s) \<in> (inherits deps)\<^sup>*)" for s
  proof -
    have "(m, s) \<in> (inherits deps)\<^sup>* \<longleftrightarrow> m = s \<or> (\<exists>d. (m, d) \<in> inherits deps \<and> (d, s) \<in> (inherits deps)\<^sup>*)"
      by (meson converse_rtranclE converse_rtrancl_into_rtrancl rtrancl.rtrancl_refl)
    then show ?thesis by (auto simp: inherits_def)
  qed
  show ?case using r g by (auto simp: star)
qed

end
