(* ===== verification/GoStd.thy ===== *)
theory GoStd
  imports Prelude
begin

text \<open>
  The parts of Go's standard library the code computes with, on byte strings (a Go string is a
  sequence of bytes, \<open>string\<close> is a list of 8-bit characters): \<open>strings.Split\<close> with a one-byte
  separator, decimal printing (\<open>%d\<close>) and \<open>fmt.Sscanf\<close> of literals and \<open>%d\<close>. Raw base64 is theory
  \<open>Base64\<close>.
\<close>

section \<open>strings.Split\<close>

fun split_on :: "char \<Rightarrow> string \<Rightarrow> string list" where
  "split_on c [] = [[]]"
| "split_on c (x # xs) =
     (if x = c then [] # split_on c xs
      else (case split_on c xs of [] \<Rightarrow> [[x]] | y # ys \<Rightarrow> (x # y) # ys))"

lemma split_on_nonempty [simp]: "split_on c s \<noteq> []"
  by (cases s) (auto split: list.splits)

lemma split_on_free: "c \<notin> set s \<Longrightarrow> split_on c s = [s]"
  by (induction s) auto

lemma split_on_append: "c \<notin> set s \<Longrightarrow> split_on c (s @ c # t) = s # split_on c t"
  by (induction s) auto

lemma split_on_six:
  assumes "c \<notin> set p" "c \<notin> set q" "c \<notin> set r" "c \<notin> set s" "c \<notin> set t" "c \<notin> set u"
  shows "split_on c (p @ c # q @ c # r @ c # s @ c # t @ c # u) = [p, q, r, s, t, u]"
  using assms by (simp add: split_on_append split_on_free)

text \<open>The separator joins the parts back to the string it cut.\<close>

fun join_with :: "char \<Rightarrow> string list \<Rightarrow> string" where
  "join_with c [] = []"
| "join_with c [s] = s"
| "join_with c (s # t # ss) = s @ c # join_with c (t # ss)"

lemma join_with_Cons_Cons: "join_with c ((x # y) # ys) = x # join_with c (y # ys)"
  by (cases ys) simp_all

lemma join_split_on: "join_with c (split_on c s) = s"
proof (induction s)
  case Nil
  then show ?case by simp
next
  case (Cons x xs)
  obtain y ys where ys: "split_on c xs = y # ys"
    using split_on_nonempty by (meson neq_Nil_conv)
  with Cons show ?case
    by (cases "x = c") (simp_all add: join_with_Cons_Cons)
qed

lemma split_on_parts_free: "p \<in> set (split_on c s) \<Longrightarrow> c \<notin> set p"
proof (induction s arbitrary: p)
  case Nil
  then show ?case by simp
next
  case (Cons x xs)
  then show ?case by (auto split: if_splits list.splits)
qed

section \<open>Decimal printing and Sscanf\<close>

definition digit :: "nat \<Rightarrow> char" where
  "digit d = char_of (48 + d)"

definition is_digit :: "char \<Rightarrow> bool" where
  "is_digit c \<longleftrightarrow> 48 \<le> (of_char c :: nat) \<and> (of_char c :: nat) \<le> 57"

definition digit_value :: "char \<Rightarrow> nat" where
  "digit_value c = of_char c - 48"

lemma digit_props [simp]:
  "d < 10 \<Longrightarrow> is_digit (digit d)" "d < 10 \<Longrightarrow> digit_value (digit d) = d"
  by (simp_all add: digit_def is_digit_def digit_value_def)

text \<open>\<open>%d\<close> of a non-negative number.\<close>

fun show_nat :: "nat \<Rightarrow> string" where
  "show_nat n = (if n < 10 then [digit n] else show_nat (n div 10) @ [digit (n mod 10)])"

declare show_nat.simps [simp del]

lemma show_nat_digits: "c \<in> set (show_nat n) \<Longrightarrow> is_digit c"
proof (induction n arbitrary: c rule: show_nat.induct)
  case (1 n)
  show ?case
  proof (cases "n < 10")
    case True
    with 1 show ?thesis by (subst (asm) (1) show_nat.simps) simp
  next
    case False
    with 1 have "c \<in> set (show_nat (n div 10)) \<or> c = digit (n mod 10)"
      by (subst (asm) (2) show_nat.simps) auto
    with 1 False show ?thesis by auto
  qed
qed

text \<open>The digits \<open>scanNumber\<close> collects and the value \<open>strconv\<close> gives them.\<close>

definition digits_value :: "string \<Rightarrow> nat" where
  "digits_value s = foldl (\<lambda>n c. 10 * n + digit_value c) 0 s"

lemma digits_value_snoc: "digits_value (s @ [c]) = 10 * digits_value s + digit_value c"
  by (simp add: digits_value_def)

lemma digits_value_show_nat: "digits_value (show_nat n) = n"
proof (induction n rule: show_nat.induct)
  case (1 n)
  show ?case
  proof (cases "n < 10")
    case True
    then show ?thesis by (subst show_nat.simps) (simp add: digits_value_def)
  next
    case False
    with 1 show ?thesis
      by (subst show_nat.simps) (simp add: digits_value_snoc)
  qed
qed

lemma show_nat_nonempty [simp]: "show_nat n \<noteq> []"
  by (subst show_nat.simps) simp

text \<open>
  A format is a list of items: a literal byte, \<open>%d\<close> into an \<open>int\<close> (64 bits) and \<open>%d\<close> into an
  unsigned integer of the given width. A \<open>%d\<close> skips blanks, a line feed stops the scan with an
  error, a sign is read for signed targets only, at least one digit is needed and a value out of
  the target's range is an error. Input left over after the format is not an error.
\<close>

datatype fmt_item = FLit char | FInt | FUint nat

definition is_blank :: "char \<Rightarrow> bool" where
  "is_blank c \<longleftrightarrow> (of_char c :: nat) \<in> {9, 11, 12, 13, 32}"

definition scan_digits :: "string \<Rightarrow> (nat \<times> string) option" where
  "scan_digits s = (let ds = takeWhile is_digit s in
     if ds = [] then None else Some (digits_value ds, dropWhile is_digit s))"

definition scan_uint :: "nat \<Rightarrow> string \<Rightarrow> (int \<times> string) option" where
  "scan_uint bits s = (case scan_digits (dropWhile is_blank s) of
     None \<Rightarrow> None
   | Some (n, rest) \<Rightarrow> if n < 2 ^ bits then Some (int n, rest) else None)"

definition scan_int :: "string \<Rightarrow> (int \<times> string) option" where
  "scan_int s = (let t = dropWhile is_blank s;
     (neg, u) = (case t of [] \<Rightarrow> (False, t)
        | c # r \<Rightarrow> if c = CHR ''-'' then (True, r) else if c = CHR ''+'' then (False, r) else (False, t)) in
     case scan_digits u of
       None \<Rightarrow> None
     | Some (n, rest) \<Rightarrow>
         let v = (if neg then - int n else int n) in
         if - (2 ^ 63) \<le> v \<and> v < 2 ^ 63 then Some (v, rest) else None)"

fun sscanf :: "fmt_item list \<Rightarrow> string \<Rightarrow> int list option" where
  "sscanf [] s = Some []"
| "sscanf (FLit c # fs) [] = None"
| "sscanf (FLit c # fs) (x # xs) = (if x = c then sscanf fs xs else None)"
| "sscanf (FInt # fs) s =
     (case scan_int s of None \<Rightarrow> None | Some (v, r) \<Rightarrow> map_option (Cons v) (sscanf fs r))"
| "sscanf (FUint b # fs) s =
     (case scan_uint b s of None \<Rightarrow> None | Some (v, r) \<Rightarrow> map_option (Cons v) (sscanf fs r))"

lemma digit_not_blank: "is_digit c \<Longrightarrow> \<not> is_blank c"
  by (auto simp: is_digit_def is_blank_def)

lemma digit_not_sign: "is_digit c \<Longrightarrow> c \<noteq> CHR ''-'' \<and> c \<noteq> CHR ''+''"
  by (auto simp: is_digit_def)

lemma scan_digits_show:
  assumes "rest = [] \<or> \<not> is_digit (hd rest)"
  shows "scan_digits (show_nat n @ rest) = Some (n, rest)"
proof -
  have all: "\<forall>c\<in>set (show_nat n). is_digit c" using show_nat_digits by blast
  then have "takeWhile is_digit (show_nat n @ rest) = show_nat n"
    and "dropWhile is_digit (show_nat n @ rest) = rest"
    using assms by (cases rest; simp add: takeWhile_append2 dropWhile_append2)+
  then show ?thesis by (simp add: scan_digits_def digits_value_show_nat)
qed

lemma show_nat_Cons: obtains c cs where "show_nat n = c # cs" "is_digit c"
  by (metis list.exhaust list.set_intros(1) show_nat_digits show_nat_nonempty)

lemma drop_blank_show: "dropWhile is_blank (show_nat n @ rest) = show_nat n @ rest"
  by (rule show_nat_Cons [of n]) (simp add: digit_not_blank)

lemma scan_uint_show:
  assumes "n < 2 ^ b" "rest = [] \<or> \<not> is_digit (hd rest)"
  shows "scan_uint b (show_nat n @ rest) = Some (int n, rest)"
  using assms by (simp add: scan_uint_def drop_blank_show scan_digits_show)

lemma scan_int_show:
  assumes "n < 2 ^ 63" "rest = [] \<or> \<not> is_digit (hd rest)"
  shows "scan_int (show_nat n @ rest) = Some (int n, rest)"
proof -
  obtain c cs where c: "show_nat n = c # cs" "is_digit c" by (rule show_nat_Cons)
  have "int n < 2 ^ 63" using assms(1) by simp
  moreover have "scan_digits (c # cs @ rest) = Some (n, rest)"
    using scan_digits_show [OF assms(2), of n] c by simp
  ultimately show ?thesis
    using c digit_not_blank digit_not_sign by (simp add: scan_int_def)
qed

end
