(* ===== verification/Base64.thy ===== *)
theory Base64
  imports GoStd
begin

text \<open>
  \<open>encoding/base64\<close> as the code uses it: \<open>RawStdEncoding\<close> for the salt and the key of a stored
  password hash (decoded with \<open>Strict\<close>), \<open>RawURLEncoding\<close> for the address put in a mail link. Both
  are one encoder over an alphabet of 64 characters, so the round trip is proved once, in the
  locale \<open>alphabet64\<close>, and interpreted on the two alphabets of the package.
\<close>

section \<open>Encoding and strict decoding over an alphabet\<close>

definition byte :: "char \<Rightarrow> nat" where
  "byte c = of_char c"

lemma byte_less [simp]: "byte c < 256"
  by (simp add: byte_def)

lemma char_of_byte [simp]: "char_of (byte c) = c"
  by (simp add: byte_def)

fun b64_encode :: "string \<Rightarrow> string \<Rightarrow> string" where
  "b64_encode al [] = []"
| "b64_encode al [a] = [al ! (byte a div 4), al ! (byte a mod 4 * 16)]"
| "b64_encode al [a, b] =
     [al ! (byte a div 4), al ! (byte a mod 4 * 16 + byte b div 16), al ! (byte b mod 16 * 4)]"
| "b64_encode al (a # b # c # rest) =
     al ! (byte a div 4) # al ! (byte a mod 4 * 16 + byte b div 16)
     # al ! (byte b mod 16 * 4 + byte c div 64) # al ! (byte c mod 64) # b64_encode al rest"

fun index_of :: "string \<Rightarrow> char \<Rightarrow> nat option" where
  "index_of [] c = None"
| "index_of (x # xs) c = (if x = c then Some 0 else map_option Suc (index_of xs c))"

text \<open>The sextets of a final quantum of two or three characters must leave no bit unread.\<close>

fun b64_quanta :: "nat list \<Rightarrow> string option" where
  "b64_quanta [] = Some []"
| "b64_quanta [x] = None"
| "b64_quanta [x, y] = (if y mod 16 = 0 then Some [char_of (x * 4 + y div 16)] else None)"
| "b64_quanta [x, y, z] = (if z mod 4 = 0
     then Some [char_of (x * 4 + y div 16), char_of (y mod 16 * 16 + z div 4)] else None)"
| "b64_quanta (x # y # z # u # rest) = map_option
     (\<lambda>s. char_of (x * 4 + y div 16) # char_of (y mod 16 * 16 + z div 4)
          # char_of (z mod 4 * 64 + u) # s) (b64_quanta rest)"

text \<open>A character outside the alphabet is an error; CR and LF are skipped, in strict mode too.\<close>

definition is_crlf :: "char \<Rightarrow> bool" where
  "is_crlf c \<longleftrightarrow> byte c = 13 \<or> byte c = 10"

fun sextets :: "string \<Rightarrow> string \<Rightarrow> nat list option" where
  "sextets al [] = Some []"
| "sextets al (c # cs) =
     (case index_of al c of None \<Rightarrow> None | Some i \<Rightarrow> map_option (Cons i) (sextets al cs))"

definition b64_decode :: "string \<Rightarrow> string \<Rightarrow> string option" where
  "b64_decode al s =
     (case sextets al (filter (\<lambda>c. \<not> is_crlf c) s) of None \<Rightarrow> None | Some xs \<Rightarrow> b64_quanta xs)"

text \<open>The sextets of an encoding, as numbers.\<close>

fun b64_sextets :: "string \<Rightarrow> nat list" where
  "b64_sextets [] = []"
| "b64_sextets [a] = [byte a div 4, byte a mod 4 * 16]"
| "b64_sextets [a, b] = [byte a div 4, byte a mod 4 * 16 + byte b div 16, byte b mod 16 * 4]"
| "b64_sextets (a # b # c # rest) =
     byte a div 4 # (byte a mod 4 * 16 + byte b div 16)
     # (byte b mod 16 * 4 + byte c div 64) # byte c mod 64 # b64_sextets rest"

lemma b64_encode_map: "b64_encode al s = map ((!) al) (b64_sextets s)"
  by (induction s rule: b64_sextets.induct) simp_all

lemma byte_parts [simp]: "byte a div 4 < 64" "byte b div 16 < 16" "byte c div 64 < 4"
  using byte_less [of a] byte_less [of b] byte_less [of c]
  by (simp_all add: less_mult_imp_div_less)

lemma digit_pair: "(r :: nat) < n \<Longrightarrow> k < m \<Longrightarrow> k * n + r < m * n"
proof -
  assume "r < n" "k < m"
  then have "k * n + r < k * n + n" by simp
  also have "\<dots> = Suc k * n" by simp
  also have "\<dots> \<le> m * n" using \<open>k < m\<close> by (intro mult_le_mono1) simp
  finally show ?thesis .
qed

lemma sextet_bounds [simp]:
  "byte a mod 4 * 16 + byte b div 16 < 64" "byte b mod 16 * 4 + byte c div 64 < 64"
  "byte a mod 4 * 16 < 64" "byte b mod 16 * 4 < 64"
  using digit_pair [of "byte b div 16" 16 "byte a mod 4" 4]
    digit_pair [of "byte c div 64" 4 "byte b mod 16" 16]
    digit_pair [of 0 16 "byte a mod 4" 4] digit_pair [of 0 4 "byte b mod 16" 16]
  by simp_all

lemma b64_sextets_bound: "x \<in> set (b64_sextets s) \<Longrightarrow> x < 64"
  by (induction s rule: b64_sextets.induct) auto

lemma high_low: "(r :: nat) < n \<Longrightarrow> (k * n + r) div n = k" "(r :: nat) < n \<Longrightarrow> (k * n + r) mod n = r"
  by simp_all

lemma quantum_bytes:
  "byte a div 4 * 4 + (byte a mod 4 * 16 + byte b div 16) div 16 = byte a"
  "(byte a mod 4 * 16 + byte b div 16) mod 16 * 16 + (byte b mod 16 * 4 + byte c div 64) div 4 = byte b"
  "(byte b mod 16 * 4 + byte c div 64) mod 4 * 64 + byte c mod 64 = byte c"
  "byte a div 4 * 4 + byte a mod 4 * 16 div 16 = byte a"
  "(byte a mod 4 * 16 + byte b div 16) mod 16 * 16 + byte b mod 16 * 4 div 4 = byte b"
  by (simp_all only: high_low byte_parts nonzero_mult_div_cancel_right div_mult_mod_eq
      zero_neq_numeral [symmetric] not_False_eq_True)

lemma b64_quanta_sextets: "b64_quanta (b64_sextets s) = Some s"
proof (induction s rule: b64_sextets.induct)
  case (4 a b c rest)
  then show ?case
    by (simp only: b64_sextets.simps b64_quanta.simps quantum_bytes char_of_byte option.map)
qed (simp_all only: b64_sextets.simps b64_quanta.simps quantum_bytes char_of_byte
  mod_mult_self2_is_0 mod_mult_self1_is_0 if_True refl)

locale alphabet64 =
  fixes al :: string
  assumes al_length: "length al = 64"
    and al_distinct: "distinct al"
    and al_no_crlf: "\<forall>c\<in>set al. \<not> is_crlf c"
begin

lemma index_of_nth: "i < 64 \<Longrightarrow> index_of al (al ! i) = Some i"
proof -
  have "distinct xs \<Longrightarrow> i < length xs \<Longrightarrow> index_of xs (xs ! i) = Some i" for xs i
    by (induction xs arbitrary: i) (auto simp: nth_Cons split: nat.splits)
  then show "i < 64 \<Longrightarrow> ?thesis" using al_distinct al_length by simp
qed

lemma sextets_map_nth: "\<forall>x\<in>set xs. x < 64 \<Longrightarrow> sextets al (map ((!) al) xs) = Some xs"
  by (induction xs) (simp_all add: index_of_nth)

lemma encode_chars: "c \<in> set (b64_encode al s) \<Longrightarrow> c \<in> set al"
  using al_length b64_sextets_bound by (auto simp: b64_encode_map)

lemma encode_decode: "b64_decode al (b64_encode al s) = Some s"
proof -
  have "filter (\<lambda>c. \<not> is_crlf c) (b64_encode al s) = b64_encode al s"
    using encode_chars al_no_crlf by (auto intro!: filter_True)
  then show ?thesis
    using b64_sextets_bound
    by (simp add: b64_decode_def b64_encode_map sextets_map_nth b64_quanta_sextets)
qed

lemma encode_inj: "b64_encode al s = b64_encode al t \<longleftrightarrow> s = t"
  by (metis encode_decode option.inject)

end

section \<open>The two alphabets of the package\<close>

definition std_alphabet :: string where
  "std_alphabet = ''ABCDEFGHIJKLMNOPQRSTUVWXYZabcdefghijklmnopqrstuvwxyz0123456789+/''"

definition url_alphabet :: string where
  "url_alphabet = ''ABCDEFGHIJKLMNOPQRSTUVWXYZabcdefghijklmnopqrstuvwxyz0123456789-_''"

interpretation std64: alphabet64 std_alphabet
  by unfold_locales (simp_all add: std_alphabet_def is_crlf_def byte_def)

interpretation url64: alphabet64 url_alphabet
  by unfold_locales (simp_all add: url_alphabet_def is_crlf_def byte_def)

lemma std_encode_no_dollar: "CHR ''$'' \<notin> set (b64_encode std_alphabet s)"
proof
  assume "CHR ''$'' \<in> set (b64_encode std_alphabet s)"
  then have "CHR ''$'' \<in> set std_alphabet" by (rule std64.encode_chars)
  then show False by (simp add: std_alphabet_def)
qed

end
