(* ===== verification/Argon2.thy ===== *)
theory Argon2
  imports Base64
begin

text \<open>
  \<open>internal/lib/argon2.go\<close>: the encoded form of a password or short-code hash, its decoder, and
  generation and comparison. \<open>golang.org/x/crypto/argon2\<close> is a parameter: its key derivation
  \<open>IDKey\<close> (\<open>None\<close> where it panics, as it documents for zero rounds or zero lanes) and its
  \<open>Version\<close>. So are the host's CPU count and the salt read from \<open>crypto/rand\<close>.
\<close>

type_synonym u8 = "8 word"
type_synonym u32 = "32 word"
type_synonym u64 = "64 word"

text \<open>\<open>IDKey(password, salt, time, memory, threads, keyLen)\<close>\<close>

type_synonym idkey_fun = "string \<Rightarrow> string \<Rightarrow> u32 \<Rightarrow> u32 \<Rightarrow> u8 \<Rightarrow> u32 \<Rightarrow> string option"

definition argon2HashLen :: nat where
  "argon2HashLen = 6"

record Argon2Params =
  Memory :: u32
  Iterations :: u32
  Parallelism :: u8
  SaltLength :: u64
  KeyLength :: u32

definition Argon2ParamsDefault :: Argon2Params where
  "Argon2ParamsDefault =
     \<lparr>Memory = 64 * 1024, Iterations = 3, Parallelism = 0, SaltLength = 32, KeyLength = 32\<rparr>"

section \<open>The encoded form\<close>

definition dollar :: char where
  "dollar = CHR ''$''"

definition version_format :: "fmt_item list" where
  "version_format = [FLit (CHR ''v''), FLit (CHR ''=''), FInt]"

definition params_format :: "fmt_item list" where
  "params_format = [FLit (CHR ''m''), FLit (CHR ''=''), FUint 32, FLit (CHR '',''),
     FLit (CHR ''t''), FLit (CHR ''=''), FUint 32, FLit (CHR '',''),
     FLit (CHR ''p''), FLit (CHR ''=''), FUint 8]"

text \<open>The \<open>fmt.Sprintf\<close> of \<open>GenerateArgon2\<close>.\<close>

definition encode_hash :: "nat \<Rightarrow> Argon2Params \<Rightarrow> string \<Rightarrow> string \<Rightarrow> string" where
  "encode_hash version params salt hash =
     ''$argon2id$v='' @ show_nat version
     @ ''$m='' @ show_nat (unat (Memory params))
     @ '',t='' @ show_nat (unat (Iterations params))
     @ '',p='' @ show_nat (unat (Parallelism params))
     @ ''$'' @ b64_encode std_alphabet salt @ ''$'' @ b64_encode std_alphabet hash"

text \<open>Every failed scan or base64 decode is joined with \<open>ErrInvalidHash\<close>.\<close>

definition bad_hash :: "string \<Rightarrow> go_error" where
  "bad_hash step = Wrap step (Join [Sentinel ErrInvalidHash, Opaque step])"

definition decodeHash :: "nat \<Rightarrow> string \<Rightarrow> (Argon2Params \<times> string \<times> string) outcome" where
  "decodeHash argonVersion encodedHash =
     (let values = split_on dollar encodedHash in
      if length values \<noteq> argon2HashLen then Fail (Sentinel ErrInvalidHash)
      else case sscanf version_format (values ! 2) of
        Some [version] \<Rightarrow>
          if version \<noteq> int argonVersion then Fail (Sentinel ErrIncompatibleVersion)
          else (case sscanf params_format (values ! 3) of
            Some [m, t, p] \<Rightarrow>
              (case b64_decode std_alphabet (values ! 4) of
                None \<Rightarrow> Fail (bad_hash ''decode salt'')
              | Some salt \<Rightarrow>
                  (case b64_decode std_alphabet (values ! 5) of
                    None \<Rightarrow> Fail (bad_hash ''decode hash'')
                  | Some hash \<Rightarrow>
                      if length hash > 2 ^ 32 - 1
                      then Fail (Wrap ''hash length'' (Sentinel ErrInvalidHash))
                      else Ret (\<lparr>Memory = word_of_int m, Iterations = word_of_int t,
                                 Parallelism = word_of_int p,
                                 SaltLength = word_of_nat (length salt),
                                 KeyLength = word_of_nat (length hash)\<rparr>, salt, hash)))
          | _ \<Rightarrow> Fail (bad_hash ''parse parameters''))
      | _ \<Rightarrow> Fail (bad_hash ''parse version''))"

section \<open>Generation and comparison\<close>

text \<open>A zero lane count is replaced by the CPU count, clamped so that it fits 8 bits.\<close>

definition resolve_parallelism :: "int \<Rightarrow> u8 \<Rightarrow> u8" where
  "resolve_parallelism numCPU p =
     (if p = 0 then word_of_int (if numCPU > 255 then 255 else numCPU) else p)"

definition GenerateArgon2 ::
    "idkey_fun \<Rightarrow> nat \<Rightarrow> int \<Rightarrow> (u64 \<Rightarrow> string + string) \<Rightarrow> string \<Rightarrow> Argon2Params \<Rightarrow> string outcome" where
  "GenerateArgon2 idkey version numCPU readSalt password params0 =
     (case readSalt (SaltLength params0) of
        Inl m \<Rightarrow> Fail (Wrap ''generate salt'' (Opaque m))
      | Inr salt \<Rightarrow>
          (let params = params0\<lparr>Parallelism := resolve_parallelism numCPU (Parallelism params0)\<rparr> in
           case idkey password salt (Iterations params) (Memory params) (Parallelism params)
                  (KeyLength params) of
             None \<Rightarrow> Panic ''argon2''
           | Some hash \<Rightarrow> Ret (encode_hash version params salt hash)))"

definition CompareArgon2 :: "idkey_fun \<Rightarrow> nat \<Rightarrow> string \<Rightarrow> string \<Rightarrow> unit outcome" where
  "CompareArgon2 idkey version password encodedHash =
     map_outcome_ret (\<lambda>(params, salt, hash).
        case idkey password salt (Iterations params) (Memory params) (Parallelism params)
               (KeyLength params) of
          None \<Rightarrow> Panic ''argon2''
        | Some otherHash \<Rightarrow> if hash = otherHash then Ret () else Fail (Sentinel ErrInvalidPassword))
       (wrap_outcome ''decode hash'' (decodeHash version encodedHash))"

text \<open>\<open>dummyArgon2Hash\<close> is initialised once at package load; a failure there panics.\<close>

definition dummyArgon2Hash ::
    "idkey_fun \<Rightarrow> nat \<Rightarrow> int \<Rightarrow> (u64 \<Rightarrow> string + string) \<Rightarrow> string outcome" where
  "dummyArgon2Hash idkey version numCPU readSalt =
     (case GenerateArgon2 idkey version numCPU readSalt ''not-a-real-password'' Argon2ParamsDefault of
        Fail e \<Rightarrow> Panic ''generate dummy argon2 hash'' | r \<Rightarrow> r)"

section \<open>Round trip\<close>

lemma split_encode_hash:
  "split_on dollar (encode_hash v params salt hash) =
     ['''', ''argon2id'', ''v='' @ show_nat v,
      ''m='' @ show_nat (unat (Memory params)) @ '',t='' @ show_nat (unat (Iterations params))
        @ '',p='' @ show_nat (unat (Parallelism params)),
      b64_encode std_alphabet salt, b64_encode std_alphabet hash]"
proof -
  have free: "CHR ''$'' \<notin> set (show_nat n)" for n
    using show_nat_digits [of "CHR ''$''" n] by (auto simp: is_digit_def)
  let ?v = "''v='' @ show_nat v"
  let ?m = "''m='' @ show_nat (unat (Memory params)) @ '',t='' @ show_nat (unat (Iterations params))
        @ '',p='' @ show_nat (unat (Parallelism params))"
  have "encode_hash v params salt hash = [] @ dollar # ''argon2id'' @ dollar # ?v @ dollar # ?m
      @ dollar # b64_encode std_alphabet salt @ dollar # b64_encode std_alphabet hash"
    by (simp add: encode_hash_def dollar_def)
  moreover have "dollar \<notin> set ?v" "dollar \<notin> set ?m" "dollar \<notin> set ''argon2id''"
    "dollar \<notin> set (b64_encode std_alphabet s)" "dollar \<notin> set ([] :: string)" for s
    using free std_encode_no_dollar by (auto simp: dollar_def)
  ultimately show ?thesis
    by (metis (no_types, lifting) split_on_six)
qed

lemma sscanf_version: "v < 2 ^ 63 \<Longrightarrow> sscanf version_format (''v='' @ show_nat v) = Some [int v]"
  using scan_int_show [of v "[]"] by (simp add: version_format_def)

lemma sscanf_params:
  assumes "m < 2 ^ 32" "t < 2 ^ 32" "p < 2 ^ 8"
  shows "sscanf params_format (''m='' @ show_nat m @ '',t='' @ show_nat t @ '',p='' @ show_nat p)
    = Some [int m, int t, int p]"
proof -
  have "\<not> is_digit (CHR '','')" by (simp add: is_digit_def)
  then have "scan_uint 32 (show_nat m @ CHR '','' # r) = Some (int m, CHR '','' # r)"
    "scan_uint 32 (show_nat t @ CHR '','' # r) = Some (int t, CHR '','' # r)"
    "scan_uint 8 (show_nat p) = Some (int p, [])" for r
    using scan_uint_show [OF assms(1), of "CHR '','' # r"] scan_uint_show [OF assms(2), of "CHR '','' # r"]
      scan_uint_show [OF assms(3), of "[]"]
    by simp_all
  then show ?thesis by (simp add: params_format_def)
qed

lemma decode_encode:
  assumes "v < 2 ^ 63" "length hash < 2 ^ 32"
  shows "decodeHash v (encode_hash v params salt hash) =
    Ret (params\<lparr>SaltLength := word_of_nat (length salt), KeyLength := word_of_nat (length hash)\<rparr>,
         salt, hash)"
proof -
  have "unat (Memory params) < 2 ^ 32" "unat (Iterations params) < 2 ^ 32"
    "unat (Parallelism params) < 2 ^ 8"
    using unat_bound [of "Memory params"] unat_bound [of "Iterations params"]
      unat_bound [of "Parallelism params"] by simp_all
  then show ?thesis
    using assms
    by (simp add: decodeHash_def split_encode_hash argon2HashLen_def Let_def sscanf_version [simplified]
        sscanf_params [simplified] std64.encode_decode)
qed

text \<open>What is documented of \<open>IDKey\<close>: it returns \<open>keyLen\<close> bytes.\<close>

definition idkey_contract :: "idkey_fun \<Rightarrow> bool" where
  "idkey_contract idkey \<longleftrightarrow>
     (\<forall>pw salt t m l k h. idkey pw salt t m l k = Some h \<longrightarrow> length h = unat k)"

lemma idkey_length: "idkey_contract idkey \<Longrightarrow> idkey pw salt t m l k = Some h \<Longrightarrow> length h = unat k"
  by (auto simp: idkey_contract_def)

lemma GenerateArgon2_Ret:
  assumes "GenerateArgon2 idkey v ncpu rs pw params = Ret enc"
  obtains salt hash where
    "rs (SaltLength params) = Inr salt"
    "idkey pw salt (Iterations params) (Memory params)
       (resolve_parallelism ncpu (Parallelism params)) (KeyLength params) = Some hash"
    "enc = encode_hash v
       (params\<lparr>Parallelism := resolve_parallelism ncpu (Parallelism params)\<rparr>) salt hash"
  using assms by (auto simp: GenerateArgon2_def Let_def split: sum.splits option.splits)

lemma decode_generated:
  assumes "idkey_contract idkey" "v < 2 ^ 63" "GenerateArgon2 idkey v ncpu rs pw params = Ret enc"
  obtains salt hash where
    "rs (SaltLength params) = Inr salt"
    "idkey pw salt (Iterations params) (Memory params)
       (resolve_parallelism ncpu (Parallelism params)) (KeyLength params) = Some hash"
    "decodeHash v enc = Ret (params\<lparr>Parallelism := resolve_parallelism ncpu (Parallelism params),
       SaltLength := word_of_nat (length salt)\<rparr>, salt, hash)"
proof -
  from assms(3) obtain salt hash where s: "rs (SaltLength params) = Inr salt"
    and h: "idkey pw salt (Iterations params) (Memory params)
       (resolve_parallelism ncpu (Parallelism params)) (KeyLength params) = Some hash"
    and enc: "enc = encode_hash v
       (params\<lparr>Parallelism := resolve_parallelism ncpu (Parallelism params)\<rparr>) salt hash"
    by (rule GenerateArgon2_Ret)
  from idkey_length [OF assms(1) h] have l: "length hash = unat (KeyLength params)" .
  moreover have "unat (KeyLength params) < 2 ^ 32"
    using unat_bound [of "KeyLength params"] by simp
  ultimately show ?thesis
    using decode_encode [OF assms(2)] that [OF s h] by (simp add: enc)
qed

lemma compare_generated:
  assumes "idkey_contract idkey" "v < 2 ^ 63" "GenerateArgon2 idkey v ncpu rs pw params = Ret enc"
  shows "\<exists>salt hash. rs (SaltLength params) = Inr salt \<and>
    idkey pw salt (Iterations params) (Memory params)
       (resolve_parallelism ncpu (Parallelism params)) (KeyLength params) = Some hash \<and>
    CompareArgon2 idkey v pw' enc =
      (case idkey pw' salt (Iterations params) (Memory params)
              (resolve_parallelism ncpu (Parallelism params)) (KeyLength params) of
         None \<Rightarrow> Panic ''argon2''
       | Some h \<Rightarrow> if hash = h then Ret () else Fail (Sentinel ErrInvalidPassword))"
proof -
  obtain salt hash where "rs (SaltLength params) = Inr salt"
    "idkey pw salt (Iterations params) (Memory params)
       (resolve_parallelism ncpu (Parallelism params)) (KeyLength params) = Some hash"
    "decodeHash v enc = Ret (params\<lparr>Parallelism := resolve_parallelism ncpu (Parallelism params),
       SaltLength := word_of_nat (length salt)\<rparr>, salt, hash)"
    using decode_generated [OF assms] .
  then show ?thesis
    by (intro exI [of _ salt] exI [of _ hash]) (simp add: CompareArgon2_def)
qed

lemma compare_own_password:
  assumes "idkey_contract idkey" "v < 2 ^ 63" "GenerateArgon2 idkey v ncpu rs pw params = Ret enc"
  shows "CompareArgon2 idkey v pw enc = Ret ()"
  using compare_generated [OF assms, of pw] by auto

lemma decodeHash_sentinels:
  "decodeHash v s = Fail e \<Longrightarrow> sentinels_of e \<subseteq> {ErrInvalidHash, ErrIncompatibleVersion}"
  by (auto simp: decodeHash_def bad_hash_def Let_def split: if_splits option.splits list.splits)

lemma decodeHash_no_panic: "decodeHash v s \<noteq> Panic p"
  by (auto simp: decodeHash_def Let_def split: if_splits option.splits list.splits)

lemma CompareArgon2_sentinels:
  assumes "CompareArgon2 idkey v pw enc = Fail e"
  shows "sentinels_of e \<subseteq> {ErrInvalidHash, ErrIncompatibleVersion, ErrInvalidPassword}"
proof (cases "decodeHash v enc")
  case (Ret d)
  with assms show ?thesis
    by (auto simp: CompareArgon2_def split: option.splits if_splits prod.splits)
next
  case (Fail e')
  with assms decodeHash_sentinels [OF Fail] show ?thesis by (auto simp: CompareArgon2_def)
next
  case (Panic p)
  with decodeHash_no_panic show ?thesis by blast
qed

lemma resolve_parallelism_bounds:
  assumes "1 \<le> ncpu"
  shows "0 < unat (resolve_parallelism ncpu p)" "unat (resolve_parallelism ncpu 0) \<le> 255"
    "unat (resolve_parallelism ncpu 0) = nat (min ncpu 255)"
proof -
  have "resolve_parallelism ncpu 0 = word_of_int (min ncpu 255)"
    using assms by (simp add: resolve_parallelism_def min_def)
  moreover have "unat (word_of_int (min ncpu 255) :: u8) = nat (min ncpu 255)"
    using assms by (simp add: unat_eq_nat_uint uint_word_of_int)
  ultimately show eq: "unat (resolve_parallelism ncpu 0) = nat (min ncpu 255)"
    "unat (resolve_parallelism ncpu 0) \<le> 255" by simp_all
  show "0 < unat (resolve_parallelism ncpu p)"
  proof (cases "p = 0")
    case True
    then show ?thesis using eq(1) assms by simp
  next
    case False
    then have "resolve_parallelism ncpu p = p" "0 < unat p"
      by (simp_all add: resolve_parallelism_def unat_gt_0)
    then show ?thesis by simp
  qed
qed

section \<open>What a stored hash reads as\<close>

text \<open>The version and parameter segments scanned, salt and key decoded.\<close>

definition encodes :: "nat \<Rightarrow> string \<Rightarrow> Argon2Params \<Rightarrow> string \<Rightarrow> string \<Rightarrow> bool" where
  "encodes v enc ps salt hash \<longleftrightarrow> (\<exists>a b vs pseg ss hs m t p.
     split_on dollar enc = [a, b, vs, pseg, ss, hs] \<and> sscanf version_format vs = Some [int v] \<and>
     sscanf params_format pseg = Some [m, t, p] \<and> b64_decode std_alphabet ss = Some salt \<and>
     b64_decode std_alphabet hs = Some hash \<and> length hash < 2 ^ 32 \<and>
     ps = \<lparr>Memory = word_of_int m, Iterations = word_of_int t, Parallelism = word_of_int p,
       SaltLength = word_of_nat (length salt), KeyLength = word_of_nat (length hash)\<rparr>)"

definition other_version :: "nat \<Rightarrow> string \<Rightarrow> bool" where
  "other_version v enc \<longleftrightarrow> (\<exists>a b vs pseg ss hs n.
     split_on dollar enc = [a, b, vs, pseg, ss, hs] \<and> sscanf version_format vs = Some [n] \<and> n \<noteq> int v)"

lemma six_segments: "length xs = 6 \<Longrightarrow> \<exists>a b c d e f. xs = [a, b, c, d, e, f]"
  by (auto simp: numeral_eq_Suc length_Suc_conv)

lemma encodes_version: "encodes v enc ps salt hash \<Longrightarrow> \<not> other_version v enc"
  by (auto simp: encodes_def other_version_def)

lemma decodeHash_cases:
  obtains (reads) ps salt hash where "decodeHash v enc = Ret (ps, salt, hash)" "encodes v enc ps salt hash"
  | (version) e where "decodeHash v enc = Fail e" "sentinels_of e = {ErrIncompatibleVersion}" "other_version v enc"
  | (malformed) e where "decodeHash v enc = Fail e" "sentinels_of e = {ErrInvalidHash}" "\<not> other_version v enc"
      "\<And>ps salt hash. \<not> encodes v enc ps salt hash"
proof (cases "length (split_on dollar enc) = 6")
  case False
  then show thesis
    by (intro malformed [of "Sentinel ErrInvalidHash"]) (auto simp: decodeHash_def Let_def argon2HashLen_def encodes_def other_version_def)
next
  case True
  then obtain a b vs pseg ss hs where s: "split_on dollar enc = [a, b, vs, pseg, ss, hs]" using six_segments by blast
  show thesis
  proof (cases "\<exists>n. sscanf version_format vs = Some [n]")
    case False
    then show thesis
      by (intro malformed [of "bad_hash ''parse version''"])
        (auto simp: decodeHash_def Let_def argon2HashLen_def encodes_def other_version_def s bad_hash_def split: option.splits list.splits)
  next
    case True
    then obtain n where n: "sscanf version_format vs = Some [n]" ..
    show thesis
    proof (cases "n = int v")
      case False
      then show thesis
        by (intro version [of "Sentinel ErrIncompatibleVersion"])
          (auto simp: decodeHash_def Let_def argon2HashLen_def other_version_def s n)
    next
      case True
      then have v: "\<not> other_version v enc" by (simp add: other_version_def s n)
      show thesis
      proof (cases "decodeHash v enc")
        case (Ret x)
        then show thesis
          by (cases x) (intro reads, auto simp: decodeHash_def Let_def argon2HashLen_def encodes_def s n True split: option.splits list.splits if_splits)
      next
        case (Fail e)
        have "sentinels_of e = {ErrInvalidHash}"
          using Fail by (auto simp: decodeHash_def Let_def argon2HashLen_def s n True bad_hash_def split: option.splits list.splits if_splits)
        moreover have "\<not> encodes v enc ps salt hash" for ps salt hash
          using Fail by (auto simp: decodeHash_def Let_def argon2HashLen_def encodes_def s n True)
        ultimately show thesis using malformed [OF Fail _ v] by blast
      next
        case (Panic p)
        then show thesis using decodeHash_no_panic by blast
      qed
    qed
  qed
qed

end
