(* ===== verification/World.thy ===== *)
theory World
  imports Argon2
begin

text \<open>
  The state the service changes and the environment it runs in. The state is the two Postgres
  tables (\<open>internal/dao/pg.credentials.go\<close>, \<open>internal/dao/pg.shortCode.go\<close>), whether the context
  carries a transaction, the key derivations run so far and the mails handed to detached
  goroutines. Everything that is not under \<open>src/\<close> (clock, random source, Postgres connection and
  transactions, the JSON-keys service, the validator's built-in tags, key derivation) is a field
  of the record \<open>ext\<close>: an arbitrary function, asked at the tick counter of the world, so that every
  call may get a different answer.
\<close>

section \<open>Rows\<close>

type_synonym uuid = "128 word"

text \<open>Times and durations are nanoseconds, as in \<open>time.Time\<close> and \<open>time.Duration\<close>.\<close>

type_synonym time = int

definition second :: time where
  "second = 1000000000"

definition hour :: time where
  "hour = 3600 * second"

record dao_credentials =
  c_id :: uuid
  c_email :: string
  c_password :: string
  c_role :: string
  c_created_at :: time
  c_updated_at :: time

record dao_short_code =
  s_id :: uuid
  s_code :: string
  s_usage :: string
  s_target :: string
  s_data :: "string option"
  s_created_at :: time
  s_expires_at :: time
  s_deleted_at :: "time option"
  s_deleted_comment :: "string option"

record db =
  credentials :: "dao_credentials list"
  short_codes :: "dao_short_code list"

section \<open>The world\<close>

text \<open>A mail handed to a goroutine: the service whose wait group counts it, and the arguments of
  \<open>SendMail\<close>. A duration is kept in nanoseconds, the code passes its \<open>Hours()\<close>.\<close>

datatype mail_service = MailEmailUpdate | MailPasswordReset | MailRegister

datatype mail_value = MStr string | MHours time

record mail_job =
  mj_service :: mail_service
  mj_to :: string
  mj_lang :: string
  mj_data :: "(string \<times> mail_value) list"

record argon_call =
  ac_time :: u32
  ac_memory :: u32
  ac_threads :: u8
  ac_keylen :: u32

record world =
  tick :: nat
  db :: db
  in_tx :: bool
  work :: "argon_call list"
  jobs :: "mail_job list"

type_synonym 'a io = "(world, 'a) prog"

section \<open>Claims\<close>

text \<open>\<open>core.AccessTokenClaims\<close>, \<open>core.RefreshTokenClaims\<close> and \<open>core.RefreshTokenClaimsForm\<close>.\<close>

record AccessTokenClaims =
  UserID :: "uuid option"
  Roles :: "string list"
  RefreshTokenID :: string

record RefreshTokenClaims =
  Jti :: string
  RefreshUserID :: uuid

record RefreshTokenClaimsForm =
  FormUserID :: uuid

datatype payload = AccessPayload AccessTokenClaims | RefreshPayload RefreshTokenClaimsForm

datatype key_usage = KeyUsageAuth | KeyUsageAuthRefresh

section \<open>The environment\<close>

text \<open>A statement may fail before it ran, or after it took effect with its answer lost.\<close>

datatype stmt_fault = NoFault | FailedBefore string | FailedAfter string

text \<open>Struct tags: a field value with the tags it is checked against. \<open>RequiredWithout\<close> carries the
  value of the field it names.\<close>

datatype field = FStr string | FNum int | FLen nat

datatype tag =
    Required | Email | Min int | Max int | RequiredWithout string
  | TagLangs | TagRole | TagUsage

record ext =
  x_now :: "nat \<Rightarrow> time"
  x_pg_now :: "nat \<Rightarrow> time"
  x_conn :: "nat \<Rightarrow> string option"
  x_fault :: "nat \<Rightarrow> stmt_fault"
  x_within_tx :: "dao_credentials io \<Rightarrow> dao_credentials io"
  x_within_tx_code :: "dao_short_code io \<Rightarrow> dao_short_code io"
  x_uuid_new :: "nat \<Rightarrow> uuid"
  x_uuid_string :: "uuid \<Rightarrow> string"
  x_rand_read :: "nat \<Rightarrow> u64 \<Rightarrow> string + string"
  x_rand_int :: "nat \<Rightarrow> int \<Rightarrow> string + int"
  x_num_cpu :: int
  x_idkey :: idkey_fun
  x_argon_version :: nat
  x_init_salt :: "u64 \<Rightarrow> string + string"
  x_tag :: "tag \<Rightarrow> field \<Rightarrow> bool"
  x_json_marshal :: "string \<Rightarrow> string + string"
  x_json_unmarshal :: "string option \<Rightarrow> string + string"
  x_marshal_any :: "payload \<Rightarrow> string + string"
  x_sign :: "nat \<Rightarrow> key_usage \<Rightarrow> string \<Rightarrow> string + string"
  x_decode_unverified :: "string \<Rightarrow> string + RefreshTokenClaims"
  x_verify_access :: "nat \<Rightarrow> bool \<Rightarrow> string \<Rightarrow> go_error + AccessTokenClaims"
  x_verify_refresh :: "nat \<Rightarrow> string \<Rightarrow> go_error + RefreshTokenClaims"
  x_banner :: string

text \<open>Asking the environment uses up one tick.\<close>

definition ask :: "(nat \<Rightarrow> 'a) \<Rightarrow> 'a io" where
  "ask f = (\<lambda>w. (Ret (f (tick w)), w\<lparr>tick := Suc (tick w)\<rparr>))"

fun go_result :: "string + 'a \<Rightarrow> 'a outcome" where
  "go_result (Inl m) = Fail (Opaque m)"
| "go_result (Inr a) = Ret a"

fun go_result_err :: "go_error + 'a \<Rightarrow> 'a outcome" where
  "go_result_err (Inl e) = Fail e"
| "go_result_err (Inr a) = Ret a"

definition ask_err :: "(nat \<Rightarrow> string + 'a) \<Rightarrow> 'a io" where
  "ask_err f = andThen (ask f) (\<lambda>r. lift (go_result r))"

text \<open>\<open>postgres.GetContext(ctx)\<close>: the handle, or an error.\<close>

definition get_context :: "ext \<Rightarrow> unit io" where
  "get_context E = andThen (ask (x_conn E)) (\<lambda>r. case r of
     None \<Rightarrow> ret () | Some m \<Rightarrow> fail (Opaque m))"

section \<open>SQL statements\<close>

text \<open>A statement reads \<open>CURRENT_TIMESTAMP\<close> and the tables, and either is refused, changing nothing
  by itself, or returns its rows and the new tables.\<close>

type_synonym 'r sql = "time \<Rightarrow> db \<Rightarrow> (go_error + 'r) \<times> db"

definition run_stmt :: "ext \<Rightarrow> 'r sql \<Rightarrow> 'r io" where
  "run_stmt E q = (\<lambda>w. let t = tick w; w1 = w\<lparr>tick := Suc t\<rparr> in
     case x_fault E t of
       FailedBefore m \<Rightarrow> (Fail (Opaque m), w1)
     | FailedAfter m \<Rightarrow> (Fail (Opaque m), w1\<lparr>db := snd (q (x_pg_now E t) (db w))\<rparr>)
     | NoFault \<Rightarrow> (case q (x_pg_now E t) (db w) of
           (Inl e, d) \<Rightarrow> (Fail e, w1\<lparr>db := d\<rparr>)
         | (Inr r, d) \<Rightarrow> (Ret r, w1\<lparr>db := d\<rparr>)))"

text \<open>\<open>Scan(ctx, entity)\<close> of one row: the first row, or \<open>sql.ErrNoRows\<close>.\<close>

definition scan_one :: "'r list \<Rightarrow> go_error + 'r" where
  "scan_one rs = (case rs of [] \<Rightarrow> Inl (Sentinel ErrNoRows) | r # _ \<Rightarrow> Inr r)"

text \<open>\<open>timestamp(0)\<close> columns round to the nearest second.\<close>

definition pg_ts0 :: "time \<Rightarrow> time" where
  "pg_ts0 t = (t + 500000000) div second * second"

text \<open>SQLSTATE codes of the constraints of the schema.\<close>

definition unique_violation :: go_error where
  "unique_violation = PgError ''23505''"

definition check_violation :: go_error where
  "check_violation = PgError ''23514''"

section \<open>Contracts of the environment\<close>

definition same_but_tick :: "world \<Rightarrow> world \<Rightarrow> bool" where
  "same_but_tick v w \<longleftrightarrow> v\<lparr>tick := 0\<rparr> = w\<lparr>tick := 0\<rparr>"

text \<open>
  What \<open>transaction.Transactor\<close> and \<open>postgres.WithinTx\<close> document: outside a transaction the body
  runs on a context that carries one. When the body returns a value the transaction commits and
  the value is returned; when it does not, the tables are rolled back and the error (or panic) is
  passed on. Begin and commit may themselves fail, with a driver error that matches no sentinel: the
  tables are then as before, or, when the commit's acknowledgement was lost, as the body left them.
\<close>

definition tx_contract :: "('a io \<Rightarrow> 'a io) \<Rightarrow> bool" where
  "tx_contract tx \<longleftrightarrow> (\<forall>f w. \<not> in_tx w \<longrightarrow>
     (\<exists>w0 r w1 r' v.
        same_but_tick w0 (w\<lparr>in_tx := True\<rparr>) \<and> f w0 = (r, w1) \<and> tx f w = (r', v) \<and>
        \<not> in_tx v \<and> jobs v = jobs w \<and>
        ((r' = r \<and> (if returned r then db v = db w1 else db v = db w))
         \<or> (\<exists>e. r' = Fail e \<and> sentinels_of e = {} \<and>
              (db v = db w \<or> returned r \<and> db v = db w1)))))"

lemma same_but_tickD:
  assumes "same_but_tick v w"
  shows "db v = db w" "in_tx v = in_tx w" "jobs v = jobs w" "work v = work w"
proof -
  from assms have "v\<lparr>tick := 0\<rparr> = w\<lparr>tick := 0\<rparr>" by (simp add: same_but_tick_def)
  then have "db (v\<lparr>tick := 0\<rparr>) = db (w\<lparr>tick := 0\<rparr>)" "in_tx (v\<lparr>tick := 0\<rparr>) = in_tx (w\<lparr>tick := 0\<rparr>)"
    "jobs (v\<lparr>tick := 0\<rparr>) = jobs (w\<lparr>tick := 0\<rparr>)" "work (v\<lparr>tick := 0\<rparr>) = work (w\<lparr>tick := 0\<rparr>)"
    by simp_all
  then show "db v = db w" "in_tx v = in_tx w" "jobs v = jobs w" "work v = work w" by simp_all
qed

text \<open>The three ways a transaction ends, for a caller outside any transaction.\<close>

lemma tx_cases:
  assumes "tx_contract tx" "\<not> in_tx w" "tx f w = (r', v)"
  obtains (committed) w0 a w1 where "db w0 = db w" "in_tx w0" "f w0 = (Ret a, w1)" "r' = Ret a"
      "db v = db w1"
  | (rolled_back) w0 r w1 where "db w0 = db w" "in_tx w0" "f w0 = (r, w1)" "\<not> returned r" "r' = r"
      "db v = db w"
  | (infrastructure) w0 r w1 e where "db w0 = db w" "in_tx w0" "f w0 = (r, w1)" "r' = Fail e"
      "sentinels_of e = {}" "db v = db w \<or> returned r \<and> db v = db w1"
proof -
  from assms(1) [unfolded tx_contract_def, rule_format, OF assms(2), of f]
  obtain w0 r w1 where s: "same_but_tick w0 (w\<lparr>in_tx := True\<rparr>)" and f: "f w0 = (r, w1)"
    and d: "(r' = r \<and> (if returned r then db v = db w1 else db v = db w))
         \<or> (\<exists>e. r' = Fail e \<and> sentinels_of e = {} \<and> (db v = db w \<or> returned r \<and> db v = db w1))"
    unfolding assms(3) prod.inject by blast
  from same_but_tickD [OF s] have w0: "db w0 = db w" "in_tx w0" by simp_all
  from d show thesis
  proof
    assume r: "r' = r \<and> (if returned r then db v = db w1 else db v = db w)"
    show thesis
    proof (cases r)
      case (Ret a)
      with r w0 f show thesis by (auto intro: committed)
    next
      case (Fail e)
      with r w0 f show thesis by (auto intro!: rolled_back [of w0 r w1])
    next
      case (Panic p)
      with r w0 f show thesis by (auto intro!: rolled_back [of w0 r w1])
    qed
  next
    assume "\<exists>e. r' = Fail e \<and> sentinels_of e = {} \<and> (db v = db w \<or> returned r \<and> db v = db w1)"
    with w0 f show thesis by (auto intro: infrastructure)
  qed
qed

section \<open>Running programs\<close>

lemma ask_run [simp]: "ask f w = (Ret (f (tick w)), w\<lparr>tick := Suc (tick w)\<rparr>)"
  by (simp add: ask_def)

lemma ask_err_run: "ask_err f w = (go_result (f (tick w)), w\<lparr>tick := Suc (tick w)\<rparr>)"
  by (simp add: ask_err_def andThen_def)

lemma get_context_run: "get_context E w =
   (case x_conn E (tick w) of None \<Rightarrow> Ret () | Some m \<Rightarrow> Fail (Opaque m), w\<lparr>tick := Suc (tick w)\<rparr>)"
  by (simp add: get_context_def andThen_def split: option.splits)

lemma ask_Ret: "ask f w = (Ret a, w') \<longleftrightarrow> a = f (tick w) \<and> w' = w\<lparr>tick := Suc (tick w)\<rparr>"
  by auto

lemma ask_err_Ret: "ask_err f w = (Ret a, w') \<longleftrightarrow> f (tick w) = Inr a \<and> w' = w\<lparr>tick := Suc (tick w)\<rparr>"
  by (cases "f (tick w)") (auto simp: ask_err_run)

lemma get_context_Ret: "get_context E w = (Ret u, w') \<longleftrightarrow>
    x_conn E (tick w) = None \<and> w' = w\<lparr>tick := Suc (tick w)\<rparr>"
  by (auto simp: get_context_run split: option.splits)

lemma run_stmt_Ret: "run_stmt E q w = (Ret r, w') \<longleftrightarrow> x_fault E (tick w) = NoFault \<and>
    (\<exists>d. q (x_pg_now E (tick w)) (db w) = (Inr r, d) \<and> w' = w\<lparr>tick := Suc (tick w), db := d\<rparr>)"
  by (auto simp: run_stmt_def Let_def split: stmt_fault.splits sum.splits prod.splits)

lemmas io_Ret = run_Ret ask_Ret ask_err_Ret get_context_Ret run_stmt_Ret

text \<open>An invariant of the tables.\<close>

text \<open>
  An invariant \<open>I\<close> of the tables, with a condition \<open>P\<close> on being inside a transaction: no program but
  a transaction touches the flag, and a transaction needs its body to keep \<open>I\<close> only.
\<close>

abbreviation keeps_db :: "(db \<Rightarrow> bool) \<Rightarrow> (bool \<Rightarrow> bool) \<Rightarrow> 'a io \<Rightarrow> bool" where
  "keeps_db I P \<equiv> keeps (\<lambda>w. I (db w) \<and> P (in_tx w))"

lemma keeps_ask [keeps_intros]:
  "keeps_db I P (ask f)" "keeps_db I P (ask_err g)" "keeps_db I P (get_context E)"
  by (simp_all add: keeps_def ask_err_run get_context_run)

definition sql_keeps :: "(db \<Rightarrow> bool) \<Rightarrow> 'r sql \<Rightarrow> bool" where
  "sql_keeps I q \<longleftrightarrow> (\<forall>now d. I d \<longrightarrow> I (snd (q now d)))"

lemma keeps_run_stmt [keeps_intros]: "sql_keeps I q \<Longrightarrow> keeps_db I P (run_stmt E q)"
proof (rule keepsI)
  fix w :: world assume q: "sql_keeps I q" and w: "I (db w) \<and> P (in_tx w)"
  obtain r d where r: "q (x_pg_now E (tick w)) (db w) = (r, d)"
    by (cases "q (x_pg_now E (tick w)) (db w)")
  with q w have "I d" unfolding sql_keeps_def by (metis snd_conv)
  with w r show "I (db (snd (run_stmt E q w))) \<and> P (in_tx (snd (run_stmt E q w)))"
    by (cases "x_fault E (tick w)"; cases r) (simp_all add: run_stmt_def)
qed

lemma keeps_tx:
  assumes "tx_contract tx" "keeps_db I (\<lambda>_. True) f"
  shows "keeps_db I Not (tx f)"
proof (rule keepsI)
  fix w :: world assume w: "I (db w) \<and> \<not> in_tx w"
  obtain r v where tx: "tx f w = (r, v)" by (cases "tx f w")
  from assms(1) [unfolded tx_contract_def, rule_format, OF conjunct2 [OF w], of f]
  have out: "\<not> in_tx v" unfolding tx by auto
  have "I (db v)"
    using assms(1) conjunct2 [OF w] tx
  proof (cases rule: tx_cases)
    case (committed w0 a w1)
    then show ?thesis using keepsD [OF assms(2), of w0] w by simp
  next
    case (rolled_back w0 r w1)
    then show ?thesis using w by simp
  next
    case (infrastructure w0 r w1 e)
    then show ?thesis using keepsD [OF assms(2), of w0] w by auto
  qed
  with out tx show "I (db (snd (tx f w))) \<and> \<not> in_tx (snd (tx f w))" by simp
qed

section \<open>What a statement leaves alone\<close>

text \<open>Statements and DAO operations touch the tables and the tick only.\<close>

definition frame :: "world \<Rightarrow> world \<Rightarrow> bool" where
  "frame w w' \<longleftrightarrow> in_tx w' = in_tx w \<and> jobs w' = jobs w \<and> work w' = work w"

lemma frame_refl [simp]: "frame w w"
  by (simp add: frame_def)

lemma frame_trans: "frame u v \<Longrightarrow> frame v w \<Longrightarrow> frame u w"
  by (simp add: frame_def)

lemma frame_tick [simp]: "frame w (w\<lparr>tick := t\<rparr>)" "frame w (w\<lparr>tick := t, db := d\<rparr>)"
  by (simp_all add: frame_def)

definition frames :: "'a io \<Rightarrow> bool" where
  "frames m \<longleftrightarrow> (\<forall>w. frame w (snd (m w)))"

named_theorems frame_intros "which programs touch the tables and the tick only"

lemma frames_pure [frame_intros]: "frames (ret a)" "frames (fail e)" "frames (lift r)"
  by (simp_all add: frames_def)

lemma frames_ask [frame_intros]: "frames (ask f)" "frames (ask_err g)" "frames (get_context E)"
  by (simp_all add: frames_def ask_err_run get_context_run)

lemma frames_run_stmt [frame_intros]: "frames (run_stmt E q)"
  by (auto simp: frames_def run_stmt_def Let_def frame_def
      split: stmt_fault.splits prod.splits sum.splits)

lemma frames_andThen [frame_intros]:
  assumes "frames m" "\<And>a. frames (f a)"
  shows "frames (andThen m f)"
  unfolding frames_def
proof
  fix w
  obtain r w' where m: "m w = (r, w')" by (cases "m w")
  with assms(1) have "frame w w'" unfolding frames_def by (metis snd_conv)
  moreover have "frame w' (snd (f a w'))" for a using assms(2) by (simp add: frames_def)
  ultimately show "frame w (snd (andThen m f w))"
    using m by (cases r) (auto simp: andThen_def intro: frame_trans)
qed

lemma frames_wrap [frame_intros]: "frames m \<Longrightarrow> frames (wrap msg m)"
  by (simp add: frames_def)

lemma frames_onError [frame_intros]:
  assumes "frames m" "\<And>e. frames (h e)"
  shows "frames (onError m h)"
  unfolding frames_def
proof
  fix w
  obtain r w' where m: "m w = (r, w')" by (cases "m w")
  with assms(1) have "frame w w'" unfolding frames_def by (metis snd_conv)
  moreover have "frame w' (snd (h e w'))" for e using assms(2) by (simp add: frames_def)
  ultimately show "frame w (snd (onError m h w))"
    using m by (cases r) (auto simp: onError_def intro: frame_trans)
qed

lemma frames_if [frame_intros]: "frames m \<Longrightarrow> frames n \<Longrightarrow> frames (if b then m else n)"
  by simp

lemma framesD: "frames m \<Longrightarrow> m w = (r, w') \<Longrightarrow> frame w w'"
  unfolding frames_def by (metis snd_conv)

section \<open>The three ways a statement ends\<close>

lemma run_stmt_cases:
  obtains (infra) m where "fst (run_stmt E q w) = Fail (Opaque m)"
      "db (snd (run_stmt E q w)) = db w \<or> db (snd (run_stmt E q w)) = snd (q (x_pg_now E (tick w)) (db w))"
      "\<not> (x_fault E (tick w) = NoFault)"
  | (refused) e d where "q (x_pg_now E (tick w)) (db w) = (Inl e, d)"
      "run_stmt E q w = (Fail e, w\<lparr>tick := Suc (tick w), db := d\<rparr>)"
  | (finished) r d where "q (x_pg_now E (tick w)) (db w) = (Inr r, d)"
      "run_stmt E q w = (Ret r, w\<lparr>tick := Suc (tick w), db := d\<rparr>)"
proof (cases "x_fault E (tick w)")
  case NoFault
  obtain r d where "q (x_pg_now E (tick w)) (db w) = (r, d)"
    by (cases "q (x_pg_now E (tick w)) (db w)")
  then show ?thesis
    using NoFault by (cases r) (auto simp: run_stmt_def Let_def intro: refused finished)
next
  case (FailedBefore m)
  then show ?thesis by (auto simp: run_stmt_def Let_def intro!: infra)
next
  case (FailedAfter m)
  then show ?thesis by (auto simp: run_stmt_def Let_def intro!: infra)
qed

definition healthy :: "ext \<Rightarrow> bool" where
  "healthy E \<longleftrightarrow> (\<forall>t. x_conn E t = None \<and> x_fault E t = NoFault)"

text \<open>One SQL statement behind \<open>postgres.GetContext\<close> and \<open>Scan\<close>, the shape of every operation
  that reads or returns one row.\<close>

definition query_one :: "ext \<Rightarrow> 'r list sql \<Rightarrow> 'r io" where
  "query_one E q = andThen (run_stmt E q) (\<lambda>rs. lift (go_result_err (scan_one rs)))"

definition dao_query :: "ext \<Rightarrow> 'r list sql \<Rightarrow> (go_error \<Rightarrow> go_error) \<Rightarrow> 'r io" where
  "dao_query E q classify =
     andThen (wrap ''get transaction'' (get_context E)) (\<lambda>_.
     onError (query_one E q) (\<lambda>e. fail (Wrap ''execute query'' (classify e))))"

lemma frames_query_one [frame_intros]: "frames (query_one E q)"
  unfolding query_one_def by (intro frame_intros)

lemma frames_dao_query [frame_intros]: "frames (dao_query E q c)"
  unfolding dao_query_def by (intro frame_intros)

lemma keeps_dao_query [keeps_intros]: "sql_keeps I q \<Longrightarrow> keeps_db I P (dao_query E q c)"
  unfolding dao_query_def query_one_def by (intro keeps_intros)

text \<open>A classification adds no sentinel to a failure of the infrastructure.\<close>

definition opaque_ok :: "(go_error \<Rightarrow> go_error) \<Rightarrow> bool" where
  "opaque_ok classify \<longleftrightarrow> (\<forall>m. sentinels_of (classify (Opaque m)) = {})"

text \<open>An operation fails for an infrastructure reason, with an error that matches no sentinel, or it
  does what its statement says.\<close>

lemma dao_query_cases:
  assumes "opaque_ok classify"
  obtains (infra) e w' where "dao_query E q classify w = (Fail e, w')" "sentinels_of e = {}"
      "db w' = db w \<or> (\<exists>now. db w' = snd (q now (db w)))" "\<not> healthy E"
  | (refused) now e d w' where "q now (db w) = (Inl e, d)"
      "dao_query E q classify w = (Fail (Wrap ''execute query'' (classify e)), w')" "db w' = d"
  | (no_rows) now d w' where "q now (db w) = (Inr [], d)"
      "dao_query E q classify w = (Fail (Wrap ''execute query'' (classify (Sentinel ErrNoRows))), w')"
      "db w' = d"
  | (row) now r rs d w' where "q now (db w) = (Inr (r # rs), d)"
      "dao_query E q classify w = (Ret r, w')" "db w' = d"
proof (cases "x_conn E (tick w)")
  case (Some m)
  then have "dao_query E q classify w =
      (Fail (Wrap ''get transaction'' (Opaque m)), w\<lparr>tick := Suc (tick w)\<rparr>)"
    by (simp add: dao_query_def prog_simps get_context_run)
  then show ?thesis using Some by (auto intro!: infra simp: healthy_def)
next
  case None
  let ?w = "w\<lparr>tick := Suc (tick w)\<rparr>"
  have run: "dao_query E q classify w =
      (case run_stmt E q ?w of
         (Ret [], w') \<Rightarrow> (Fail (Wrap ''execute query'' (classify (Sentinel ErrNoRows))), w')
       | (Ret (r # rs), w') \<Rightarrow> (Ret r, w')
       | (Fail e, w') \<Rightarrow> (Fail (Wrap ''execute query'' (classify e)), w')
       | (Panic p, w') \<Rightarrow> (Panic p, w'))"
    using None
    by (auto simp: dao_query_def query_one_def prog_simps get_context_run scan_one_def
        split: outcome.splits prod.splits list.splits)
  show ?thesis
  proof (cases rule: run_stmt_cases [of E q ?w])
    case (infra m)
    then obtain w' where s: "run_stmt E q ?w = (Fail (Opaque m), w')"
      and d: "db w' = db w \<or> db w' = snd (q (x_pg_now E (Suc (tick w))) (db w))"
      by (cases "run_stmt E q ?w") auto
    have "dao_query E q classify w = (Fail (Wrap ''execute query'' (classify (Opaque m))), w')"
      using run s by simp
    then show ?thesis
      using assms d infra(3) by (intro that(1)) (auto simp: healthy_def opaque_ok_def)
  next
    case (refused e d)
    then show ?thesis
      using run by (intro that(2) [of "x_pg_now E (Suc (tick w))" e d "snd (run_stmt E q ?w)"]) simp_all
  next
    case (finished r d)
    then show ?thesis using run that(3,4) by (cases r) auto
  qed
qed

section \<open>Programs that send no mail\<close>

abbreviation keeps_jobs :: "mail_job list \<Rightarrow> (bool \<Rightarrow> bool) \<Rightarrow> 'a io \<Rightarrow> bool" where
  "keeps_jobs js P \<equiv> keeps (\<lambda>w. jobs w = js \<and> P (in_tx w))"

lemma frames_keep_jobs: "frames m \<Longrightarrow> keeps_jobs js P m"
  by (auto simp: keeps_def frames_def frame_def)

lemma tx_keeps_jobs:
  assumes "tx_contract tx"
  shows "keeps_jobs js Not (tx f)"
proof (rule keepsI)
  fix w :: world assume w: "jobs w = js \<and> \<not> in_tx w"
  from assms [unfolded tx_contract_def, rule_format, OF conjunct2 [OF w], of f] w
  show "jobs (snd (tx f w)) = js \<and> \<not> in_tx (snd (tx f w))" by fastforce
qed

section \<open>Which sentinels a program reports\<close>

text \<open>
  \<open>raises P S m\<close>: started where the transaction flag satisfies \<open>P\<close>, every error of \<open>m\<close> matches
  sentinels of \<open>S\<close> only. It composes along the program, so that each operation gets the complete list
  of the sentinels its callers have to map.
\<close>

named_theorems raises_intros "structural rules: the sentinels of a program"

definition raises :: "(bool \<Rightarrow> bool) \<Rightarrow> sentinel set \<Rightarrow> 'a io \<Rightarrow> bool" where
  "raises P S m \<longleftrightarrow> (\<forall>w e w'. P (in_tx w) \<longrightarrow> m w = (Fail e, w') \<longrightarrow> sentinels_of e \<subseteq> S)"

definition keeps_tx_flag :: "(bool \<Rightarrow> bool) \<Rightarrow> 'a io \<Rightarrow> bool" where
  "keeps_tx_flag P m \<longleftrightarrow> (\<forall>w r w'. P (in_tx w) \<longrightarrow> m w = (r, w') \<longrightarrow> P (in_tx w'))"

lemma raisesD: "raises P S m \<Longrightarrow> m w = (Fail e, w') \<Longrightarrow> P (in_tx w) \<Longrightarrow> sentinels_of e \<subseteq> S"
  by (auto simp: raises_def)

lemma raises_mono: "raises P S m \<Longrightarrow> S \<subseteq> T \<Longrightarrow> raises P T m"
  by (fastforce simp: raises_def)

lemma keeps_flag: "keeps_db (\<lambda>_. True) P m \<Longrightarrow> keeps_tx_flag P m"
  unfolding keeps_tx_flag_def keeps_def by (metis snd_conv)

lemma raises_pure [raises_intros]: "raises P S (ret a)" "sentinels_of e \<subseteq> S \<Longrightarrow> raises P S (fail e)"
  by (simp_all add: raises_def)

lemma raises_ask [raises_intros]:
  "raises P S (ask f)" "raises P S (ask_err g)" "raises P S (get_context E)"
proof -
  have "sentinels_of e = {}" if "go_result r = Fail e" for r :: "string + 'b" and e
    using that by (cases r) auto
  then show "raises P S (ask f)" "raises P S (ask_err g)" "raises P S (get_context E)"
    by (auto simp: raises_def ask_err_run get_context_run split: option.splits)
qed

lemma raises_lift [raises_intros]: "raises P S (lift (go_result r))"
proof -
  have "sentinels_of e = {}" if "go_result r = Fail e" for e
    using that by (cases r) auto
  then show ?thesis by (auto simp: raises_def)
qed

lemma raises_andThen [raises_intros]:
  assumes "raises P S m" "keeps_db (\<lambda>_. True) P m" "\<And>a. raises P S (f a)"
  shows "raises P S (andThen m f)"
  unfolding raises_def
proof (intro allI impI)
  fix w e w' assume P: "P (in_tx w)" and r: "andThen m f w = (Fail e, w')"
  obtain o1 w1 where m: "m w = (o1, w1)" by (cases "m w")
  have P1: "P (in_tx w1)" using keeps_flag [OF assms(2)] P m by (auto simp: keeps_tx_flag_def)
  show "sentinels_of e \<subseteq> S"
  proof (cases o1)
    case (Ret a)
    with r m have "f a w1 = (Fail e, w')" by (simp add: andThen_def)
    then show ?thesis using assms(3) P1 by (auto dest: raisesD)
  next
    case (Fail e1)
    with r m have "m w = (Fail e, w')" by (simp add: andThen_def)
    then show ?thesis using assms(1) P by (auto dest: raisesD)
  next
    case (Panic p)
    with r m show ?thesis by (simp add: andThen_def)
  qed
qed

lemma raises_wrap [raises_intros]: "raises P S m \<Longrightarrow> raises P S (wrap msg m)"
proof -
  assume m: "raises P S m"
  have "\<exists>e1. o1 = Fail e1 \<and> e = Wrap msg e1" if "wrap_outcome msg o1 = Fail e" for o1 :: "'a outcome" and e
    using that by (cases o1) auto
  with m show ?thesis unfolding raises_def wrap_def by (fastforce split: prod.splits)
qed

lemma raises_if [raises_intros]:
  "(b \<Longrightarrow> raises P S m) \<Longrightarrow> (\<not> b \<Longrightarrow> raises P S n) \<Longrightarrow> raises P S (if b then m else n)"
  by simp

lemma raises_Let [raises_intros]: "(\<And>x. raises P S (f x)) \<Longrightarrow> raises P S (Let a f)"
  by simp

lemma raises_option [raises_intros]:
  "raises P S m \<Longrightarrow> (\<And>x. raises P S (f x)) \<Longrightarrow> raises P S (case x of None \<Rightarrow> m | Some y \<Rightarrow> f y)"
  by (cases x) simp_all

lemma raises_onError:
  assumes "raises P T m" "keeps_db (\<lambda>_. True) P m"
    "\<And>e. sentinels_of e \<subseteq> T \<Longrightarrow> raises P S (h e)"
  shows "raises P S (onError m h)"
  unfolding raises_def
proof (intro allI impI)
  fix w e w' assume P: "P (in_tx w)" and r: "onError m h w = (Fail e, w')"
  obtain o1 w1 where m: "m w = (o1, w1)" by (cases "m w")
  have P1: "P (in_tx w1)" using keeps_flag [OF assms(2)] P m by (auto simp: keeps_tx_flag_def)
  from r m obtain e1 where "o1 = Fail e1" "h e1 w1 = (Fail e, w')"
    by (cases o1) (auto simp: onError_def)
  with m P P1 assms(1) assms(3) [of e1] show "sentinels_of e \<subseteq> S" by (auto dest: raisesD)
qed

lemma raises_tx:
  assumes "tx_contract tx" "raises (\<lambda>_. True) S f"
  shows "raises Not S (tx f)"
  unfolding raises_def
proof (intro allI impI)
  fix w :: world and e w' assume "\<not> in_tx w" "tx f w = (Fail e, w')"
  with assms(1) show "sentinels_of e \<subseteq> S"
  proof (cases rule: tx_cases)
    case (rolled_back w0 r w1)
    then show ?thesis using raisesD [OF assms(2), of w0] by auto
  qed auto
qed

lemma frames_flag: "frames m \<Longrightarrow> keeps_db (\<lambda>_. True) P m"
  by (auto simp: keeps_def frames_def frame_def)

lemma raises_dao_query:
  assumes "opaque_ok c" "\<And>now d e d'. q now d = (Inl e, d') \<Longrightarrow> sentinels_of (c e) \<subseteq> S"
    and "sentinels_of (c (Sentinel ErrNoRows)) \<subseteq> S"
  shows "raises P S (dao_query E q c)"
  unfolding raises_def
proof (intro allI impI)
  fix w e w' assume r: "dao_query E q c w = (Fail e, w')"
  show "sentinels_of e \<subseteq> S"
    using assms(1)
    by (cases rule: dao_query_cases [of c E q w]) (use r assms(2,3) in auto)
qed

section \<open>Programs that do not panic\<close>

named_theorems panic_intros "structural rules: which programs never panic"

definition panic_free :: "'a io \<Rightarrow> bool" where
  "panic_free m \<longleftrightarrow> (\<forall>w p w'. m w \<noteq> (Panic p, w'))"

lemma panic_freeD: "panic_free m \<Longrightarrow> m w \<noteq> (Panic p, w')"
  by (simp add: panic_free_def)

lemma panic_free_pure [panic_intros]:
  "panic_free (ret a)" "panic_free (fail e)" "panic_free (lift (go_result r))"
  "panic_free (lift (go_result_err r'))"
  by (cases r; cases r'; simp add: panic_free_def)+

lemma panic_free_andThen [panic_intros]:
  "panic_free m \<Longrightarrow> (\<And>a. panic_free (f a)) \<Longrightarrow> panic_free (andThen m f)"
  unfolding panic_free_def andThen_def by (auto split: prod.splits outcome.splits)

lemma panic_free_wrap [panic_intros]: "panic_free m \<Longrightarrow> panic_free (wrap msg m)"
proof -
  assume m: "panic_free m"
  have "wrap_outcome msg o1 = Panic p \<longleftrightarrow> o1 = Panic p" for o1 :: "'a outcome" and p
    by (cases o1) auto
  with m show ?thesis by (auto simp: panic_free_def wrap_def split: prod.splits)
qed

lemma panic_free_onError [panic_intros]:
  "panic_free m \<Longrightarrow> (\<And>e. panic_free (h e)) \<Longrightarrow> panic_free (onError m h)"
  unfolding panic_free_def onError_def by (auto split: prod.splits outcome.splits)

lemma panic_free_if [panic_intros]: "panic_free m \<Longrightarrow> panic_free n \<Longrightarrow> panic_free (if b then m else n)"
  by simp

lemma panic_free_ask [panic_intros]: "panic_free (ask f)" "panic_free (ask_err g)" "panic_free (get_context E)"
proof -
  have "go_result r \<noteq> Panic p" for r :: "string + 'b" and p by (cases r) auto
  then show "panic_free (ask f)" "panic_free (ask_err g)" "panic_free (get_context E)"
    by (auto simp: panic_free_def ask_err_run get_context_run split: option.splits)
qed

lemma panic_free_stmt [panic_intros]: "panic_free (run_stmt E q)"
  by (auto simp: panic_free_def run_stmt_def Let_def split: stmt_fault.splits sum.splits prod.splits)

lemma panic_free_query_one [panic_intros]: "panic_free (query_one E q)"
  unfolding query_one_def by (intro panic_intros)

lemma panic_free_dao_query [panic_intros]: "panic_free (dao_query E q c)"
  unfolding dao_query_def by (intro panic_intros)

lemma panic_free_tx:
  assumes "tx_contract tx" "panic_free f" "\<not> in_tx w"
  shows "tx f w \<noteq> (Panic p, w')"
proof
  assume "tx f w = (Panic p, w')"
  with assms(1,3) show False
    by (cases rule: tx_cases) (use assms(2) in \<open>auto simp: panic_free_def\<close>)
qed

end
