(* ===== verification/DaoCredentials.thy ===== *)
theory DaoCredentials
  imports World "HOL-Library.Product_Lexorder"
begin

text \<open>
  The credentials table: the SQL statements of \<open>internal/dao/pg.credentials*.sql\<close> under the schema
  of \<open>internal/models/migrations\<close>, and the DAO operations around them. First the table and its
  statements as pure functions with their laws (collected in the locale \<open>account_table\<close>, which
  the account services use), then one program per \<open>Exec\<close>.
\<close>

section \<open>The table\<close>

text \<open>\<open>credentials_role_check\<close> and the check on \<open>email\<close>. The role names mirror the permission
  configuration; theory \<open>Config\<close> proves that they agree with it.\<close>

definition role_check_list :: "string list" where
  "role_check_list = [''auth:anon'', ''auth:user'', ''auth:admin'', ''auth:superadmin'']"

definition row_checks :: "dao_credentials \<Rightarrow> bool" where
  "row_checks r \<longleftrightarrow> c_email r \<noteq> '''' \<and> c_role r \<in> set role_check_list"

text \<open>Primary key, unique address and row checks: what Postgres enforces on the table.\<close>

definition credentials_ok :: "dao_credentials list \<Rightarrow> bool" where
  "credentials_ok rs \<longleftrightarrow>
     distinct (map c_id rs) \<and> distinct (map c_email rs) \<and> (\<forall>r\<in>set rs. row_checks r)"

definition by_id :: "uuid \<Rightarrow> dao_credentials list \<Rightarrow> dao_credentials option" where
  "by_id i rs = find (\<lambda>r. c_id r = i) rs"

definition by_email :: "string \<Rightarrow> dao_credentials list \<Rightarrow> dao_credentials option" where
  "by_email e rs = find (\<lambda>r. c_email r = e) rs"

definition update_row ::
    "uuid \<Rightarrow> (dao_credentials \<Rightarrow> dao_credentials) \<Rightarrow> dao_credentials list \<Rightarrow> dao_credentials list" where
  "update_row i f rs = map (\<lambda>r. if c_id r = i then f r else r) rs"

text \<open>\<open>INSERT ... RETURNING *\<close>: the checks come before the unique indexes.\<close>

definition insert_row ::
    "dao_credentials \<Rightarrow> dao_credentials list \<Rightarrow> go_error + dao_credentials list" where
  "insert_row r rs =
     (if \<not> row_checks r then Inl check_violation
      else if c_id r \<in> set (map c_id rs) \<or> c_email r \<in> set (map c_email rs)
      then Inl unique_violation
      else Inr (rs @ [r]))"

text \<open>\<open>UPDATE ... WHERE id = ...\<close>: refused when an updated row breaks a check or a unique index.\<close>

definition update_table ::
    "uuid \<Rightarrow> (dao_credentials \<Rightarrow> dao_credentials) \<Rightarrow> dao_credentials list \<Rightarrow>
     go_error + dao_credentials list" where
  "update_table i f rs =
     (let rs' = update_row i f rs in
      if \<not> list_all (\<lambda>r. c_id r = i \<longrightarrow> row_checks (f r)) rs then Inl check_violation
      else if \<not> distinct (map c_email rs') then Inl unique_violation
      else Inr rs')"

section \<open>The statements\<close>

text \<open>\<open>pg.credentialsInsert.sql\<close>\<close>

definition sql_credentialsInsert ::
    "uuid \<Rightarrow> string \<Rightarrow> string \<Rightarrow> time \<Rightarrow> time \<Rightarrow> string \<Rightarrow> dao_credentials list sql" where
  "sql_credentialsInsert i email password created_at updated_at role now d =
     (let r = \<lparr>c_id = i, c_email = email, c_password = password, c_role = role,
               c_created_at = pg_ts0 created_at, c_updated_at = pg_ts0 updated_at\<rparr> in
      case insert_row r (credentials d) of
        Inl e \<Rightarrow> (Inl e, d)
      | Inr rs \<Rightarrow> (Inr [r], d\<lparr>credentials := rs\<rparr>))"

text \<open>\<open>pg.credentialsSelect.sql\<close>, \<open>pg.credentialsSelectByEmail.sql\<close>, \<open>pg.credentialsExist.sql\<close>\<close>

definition sql_credentialsSelect :: "uuid \<Rightarrow> dao_credentials list sql" where
  "sql_credentialsSelect i now d = (Inr (filter (\<lambda>r. c_id r = i) (credentials d)), d)"

definition sql_credentialsSelectByEmail :: "string \<Rightarrow> dao_credentials list sql" where
  "sql_credentialsSelectByEmail e now d = (Inr (filter (\<lambda>r. c_email r = e) (credentials d)), d)"

definition sql_credentialsExist :: "string \<Rightarrow> nat sql" where
  "sql_credentialsExist e now d = (Inr (length (filter (\<lambda>r. c_email r = e) (credentials d))), d)"

text \<open>The three updates by identifier, with \<open>RETURNING *\<close>.\<close>

definition sql_update :: "uuid \<Rightarrow> (dao_credentials \<Rightarrow> dao_credentials) \<Rightarrow> dao_credentials list sql" where
  "sql_update i f now d =
     (case update_table i f (credentials d) of
        Inl e \<Rightarrow> (Inl e, d)
      | Inr rs \<Rightarrow> (Inr (filter (\<lambda>r. c_id r = i) rs), d\<lparr>credentials := rs\<rparr>))"

definition sql_credentialsUpdateEmail :: "string \<Rightarrow> time \<Rightarrow> uuid \<Rightarrow> dao_credentials list sql" where
  "sql_credentialsUpdateEmail email now i =
     sql_update i (\<lambda>r. r\<lparr>c_email := email, c_updated_at := pg_ts0 now\<rparr>)"

definition sql_credentialsUpdatePassword :: "string \<Rightarrow> time \<Rightarrow> uuid \<Rightarrow> dao_credentials list sql" where
  "sql_credentialsUpdatePassword password now i =
     sql_update i (\<lambda>r. r\<lparr>c_password := password, c_updated_at := pg_ts0 now\<rparr>)"

definition sql_credentialsUpdateRole :: "string \<Rightarrow> time \<Rightarrow> uuid \<Rightarrow> dao_credentials list sql" where
  "sql_credentialsUpdateRole role now i =
     sql_update i (\<lambda>r. r\<lparr>c_role := role, c_updated_at := pg_ts0 now\<rparr>)"

text \<open>
  \<open>pg.credentialsList.sql\<close>. The role list is \<open>NULL\<close> when empty; the page is cut from the rows in
  descending order of creation time and identifier; a zero limit is sent as \<open>NULL\<close>, no limit. The
  password column is not selected.
\<close>

definition list_key :: "dao_credentials \<Rightarrow> time \<times> uuid" where
  "list_key r = (c_created_at r, c_id r)"

definition listing :: "string list \<Rightarrow> dao_credentials list \<Rightarrow> dao_credentials list" where
  "listing roles rs =
     rev (sort_key list_key (filter (\<lambda>r. roles = [] \<or> c_role r \<in> set roles) rs))"

definition public_row :: "dao_credentials \<Rightarrow> dao_credentials" where
  "public_row r = r\<lparr>c_password := ''''\<rparr>"

definition sql_credentialsList :: "int option \<Rightarrow> int \<Rightarrow> string list \<Rightarrow> dao_credentials list sql" where
  "sql_credentialsList limit offset roles now d =
     (if (case limit of None \<Rightarrow> False | Some l \<Rightarrow> l < 0) then (Inl (PgError ''2201W''), d)
      else if offset < 0 then (Inl (PgError ''2201X''), d)
      else let rest = drop (nat offset) (listing roles (credentials d)) in
           (Inr (map public_row (case limit of None \<Rightarrow> rest | Some l \<Rightarrow> take (nat l) rest)), d))"

section \<open>The operations\<close>

record CredentialsInsertRequest =
  ci_ID :: uuid
  ci_Email :: string
  ci_Password :: string
  ci_Role :: string
  ci_Now :: time

text \<open>Mapping of SQLSTATE 23505 and of \<open>sql.ErrNoRows\<close> onto the package's sentinels. The
  operations share the shape \<open>dao_query\<close>: handle, statement, \<open>Scan\<close>, classification of the error.\<close>

definition join_unique :: "sentinel \<Rightarrow> go_error \<Rightarrow> go_error" where
  "join_unique s e = (if errors_as_pg e = Some ''23505'' then Join [e, Sentinel s] else e)"

definition join_no_rows :: "sentinel \<Rightarrow> go_error \<Rightarrow> go_error" where
  "join_no_rows s e = (if errors_is e ErrNoRows then Join [e, Sentinel s] else e)"

definition dao_CredentialsInsert :: "ext \<Rightarrow> CredentialsInsertRequest \<Rightarrow> dao_credentials io" where
  "dao_CredentialsInsert E request =
     dao_query E (sql_credentialsInsert (ci_ID request) (ci_Email request)
         (ci_Password request) (ci_Now request) (ci_Now request) (ci_Role request))
       (join_unique ErrCredentialsInsertAlreadyExists)"

definition dao_CredentialsExist :: "ext \<Rightarrow> string \<Rightarrow> bool io" where
  "dao_CredentialsExist E email =
     andThen (wrap ''get transaction'' (get_context E)) (\<lambda>_.
     andThen (wrap ''execute query'' (run_stmt E (sql_credentialsExist email))) (\<lambda>n.
     ret (n \<ge> 1)))"

definition dao_CredentialsSelect :: "ext \<Rightarrow> uuid \<Rightarrow> dao_credentials io" where
  "dao_CredentialsSelect E i =
     dao_query E (sql_credentialsSelect i) (join_no_rows ErrCredentialsSelectNotFound)"

definition dao_CredentialsSelectByEmail :: "ext \<Rightarrow> string \<Rightarrow> dao_credentials io" where
  "dao_CredentialsSelectByEmail E email =
     dao_query E (sql_credentialsSelectByEmail email) (join_no_rows ErrCredentialsSelectByEmailNotFound)"

record CredentialsListRequest =
  cl_Limit :: int
  cl_Offset :: int
  cl_Roles :: "string list"

text \<open>\<open>make([]*Credentials, 0, request.Limit)\<close> panics on a negative capacity.\<close>

definition dao_CredentialsList :: "ext \<Rightarrow> CredentialsListRequest \<Rightarrow> dao_credentials list io" where
  "dao_CredentialsList E request =
     andThen (wrap ''get transaction'' (get_context E)) (\<lambda>_.
     if cl_Limit request < 0 then lift (Panic ''makeslice: cap out of range'')
     else wrap ''execute query'' (run_stmt E (sql_credentialsList
            (if cl_Limit request = 0 then None else Some (cl_Limit request))
            (cl_Offset request) (cl_Roles request))))"

record CredentialsUpdateEmailRequest =
  ue_ID :: uuid
  ue_Email :: string
  ue_Now :: time

definition dao_CredentialsUpdateEmail :: "ext \<Rightarrow> CredentialsUpdateEmailRequest \<Rightarrow> dao_credentials io" where
  "dao_CredentialsUpdateEmail E request =
     dao_query E (sql_credentialsUpdateEmail (ue_Email request) (ue_Now request) (ue_ID request))
       (\<lambda>e. if errors_as_pg e = Some ''23505'' then Join [e, Sentinel ErrCredentialsUpdateEmailAlreadyExists]
            else if errors_is e ErrNoRows then Join [e, Sentinel ErrCredentialsUpdateEmailNotFound]
            else e)"

record CredentialsUpdatePasswordRequest =
  up_ID :: uuid
  up_Password :: string
  up_Now :: time

definition dao_CredentialsUpdatePassword ::
    "ext \<Rightarrow> CredentialsUpdatePasswordRequest \<Rightarrow> dao_credentials io" where
  "dao_CredentialsUpdatePassword E request =
     dao_query E (sql_credentialsUpdatePassword (up_Password request) (up_Now request) (up_ID request))
       (join_no_rows ErrCredentialsUpdatePasswordNotFound)"

record CredentialsUpdateRoleRequest =
  ur_ID :: uuid
  ur_Role :: string
  ur_Now :: time

definition dao_CredentialsUpdateRole :: "ext \<Rightarrow> CredentialsUpdateRoleRequest \<Rightarrow> dao_credentials io" where
  "dao_CredentialsUpdateRole E request =
     dao_query E (sql_credentialsUpdateRole (ur_Role request) (ur_Now request) (ur_ID request))
       (join_no_rows ErrCredentialsUpdateRoleNotFound)"

section \<open>Laws of the table\<close>

text \<open>What the account operations use of a table with a primary key and a second unique key: the
  client's side of the credentials table, with the laws its provider promises.\<close>

locale account_table =
  fixes key :: "'r \<Rightarrow> 'k" and name :: "'r \<Rightarrow> 'n"
    and lookup :: "'k \<Rightarrow> 't \<Rightarrow> 'r option" and lookup_name :: "'n \<Rightarrow> 't \<Rightarrow> 'r option"
    and insert :: "'r \<Rightarrow> 't \<Rightarrow> 'e + 't" and update :: "'k \<Rightarrow> ('r \<Rightarrow> 'r) \<Rightarrow> 't \<Rightarrow> 'e + 't"
    and invar :: "'t \<Rightarrow> bool"
  assumes lookup_key: "lookup k t = Some r \<Longrightarrow> key r = k"
    and lookup_name_iff: "invar t \<Longrightarrow>
      lookup_name n t = Some r \<longleftrightarrow> name r = n \<and> lookup (key r) t = Some r"
    and insert_fresh: "insert r t = Inr t' \<Longrightarrow> lookup (key r) t = None \<and> lookup_name (name r) t = None"
    and insert_lookup: "insert r t = Inr t' \<Longrightarrow>
      lookup k t' = (if k = key r then Some r else lookup k t)"
    and insert_invar: "invar t \<Longrightarrow> insert r t = Inr t' \<Longrightarrow> invar t'"
    and update_lookup: "(\<And>r. key (f r) = key r) \<Longrightarrow> update k f t = Inr t' \<Longrightarrow>
      lookup j t' = (if j = k then map_option f (lookup k t) else lookup j t)"
    and update_invar: "invar t \<Longrightarrow> (\<And>r. key (f r) = key r) \<Longrightarrow> update k f t = Inr t' \<Longrightarrow> invar t'"
begin

lemma name_unique:
  assumes "invar t" "lookup k t = Some r" "lookup j t = Some q" "name r = name q"
  shows "k = j"
proof -
  have "lookup_name (name r) t = Some r" "lookup_name (name r) t = Some q"
    using assms lookup_key by (simp_all add: lookup_name_iff)
  then have "r = q" by simp
  then show ?thesis using assms lookup_key by metis
qed

lemma insert_lookup_name:
  assumes "invar t" "insert r t = Inr t'"
  shows "lookup_name n t' = (if n = name r then Some r else lookup_name n t)"
proof -
  have inv': "invar t'" using assms by (rule insert_invar)
  have own: "lookup_name (name r) t' = Some r"
    using inv' insert_lookup [OF assms(2)] by (simp add: lookup_name_iff)
  have "lookup_name n t' = Some q \<longleftrightarrow> lookup_name n t = Some q" if "n \<noteq> name r" for q
    using that inv' assms(1) insert_lookup [OF assms(2)] insert_fresh [OF assms(2)]
    by (auto simp: lookup_name_iff)
  with own show ?thesis by (metis not_None_eq)
qed

lemma update_lookup_name:
  assumes "invar t" "\<And>r. key (f r) = key r" "update k f t = Inr t'" "lookup k t = Some r"
  shows "lookup_name (name (f r)) t' = Some (f r)"
proof -
  have "invar t'" using assms(1-3) by (rule update_invar)
  moreover have "lookup k t' = Some (f r)" using update_lookup [OF assms(2,3)] assms(4) by simp
  moreover have "key (f r) = k" using assms(2,4) lookup_key by metis
  ultimately show ?thesis by (simp add: lookup_name_iff)
qed

text \<open>An update that keeps names is seen through the second key by the updated row only.\<close>

lemma update_keeps_names:
  assumes "invar t" "\<And>r. key (f r) = key r" "\<And>r. name (f r) = name r" "update k f t = Inr t'"
  shows "lookup_name n t' =
    (case lookup_name n t of None \<Rightarrow> None | Some r \<Rightarrow> Some (if key r = k then f r else r))"
proof -
  have inv': "invar t'" using assms(1,2,4) by (rule update_invar)
  note look = update_lookup [OF assms(2,4)]
  show ?thesis
  proof (cases "lookup_name n t")
    case (Some r)
    then have r: "name r = n" "lookup (key r) t = Some r" using assms(1) by (simp_all add: lookup_name_iff)
    have "lookup_name n t' = Some (if key r = k then f r else r)"
      using r inv' look assms(2,3) by (auto simp: lookup_name_iff)
    with Some show ?thesis by simp
  next
    case None
    have "lookup_name n t' = Some q \<Longrightarrow> False" for q
    proof -
      assume "lookup_name n t' = Some q"
      then have q: "name q = n" "lookup (key q) t' = Some q" using inv' by (simp_all add: lookup_name_iff)
      then obtain p where "lookup (key q) t = Some p" "name p = n"
        using look assms(3) by (auto split: if_splits)
      then have "lookup_name n t = Some p" using assms(1) lookup_key by (metis lookup_name_iff)
      with None show False by simp
    qed
    with None show ?thesis by (cases "lookup_name n t'") auto
  qed
qed

text \<open>An update that changes the name frees the old one.\<close>

lemma rename_frees_old:
  assumes "invar t" "\<And>r. key (f r) = key r" "update k f t = Inr t'" "lookup k t = Some r"
    and "name (f r) \<noteq> name r"
  shows "lookup_name (name r) t' = None"
proof (rule ccontr)
  assume "lookup_name (name r) t' \<noteq> None"
  then obtain q where "lookup_name (name r) t' = Some q" by blast
  moreover have "invar t'" using assms(1-3) by (rule update_invar)
  ultimately have q: "name q = name r" "lookup (key q) t' = Some q" by (simp_all add: lookup_name_iff)
  show False
  proof (cases "key q = k")
    case True
    then show False using q assms(4,5) update_lookup [OF assms(2,3)] by auto
  next
    case False
    then have "lookup (key q) t = Some q" using q update_lookup [OF assms(2,3)] by simp
    then have "key q = k" using name_unique [OF assms(1) _ assms(4)] q by metis
    with False show False by simp
  qed
qed

end

lemma find_map_key:
  "(\<And>r. k (f r) = k r) \<Longrightarrow>
   find (\<lambda>r. k r = j) (map (\<lambda>r. if k r = i then f r else r) rs) =
   (if j = i then map_option f (find (\<lambda>r. k r = i) rs) else find (\<lambda>r. k r = j) rs)"
  by (induction rs) auto

lemma by_id_None: "by_id i rs = None \<longleftrightarrow> i \<notin> set (map c_id rs)"
  by (auto simp: by_id_def find_None_iff)

lemma by_email_None: "by_email e rs = None \<longleftrightarrow> e \<notin> set (map c_email rs)"
  by (auto simp: by_email_def find_None_iff)

lemma by_id_Some: "distinct (map c_id rs) \<Longrightarrow> by_id i rs = Some r \<longleftrightarrow> r \<in> set rs \<and> c_id r = i"
  by (induction rs) (auto simp: by_id_def)

lemma by_email_Some: "distinct (map c_email rs) \<Longrightarrow> by_email e rs = Some r \<longleftrightarrow> r \<in> set rs \<and> c_email r = e"
  by (induction rs) (auto simp: by_email_def)

lemma by_id_snoc: "by_id i (rs @ [r]) = (case by_id i rs of None \<Rightarrow> if c_id r = i then Some r else None | s \<Rightarrow> s)"
  by (induction rs) (auto simp: by_id_def)

lemma map_id_update: "(\<And>r. c_id (f r) = c_id r) \<Longrightarrow> map c_id (update_row i f rs) = map c_id rs"
  by (auto simp: update_row_def)

lemma insert_row_Inr: "insert_row r rs = Inr rs' \<longleftrightarrow>
    row_checks r \<and> c_id r \<notin> set (map c_id rs) \<and> c_email r \<notin> set (map c_email rs) \<and> rs' = rs @ [r]"
  by (auto simp: insert_row_def)

lemma update_table_Inr: "update_table i f rs = Inr rs' \<longleftrightarrow>
    (\<forall>r\<in>set rs. c_id r = i \<longrightarrow> row_checks (f r)) \<and> distinct (map c_email rs') \<and> rs' = update_row i f rs"
  by (auto simp: update_table_def Let_def list_all_iff simp del: distinct_map)

lemma insert_row_ok: "credentials_ok rs \<Longrightarrow> insert_row r rs = Inr rs' \<Longrightarrow> credentials_ok rs'"
  by (auto simp: insert_row_Inr credentials_ok_def)

lemma update_table_ok:
  assumes "credentials_ok rs" "\<And>r. c_id (f r) = c_id r" "update_table i f rs = Inr rs'"
  shows "credentials_ok rs'"
proof -
  have rs': "rs' = update_row i f rs" "distinct (map c_email rs')"
    and chk: "\<forall>r\<in>set rs. c_id r = i \<longrightarrow> row_checks (f r)"
    using assms(3) unfolding update_table_Inr by blast+
  have "\<forall>r\<in>set rs'. row_checks r"
    using chk assms(1) by (auto simp: rs'(1) update_row_def credentials_ok_def)
  with rs' assms(1) map_id_update [of f i rs, OF assms(2)] show ?thesis
    by (simp add: credentials_ok_def)
qed

interpretation accounts: account_table c_id c_email by_id by_email insert_row update_table credentials_ok
proof unfold_locales
  show "by_id k t = Some r \<Longrightarrow> c_id r = k" for k t r
    by (auto simp: by_id_def find_Some_iff)
  show "credentials_ok t \<Longrightarrow> by_email n t = Some r \<longleftrightarrow> c_email r = n \<and> by_id (c_id r) t = Some r" for t n r
    by (auto simp: credentials_ok_def by_id_Some by_email_Some)
  show "insert_row r t = Inr t' \<Longrightarrow> by_id (c_id r) t = None \<and> by_email (c_email r) t = None" for r t t'
    by (simp add: insert_row_Inr by_id_None by_email_None)
  show "insert_row r t = Inr t' \<Longrightarrow> by_id k t' = (if k = c_id r then Some r else by_id k t)" for r t t' k
    using by_id_None [of "c_id r" t]
    by (auto simp: insert_row_Inr by_id_snoc simp del: set_map split: option.splits)
  show "credentials_ok t \<Longrightarrow> insert_row r t = Inr t' \<Longrightarrow> credentials_ok t'" for r t t'
    by (rule insert_row_ok)
  show "(\<And>r. c_id (f r) = c_id r) \<Longrightarrow> update_table k f t = Inr t' \<Longrightarrow>
      by_id j t' = (if j = k then map_option f (by_id k t) else by_id j t)" for f k t t' j
    using find_map_key [of c_id f j k t] by (simp add: update_table_Inr by_id_def update_row_def)
  show "credentials_ok t \<Longrightarrow> (\<And>r. c_id (f r) = c_id r) \<Longrightarrow> update_table k f t = Inr t' \<Longrightarrow>
      credentials_ok t'" for f k t t'
    by (rule update_table_ok)
qed

section \<open>What the operations return\<close>

lemma find_filter: "find P xs = (case filter P xs of [] \<Rightarrow> None | x # _ \<Rightarrow> Some x)"
  by (induction xs) auto

lemma classify_opaque [simp]:
  "join_no_rows s (Opaque m) = Opaque m" "join_unique s (Opaque m) = Opaque m"
  "join_no_rows s (Sentinel ErrNoRows) = Join [Sentinel ErrNoRows, Sentinel s]"
  "join_unique s (Sentinel ErrNoRows) = Sentinel ErrNoRows"
  by (simp_all add: join_no_rows_def join_unique_def)

lemma join_no_rows_opaque: "opaque_ok (join_no_rows s)"
  by (simp add: opaque_ok_def)

lemma join_unique_opaque: "opaque_ok (join_unique s)"
  by (simp add: opaque_ok_def)

text \<open>Reading a row.\<close>

definition read_query :: "ext \<Rightarrow> (dao_credentials \<Rightarrow> bool) \<Rightarrow> sentinel \<Rightarrow> dao_credentials io" where
  "read_query E P s = dao_query E (\<lambda>now d. (Inr (filter P (credentials d)), d)) (join_no_rows s)"

lemma read_query_cases:
  obtains (infra) e w' where "read_query E P s w = (Fail e, w')" "sentinels_of e = {}" "db w' = db w"
      "\<not> healthy E"
  | (missing) w' where "read_query E P s w =
        (Fail (Wrap ''execute query'' (Join [Sentinel ErrNoRows, Sentinel s])), w')"
      "find P (credentials (db w)) = None" "db w' = db w"
  | (found) r w' where "read_query E P s w = (Ret r, w')" "find P (credentials (db w)) = Some r"
      "db w' = db w"
  using join_no_rows_opaque
proof (cases rule: dao_query_cases [of "join_no_rows s" E "\<lambda>now d. (Inr (filter P (credentials d)), d)" w])
  case (infra e w')
  then show ?thesis by (intro that(1) [of e w']) (auto simp: read_query_def)
next
  case (refused now e d w')
  then show ?thesis by simp
next
  case (no_rows now d w')
  then show ?thesis by (intro that(2) [of w']) (auto simp: read_query_def find_filter)
next
  case (row now r rs d w')
  then show ?thesis by (intro that(3) [of r w']) (auto simp: read_query_def find_filter)
qed

lemma select_read: "dao_CredentialsSelect E i = read_query E (\<lambda>r. c_id r = i) ErrCredentialsSelectNotFound"
  by (simp add: dao_CredentialsSelect_def read_query_def sql_credentialsSelect_def [abs_def])

lemma select_email_read:
  "dao_CredentialsSelectByEmail E m = read_query E (\<lambda>r. c_email r = m) ErrCredentialsSelectByEmailNotFound"
  by (simp add: dao_CredentialsSelectByEmail_def read_query_def sql_credentialsSelectByEmail_def [abs_def])

lemma select_cases:
  obtains (infra) e w' where "dao_CredentialsSelect E i w = (Fail e, w')" "sentinels_of e = {}"
      "db w' = db w" "\<not> healthy E"
  | (missing) e w' where "dao_CredentialsSelect E i w = (Fail e, w')"
      "sentinels_of e = {ErrNoRows, ErrCredentialsSelectNotFound}"
      "by_id i (credentials (db w)) = None" "db w' = db w"
  | (found) r w' where "dao_CredentialsSelect E i w = (Ret r, w')"
      "by_id i (credentials (db w)) = Some r" "db w' = db w"
  unfolding select_read by_id_def
  by (rule read_query_cases [of E "\<lambda>r. c_id r = i" ErrCredentialsSelectNotFound w])
    (auto intro: that)

lemma select_email_cases:
  obtains (infra) e w' where "dao_CredentialsSelectByEmail E m w = (Fail e, w')" "sentinels_of e = {}"
      "db w' = db w" "\<not> healthy E"
  | (missing) e w' where "dao_CredentialsSelectByEmail E m w = (Fail e, w')"
      "sentinels_of e = {ErrNoRows, ErrCredentialsSelectByEmailNotFound}"
      "by_email m (credentials (db w)) = None" "db w' = db w"
  | (found) r w' where "dao_CredentialsSelectByEmail E m w = (Ret r, w')"
      "by_email m (credentials (db w)) = Some r" "db w' = db w"
  unfolding select_email_read by_email_def
  by (rule read_query_cases [of E "\<lambda>r. c_email r = m" ErrCredentialsSelectByEmailNotFound w])
    (auto intro: that)

text \<open>The row an insert asks for.\<close>

definition new_row :: "CredentialsInsertRequest \<Rightarrow> dao_credentials" where
  "new_row rq = \<lparr>c_id = ci_ID rq, c_email = ci_Email rq, c_password = ci_Password rq,
     c_role = ci_Role rq, c_created_at = pg_ts0 (ci_Now rq), c_updated_at = pg_ts0 (ci_Now rq)\<rparr>"

lemma insert_cases:
  obtains (infra) e w' where "dao_CredentialsInsert E rq w = (Fail e, w')" "sentinels_of e = {}"
      "db w' = db w \<or> (\<exists>rs. insert_row (new_row rq) (credentials (db w)) = Inr rs \<and>
                          db w' = (db w)\<lparr>credentials := rs\<rparr>)" "\<not> healthy E"
  | (check) e w' where "dao_CredentialsInsert E rq w = (Fail e, w')" "sentinels_of e = {}"
      "\<not> row_checks (new_row rq)" "db w' = db w"
  | (duplicate) e w' where "dao_CredentialsInsert E rq w = (Fail e, w')"
      "sentinels_of e = {ErrCredentialsInsertAlreadyExists}"
      "by_id (ci_ID rq) (credentials (db w)) \<noteq> None \<or> by_email (ci_Email rq) (credentials (db w)) \<noteq> None"
      "db w' = db w"
  | (inserted) rs w' where "dao_CredentialsInsert E rq w = (Ret (new_row rq), w')"
      "insert_row (new_row rq) (credentials (db w)) = Inr rs" "db w' = (db w)\<lparr>credentials := rs\<rparr>"
proof -
  let ?q = "sql_credentialsInsert (ci_ID rq) (ci_Email rq) (ci_Password rq) (ci_Now rq) (ci_Now rq) (ci_Role rq)"
  have q: "?q now d = (case insert_row (new_row rq) (credentials d) of
      Inl e \<Rightarrow> (Inl e, d) | Inr rs \<Rightarrow> (Inr [new_row rq], d\<lparr>credentials := rs\<rparr>))" for now d
    by (simp add: sql_credentialsInsert_def new_row_def Let_def split: sum.split)
  have keys: "c_id (new_row rq) = ci_ID rq" "c_email (new_row rq) = ci_Email rq"
    by (simp_all add: new_row_def)
  show ?thesis
    using join_unique_opaque
  proof (cases rule: dao_query_cases [of "join_unique ErrCredentialsInsertAlreadyExists" E ?q w])
    case (infra e w')
    from infra(3) have "db w' = db w \<or> (\<exists>rs. insert_row (new_row rq) (credentials (db w)) = Inr rs \<and>
                          db w' = (db w)\<lparr>credentials := rs\<rparr>)"
      by (auto simp: q split: sum.splits)
    with infra show ?thesis by (intro that(1)) (auto simp: dao_CredentialsInsert_def)
  next
    case (refused now e d w')
    then have d: "d = db w" "insert_row (new_row rq) (credentials (db w)) = Inl e"
      by (auto simp: q split: sum.splits)
    show ?thesis
    proof (cases "row_checks (new_row rq)")
      case False
      with d(2) have "e = check_violation" by (simp add: insert_row_def)
      with False refused d show ?thesis
        by (intro that(2) [of "Wrap ''execute query'' e" w']) (auto simp: dao_CredentialsInsert_def join_unique_def check_violation_def)
    next
      case True
      with d(2) have "e = unique_violation"
        "c_id (new_row rq) \<in> set (map c_id (credentials (db w))) \<or>
         c_email (new_row rq) \<in> set (map c_email (credentials (db w)))"
        by (simp_all add: insert_row_def split: if_splits)
      with refused d show ?thesis
        by (intro that(3) [of "Wrap ''execute query'' (Join [e, Sentinel ErrCredentialsInsertAlreadyExists])" w'])
          (auto simp: dao_CredentialsInsert_def join_unique_def unique_violation_def keys
             by_id_None by_email_None simp del: set_map)
    qed
  next
    case (no_rows now d w')
    then show ?thesis by (auto simp: q split: sum.splits)
  next
    case (row now r rs d w')
    then obtain t where "insert_row (new_row rq) (credentials (db w)) = Inr t" "r = new_row rq"
      "d = (db w)\<lparr>credentials := t\<rparr>"
      by (cases "insert_row (new_row rq) (credentials (db w))") (auto simp: q)
    with row show ?thesis
      by (intro that(4) [of w' t]) (auto simp: dao_CredentialsInsert_def)
  qed
qed

text \<open>The three updates: the not-found sentinel they use, and whether a unique violation is mapped.\<close>

lemma sql_update_rows:
  assumes "\<And>r. c_id (f r) = c_id r"
  shows "sql_update i f now d =
    (case update_table i f (credentials d) of
       Inl e \<Rightarrow> (Inl e, d)
     | Inr rs \<Rightarrow> (Inr (map f (filter (\<lambda>r. c_id r = i) (credentials d))), d\<lparr>credentials := rs\<rparr>))"
proof -
  have flt: "filter (\<lambda>r. c_id r = i) (update_row i f rs) = map f (filter (\<lambda>r. c_id r = i) rs)" for rs
    using assms by (induction rs) (auto simp: update_row_def)
  show ?thesis
  proof (cases "update_table i f (credentials d)")
    case (Inl e)
    then show ?thesis by (simp add: sql_update_def)
  next
    case (Inr rs)
    then have "rs = update_row i f (credentials d)" unfolding update_table_Inr by blast
    with Inr flt show ?thesis by (simp add: sql_update_def)
  qed
qed

lemma update_cases:
  assumes f: "\<And>r. c_id (f r) = c_id r" and cl: "opaque_ok classify"
  obtains (infra) e w' where "dao_query E (sql_update i f) classify w = (Fail e, w')"
      "sentinels_of e = {}"
      "db w' = db w \<or> (\<exists>rs. update_table i f (credentials (db w)) = Inr rs \<and>
                          db w' = (db w)\<lparr>credentials := rs\<rparr>)" "\<not> healthy E"
  | (refused) e w' where "dao_query E (sql_update i f) classify w =
        (Fail (Wrap ''execute query'' (classify e)), w')"
      "update_table i f (credentials (db w)) = Inl e" "db w' = db w"
  | (missing) w' where "dao_query E (sql_update i f) classify w =
        (Fail (Wrap ''execute query'' (classify (Sentinel ErrNoRows))), w')"
      "by_id i (credentials (db w)) = None" "db w' = db w"
  | (updated) r rs w' where "dao_query E (sql_update i f) classify w = (Ret (f r), w')"
      "by_id i (credentials (db w)) = Some r" "update_table i f (credentials (db w)) = Inr rs"
      "db w' = (db w)\<lparr>credentials := rs\<rparr>"
proof -
  note q = sql_update_rows [OF f]
  note thesis_cases = that
  show ?thesis
  proof (rule dao_query_cases [OF cl, of E "sql_update i f" w])
    fix e w' assume a: "dao_query E (sql_update i f) classify w = (Fail e, w')" "sentinels_of e = {}"
      "db w' = db w \<or> (\<exists>now. db w' = snd (sql_update i f now (db w)))" "\<not> healthy E"
    then show ?thesis by (intro thesis_cases(1)) (auto simp: q split: sum.splits)
  next
    fix now e d w' assume "sql_update i f now (db w) = (Inl e, d)"
      "dao_query E (sql_update i f) classify w = (Fail (Wrap ''execute query'' (classify e)), w')" "db w' = d"
    then show ?thesis by (intro thesis_cases(2) [of e w']) (auto simp: q split: sum.splits)
  next
    fix now d w' assume a: "sql_update i f now (db w) = (Inr [], d)"
      "dao_query E (sql_update i f) classify w =
        (Fail (Wrap ''execute query'' (classify (Sentinel ErrNoRows))), w')" "db w' = d"
    obtain rs where fl: "filter (\<lambda>r. c_id r = i) (credentials (db w)) = []"
      and u: "update_table i f (credentials (db w)) = Inr rs" and d: "d = (db w)\<lparr>credentials := rs\<rparr>"
      using a(1) by (cases "update_table i f (credentials (db w))") (auto simp: q)
    from fl have "update_row i f (credentials (db w)) = credentials (db w)"
      by (auto simp: update_row_def filter_empty_conv intro!: map_idI)
    with u d have "d = db w" by (simp add: update_table_Inr)
    with a fl show ?thesis by (intro thesis_cases(3) [of w']) (auto simp: by_id_def find_filter)
  next
    fix now r rs d w' assume a: "sql_update i f now (db w) = (Inr (r # rs), d)"
      "dao_query E (sql_update i f) classify w = (Ret r, w')" "db w' = d"
    obtain t p ps where u: "update_table i f (credentials (db w)) = Inr t"
      and p: "filter (\<lambda>r. c_id r = i) (credentials (db w)) = p # ps" "r = f p"
      and d: "d = (db w)\<lparr>credentials := t\<rparr>"
      using a(1) by (cases "update_table i f (credentials (db w))") (auto simp: q)
    with a show ?thesis by (intro thesis_cases(4) [of p w' t]) (auto simp: by_id_def find_filter)
  qed
qed

section \<open>The constraints are an invariant\<close>

definition accounts_ok :: "db \<Rightarrow> bool" where
  "accounts_ok d \<longleftrightarrow> credentials_ok (credentials d)"

lemma read_keeps [keeps_intros]:
  "sql_keeps I (sql_credentialsSelect i)" "sql_keeps I (sql_credentialsSelectByEmail m)"
  "sql_keeps I (sql_credentialsExist m)" "sql_keeps I (sql_credentialsList l k roles)"
  by (auto simp: sql_keeps_def sql_credentialsSelect_def sql_credentialsSelectByEmail_def
      sql_credentialsExist_def sql_credentialsList_def Let_def)

lemma insert_keeps_ok [keeps_intros]: "sql_keeps accounts_ok (sql_credentialsInsert i m p c u r)"
  by (auto simp: sql_keeps_def sql_credentialsInsert_def accounts_ok_def Let_def
      intro: insert_row_ok split: sum.splits)

lemma update_keeps_ok: "(\<And>r. c_id (f r) = c_id r) \<Longrightarrow> sql_keeps accounts_ok (sql_update i f)"
  by (auto simp: sql_keeps_def sql_update_def accounts_ok_def intro: update_table_ok split: sum.splits)

lemma updates_keep_ok [keeps_intros]:
  "sql_keeps accounts_ok (sql_credentialsUpdateEmail m t i)"
  "sql_keeps accounts_ok (sql_credentialsUpdatePassword p t i)"
  "sql_keeps accounts_ok (sql_credentialsUpdateRole r t i)"
  by (simp_all add: sql_credentialsUpdateEmail_def sql_credentialsUpdatePassword_def
      sql_credentialsUpdateRole_def update_keeps_ok)

lemmas dao_credentials_defs =
  dao_CredentialsInsert_def dao_CredentialsExist_def dao_CredentialsSelect_def
  dao_CredentialsSelectByEmail_def dao_CredentialsList_def dao_CredentialsUpdateEmail_def
  dao_CredentialsUpdatePassword_def dao_CredentialsUpdateRole_def

lemma dao_credentials_keep [keeps_intros]:
  "keeps_db accounts_ok P (dao_CredentialsInsert E a)" "keeps_db accounts_ok P (dao_CredentialsExist E b)"
  "keeps_db accounts_ok P (dao_CredentialsSelect E c)"
  "keeps_db accounts_ok P (dao_CredentialsSelectByEmail E d)"
  "keeps_db accounts_ok P (dao_CredentialsList E e)"
  "keeps_db accounts_ok P (dao_CredentialsUpdateEmail E f)"
  "keeps_db accounts_ok P (dao_CredentialsUpdatePassword E g)"
  "keeps_db accounts_ok P (dao_CredentialsUpdateRole E h)"
  unfolding dao_credentials_defs by (intro keeps_intros)+

section \<open>Pages\<close>

lemma set_listing: "set (listing roles rs) = {r \<in> set rs. roles = [] \<or> c_role r \<in> set roles}"
  by (auto simp: listing_def)

lemma length_listing: "length (listing roles rs) = length (filter (\<lambda>r. roles = [] \<or> c_role r \<in> set roles) rs)"
  by (simp add: listing_def)

lemma listing_descending: "sorted_wrt (\<lambda>a b. list_key b \<le> list_key a) (listing roles rs)"
proof -
  have "sorted (map list_key (sort_key list_key xs))" for xs by (rule sorted_sort_key)
  then have "sorted_wrt (\<lambda>a b. list_key a \<le> list_key b) (sort_key list_key xs)" for xs
    by (simp add: sorted_map)
  then show ?thesis by (simp add: listing_def sorted_wrt_rev)
qed

lemma concat_pages: "concat (map (\<lambda>n. take l (drop (n * l) xs)) [0..<m]) = take (m * l) xs"
proof (induction m)
  case (Suc m)
  have "Suc m * l = m * l + l" by simp
  with Suc show ?case by (simp only: upt_Suc_append [OF zero_le] map_append concat_append take_add) simp
qed simp

lemma insort_key_map:
  "(\<And>x. k (g x) = k x) \<Longrightarrow> insort_key k (g x) (map g xs) = map g (insort_key k x xs)"
  by (induction xs) auto

lemma sort_key_map: "(\<And>x. k (g x) = k x) \<Longrightarrow> sort_key k (map g xs) = map g (sort_key k xs)"
  by (induction xs) (simp_all add: insort_key_map)

lemma listing_update:
  assumes "\<And>r. c_id (f r) = c_id r" "\<And>r. c_created_at (f r) = c_created_at r"
  shows "map c_id (listing [] (update_row i f rs)) = map c_id (listing [] rs)"
proof -
  let ?g = "\<lambda>r. if c_id r = i then f r else r"
  have "sort_key list_key (map ?g rs) = map ?g (sort_key list_key rs)"
    by (rule sort_key_map) (simp add: list_key_def assms)
  then show ?thesis
    using assms(1) by (auto simp: listing_def update_row_def rev_map)
qed

lemma list_healthy:
  assumes "healthy E" "0 \<le> cl_Limit rq" "0 \<le> cl_Offset rq"
  shows "fst (dao_CredentialsList E rq w) = Ret (map public_row
    (let rest = drop (nat (cl_Offset rq)) (listing (cl_Roles rq) (credentials (db w))) in
     if cl_Limit rq = 0 then rest else take (nat (cl_Limit rq)) rest))"
  using assms
  by (simp add: healthy_def dao_CredentialsList_def prog_simps get_context_run run_stmt_def
      sql_credentialsList_def Let_def)

section \<open>The other table and the sentinels\<close>

lemma account_statements_keep_codes [keeps_intros]:
  "sql_keeps (\<lambda>d. P (short_codes d)) (sql_credentialsSelect i)"
  "sql_keeps (\<lambda>d. P (short_codes d)) (sql_credentialsSelectByEmail m)"
  "sql_keeps (\<lambda>d. P (short_codes d)) (sql_credentialsExist m)"
  "sql_keeps (\<lambda>d. P (short_codes d)) (sql_credentialsList l k roles)"
  "sql_keeps (\<lambda>d. P (short_codes d)) (sql_credentialsInsert i m p c u r)"
  "sql_keeps (\<lambda>d. P (short_codes d)) (sql_update i f)"
  by (auto simp: sql_keeps_def sql_credentialsSelect_def sql_credentialsSelectByEmail_def
      sql_credentialsExist_def sql_credentialsList_def sql_credentialsInsert_def sql_update_def
      Let_def split: sum.splits)

lemma dao_accounts_keep_codes [keeps_intros]:
  "keeps_db (\<lambda>d. J (short_codes d)) P (dao_CredentialsInsert E a)"
  "keeps_db (\<lambda>d. J (short_codes d)) P (dao_CredentialsExist E b)"
  "keeps_db (\<lambda>d. J (short_codes d)) P (dao_CredentialsSelect E c)"
  "keeps_db (\<lambda>d. J (short_codes d)) P (dao_CredentialsSelectByEmail E d)"
  "keeps_db (\<lambda>d. J (short_codes d)) P (dao_CredentialsList E e)"
  "keeps_db (\<lambda>d. J (short_codes d)) P (dao_CredentialsUpdateEmail E f)"
  "keeps_db (\<lambda>d. J (short_codes d)) P (dao_CredentialsUpdatePassword E g)"
  "keeps_db (\<lambda>d. J (short_codes d)) P (dao_CredentialsUpdateRole E h)"
  unfolding dao_credentials_defs sql_credentialsUpdateEmail_def sql_credentialsUpdatePassword_def
    sql_credentialsUpdateRole_def
  by (intro keeps_intros)+

lemma update_error_sentinels:
  assumes "sql_update i f now d = (Inl e, d')"
  shows "sentinels_of e = {}" "errors_as_pg e = Some c \<Longrightarrow> c = ''23505'' \<or> c = ''23514''"
  using assms
  by (auto simp: sql_update_def update_table_def Let_def unique_violation_def check_violation_def
      split: if_splits sum.splits)

lemma insert_error_sentinels: "sql_credentialsInsert i m p c u r now d = (Inl e, d') \<Longrightarrow> sentinels_of e = {}"
  by (auto simp: sql_credentialsInsert_def insert_row_def Let_def unique_violation_def
      check_violation_def split: if_splits)

lemma raises_accounts:
  "raises P {ErrNoRows, ErrCredentialsInsertAlreadyExists} (dao_CredentialsInsert E a)"
  "raises P {ErrNoRows, ErrCredentialsSelectNotFound} (dao_CredentialsSelect E c)"
  "raises P {ErrNoRows, ErrCredentialsSelectByEmailNotFound} (dao_CredentialsSelectByEmail E d)"
  "raises P {ErrNoRows, ErrCredentialsUpdateEmailAlreadyExists, ErrCredentialsUpdateEmailNotFound}
     (dao_CredentialsUpdateEmail E f)"
  "raises P {ErrNoRows, ErrCredentialsUpdatePasswordNotFound} (dao_CredentialsUpdatePassword E g)"
  "raises P {ErrNoRows, ErrCredentialsUpdateRoleNotFound} (dao_CredentialsUpdateRole E h)"
  unfolding dao_CredentialsInsert_def dao_CredentialsSelect_def dao_CredentialsSelectByEmail_def
    dao_CredentialsUpdateEmail_def dao_CredentialsUpdatePassword_def dao_CredentialsUpdateRole_def
    sql_credentialsUpdateEmail_def sql_credentialsUpdatePassword_def sql_credentialsUpdateRole_def
  by (rule raises_dao_query;
      auto simp: opaque_ok_def join_no_rows_def join_unique_def sql_credentialsSelect_def
        sql_credentialsSelectByEmail_def dest: update_error_sentinels(1) insert_error_sentinels
        split: if_splits)+

lemma panic_free_accounts [panic_intros]:
  "panic_free (dao_CredentialsInsert E a)" "panic_free (dao_CredentialsExist E b)"
  "panic_free (dao_CredentialsSelect E c)" "panic_free (dao_CredentialsSelectByEmail E d)"
  "panic_free (dao_CredentialsUpdateEmail E f)" "panic_free (dao_CredentialsUpdatePassword E g)"
  "panic_free (dao_CredentialsUpdateRole E h)"
  unfolding dao_credentials_defs by (intro panic_intros)+

lemma frames_accounts [frame_intros]:
  "frames (dao_CredentialsInsert E a)" "frames (dao_CredentialsExist E b)"
  "frames (dao_CredentialsSelect E c)" "frames (dao_CredentialsSelectByEmail E d)"
  "frames (dao_CredentialsList E e)" "frames (dao_CredentialsUpdateEmail E f)"
  "frames (dao_CredentialsUpdatePassword E g)" "frames (dao_CredentialsUpdateRole E h)"
  unfolding dao_credentials_defs by (intro frame_intros)+

lemmas raises_accounts_sub [raises_intros] = raises_mono [OF raises_accounts(1)]
  raises_mono [OF raises_accounts(2)] raises_mono [OF raises_accounts(3)]
  raises_mono [OF raises_accounts(4)] raises_mono [OF raises_accounts(5)] raises_mono [OF raises_accounts(6)]

lemmas accounts_flag [keeps_intros] = frames_accounts [THEN frames_flag]

end
