(* ===== verification/Config.thy ===== *)
theory Config
  imports ResolveDeps DaoCredentials
begin

text \<open>
  \<open>internal/config\<close>: roles and permissions, the languages, the short-code settings and the link
  settings, with the defaults of the two embedded YAML files; and the resolution of the role
  hierarchy that \<open>pkg/go\<close> performs with \<open>lib.ResolveDependants\<close>.
\<close>

section \<open>Roles and permissions\<close>

record Role =
  Inherits :: "string list"
  RolePermissions :: "string list"
  RolePriority :: int

text \<open>\<open>Permissions.Roles\<close>, a map by role name.\<close>

record Permissions =
  PermRoles :: "(string, Role) go_map"

definition RoleAnon :: string where "RoleAnon = ''auth:anon''"
definition RoleUser :: string where "RoleUser = ''auth:user''"
definition RoleAdmin :: string where "RoleAdmin = ''auth:admin''"
definition RoleSuperAdmin :: string where "RoleSuperAdmin = ''auth:superadmin''"

lemmas role_names = RoleAnon_def RoleUser_def RoleAdmin_def RoleSuperAdmin_def

definition Priority :: "Permissions \<Rightarrow> string \<Rightarrow> int outcome" where
  "Priority p role =
     (case map_of (PermRoles p) role of
        None \<Rightarrow> Fail (Wrap ''unknown role'' (Sentinel ErrUnknownRole))
      | Some r \<Rightarrow> Ret (RolePriority r))"

text \<open>\<open>permissions.config.yaml\<close>\<close>

definition PermissionsConfigDefault :: Permissions where
  "PermissionsConfigDefault = \<lparr>PermRoles =
    [(''auth:anon'', \<lparr>Inherits = [], RolePermissions =
        [''credentials:create'', ''credentials:email:patch'', ''credentials:password:reset'',
         ''shortCode:password:reset'', ''shortCode:register''], RolePriority = 0\<rparr>),
     (''auth:user'', \<lparr>Inherits = [''auth:anon''], RolePermissions =
        [''credentials:password:patch'', ''shortCode:email:update''], RolePriority = 1\<rparr>),
     (''auth:admin'', \<lparr>Inherits = [''auth:user''], RolePermissions =
        [''credentials:get'', ''credentials:exist'', ''credentials:list''], RolePriority = 2\<rparr>),
     (''auth:superadmin'', \<lparr>Inherits = [''auth:admin''], RolePermissions =
        [''credentials:role:patch''], RolePriority = 3\<rparr>)]\<rparr>"

text \<open>\<open>NewAuthHandler\<close>: the permissions and the inheritance of the roles, resolved. \<open>lo.Must\<close>
  panics on an error.\<close>

definition granted_permissions ::
    "(nat \<Rightarrow> string list \<Rightarrow> string list) \<Rightarrow> Permissions \<Rightarrow> (string \<Rightarrow> string list option) outcome" where
  "granted_permissions order p =
     (case ResolveDependants order
         (map (\<lambda>(name, role). (name, RolePermissions role)) (PermRoles p))
         (map (\<lambda>(name, role). (name, Inherits role)) (PermRoles p)) of
        Inl e \<Rightarrow> Panic ''resolve permissions''
      | Inr r \<Rightarrow> Ret r)"

section \<open>Languages, short codes, links\<close>

definition KnownLangs :: "string list" where
  "KnownLangs = [''fr'', ''en'']"

text \<open>\<open>config.ShortCodes\<close>: the size of a code and the lifetime by usage; a missing usage reads as
  the zero duration.\<close>

record ShortCodes =
  Size :: int
  Usages :: "(string, time) go_map"

definition usage_ttl :: "ShortCodes \<Rightarrow> string \<Rightarrow> time" where
  "usage_ttl cfg usage = (case map_of (Usages cfg) usage of None \<Rightarrow> 0 | Some ttl \<Rightarrow> ttl)"

text \<open>\<open>short_codes.config.yaml\<close>\<close>

definition ShortCodesPresetDefault :: ShortCodes where
  "ShortCodesPresetDefault = \<lparr>Size = 12, Usages =
     [(''register'', 48 * hour), (''validateEmail'', 48 * hour), (''resetPassword'', 2 * hour)]\<rparr>"

record SmtpUrls =
  UpdateEmail :: string
  UpdatePassword :: string
  Register :: string

section \<open>The default configuration\<close>

lemma role_checks_are_the_roles: "role_check_list = map fst (PermRoles PermissionsConfigDefault)"
  by (simp add: role_check_list_def PermissionsConfigDefault_def)

lemma Priority_default:
  "Priority PermissionsConfigDefault RoleAnon = Ret 0"
  "Priority PermissionsConfigDefault RoleUser = Ret 1"
  "Priority PermissionsConfigDefault RoleAdmin = Ret 2"
  "Priority PermissionsConfigDefault RoleSuperAdmin = Ret 3"
  by (simp_all add: Priority_def PermissionsConfigDefault_def role_names)

lemma Priority_Fail: "Priority p role = Fail e \<Longrightarrow> sentinels_of e = {ErrUnknownRole}"
  by (auto simp: Priority_def split: option.splits)

lemma Priority_total: "(\<exists>n. Priority p r = Ret n) \<or> (\<exists>e. Priority p r = Fail e)"
  by (auto simp: Priority_def split: option.split)

lemma known_role_priority:
  assumes "r \<in> set role_check_list"
  shows "\<exists>n. Priority PermissionsConfigDefault r = Ret n \<and> 0 \<le> n \<and> n \<le> 3"
  using assms by (auto simp: role_check_list_def Priority_def PermissionsConfigDefault_def)

lemma priority_injective:
  assumes "Priority PermissionsConfigDefault r = Ret n" "Priority PermissionsConfigDefault s = Ret n"
  shows "r = s"
  using assms
  by (auto simp: Priority_def PermissionsConfigDefault_def split: if_splits option.splits)

text \<open>The chain of the four default roles is resolvable, so the equations of the flattened map
  give the granted permissions.\<close>

definition default_mods :: "(string, string list) go_map" where
  "default_mods = map (\<lambda>(name, role). (name, RolePermissions role)) (PermRoles PermissionsConfigDefault)"

definition default_deps :: "(string, string list) go_map" where
  "default_deps = map (\<lambda>(name, role). (name, Inherits role)) (PermRoles PermissionsConfigDefault)"

lemma default_known: "known default_mods default_deps = set role_check_list"
  by (auto simp: known_def default_mods_def default_deps_def PermissionsConfigDefault_def role_check_list_def)

lemma default_dep_set:
  "dep_set default_deps ''auth:anon'' = {}"
  "dep_set default_deps ''auth:user'' = {''auth:anon''}"
  "dep_set default_deps ''auth:admin'' = {''auth:user''}"
  "dep_set default_deps ''auth:superadmin'' = {''auth:admin''}"
  by (simp_all add: dep_set_def entry_def default_deps_def PermissionsConfigDefault_def)

lemma default_resolvable:
  assumes "r \<in> set role_check_list"
  shows "resolvable (set role_check_list) (dep_set default_deps) r"
proof -
  let ?R = "resolvable (set role_check_list) (dep_set default_deps)"
  have roles: "''auth:anon'' \<in> set role_check_list" "''auth:user'' \<in> set role_check_list"
    "''auth:admin'' \<in> set role_check_list" "''auth:superadmin'' \<in> set role_check_list"
    by (simp_all add: role_check_list_def)
  have a: "?R ''auth:anon''" by (rule resolvable.intros) (use roles in \<open>simp_all add: default_dep_set\<close>)
  have u: "?R ''auth:user''" by (rule resolvable.intros) (use roles a in \<open>simp_all add: default_dep_set\<close>)
  have d: "?R ''auth:admin''" by (rule resolvable.intros) (use roles u in \<open>simp_all add: default_dep_set\<close>)
  have s: "?R ''auth:superadmin''" by (rule resolvable.intros) (use roles d in \<open>simp_all add: default_dep_set\<close>)
  have "r = ''auth:anon'' \<or> r = ''auth:user'' \<or> r = ''auth:admin'' \<or> r = ''auth:superadmin''"
    using assms by (simp add: role_check_list_def)
  with a u d s show ?thesis by blast
qed

lemma default_granted:
  assumes "iteration_order order"
  obtains r where "granted_permissions order PermissionsConfigDefault = Ret r"
    "flattened default_mods default_deps (set role_check_list) r"
proof -
  have "distinct (map fst default_deps)"
    by (simp add: default_deps_def PermissionsConfigDefault_def)
  with assms show thesis
  proof (cases rule: ResolveDependants_cases [of order default_deps default_mods])
    case (circular e)
    then show ?thesis using default_resolvable by (simp add: default_known)
  next
    case (resolved r)
    then show ?thesis
      by (intro that [of r])
        (simp_all only: default_known, simp add: granted_permissions_def default_mods_def default_deps_def)
  qed
qed

section \<open>The permissions of the default roles\<close>

text \<open>The priority of the role that introduces a permission.\<close>

definition granted_from :: "string \<Rightarrow> int option" where
  "granted_from p =
     map_option (\<lambda>(name, role). RolePriority role)
       (find (\<lambda>(name, role). p \<in> set (RolePermissions role)) (PermRoles PermissionsConfigDefault))"

lemma default_granted_lists:
  assumes "flattened default_mods default_deps (set role_check_list) r"
  shows "r ''auth:anon'' = Some (entry default_mods ''auth:anon'')"
    "r ''auth:user'' = Some (entry default_mods ''auth:user'' @ entry default_mods ''auth:anon'')"
    "r ''auth:admin'' = Some (entry default_mods ''auth:admin'' @ entry default_mods ''auth:user''
       @ entry default_mods ''auth:anon'')"
    "r ''auth:superadmin'' = Some (entry default_mods ''auth:superadmin'' @ entry default_mods ''auth:admin''
       @ entry default_mods ''auth:user'' @ entry default_mods ''auth:anon'')"
proof -
  have f: "m \<in> set role_check_list \<Longrightarrow> r m = Some (entry default_mods m @ gathered r (entry default_deps m))" for m
    using assms by (simp add: flattened_def)
  have d: "entry default_deps ''auth:anon'' = []" "entry default_deps ''auth:user'' = [''auth:anon'']"
    "entry default_deps ''auth:admin'' = [''auth:user'']"
    "entry default_deps ''auth:superadmin'' = [''auth:admin'']"
    by (simp_all add: entry_def default_deps_def PermissionsConfigDefault_def)
  have k: "''auth:anon'' \<in> set role_check_list" "''auth:user'' \<in> set role_check_list"
    "''auth:admin'' \<in> set role_check_list" "''auth:superadmin'' \<in> set role_check_list"
    by (simp_all add: role_check_list_def)
  show a: "r ''auth:anon'' = Some (entry default_mods ''auth:anon'')" using f [OF k(1)] d by simp
  show b: "r ''auth:user'' = Some (entry default_mods ''auth:user'' @ entry default_mods ''auth:anon'')"
    using f [OF k(2)] d a by (simp add: looked_up_def)
  show c: "r ''auth:admin'' = Some (entry default_mods ''auth:admin'' @ entry default_mods ''auth:user''
       @ entry default_mods ''auth:anon'')"
    using f [OF k(3)] d b by (simp add: looked_up_def)
  show "r ''auth:superadmin'' = Some (entry default_mods ''auth:superadmin'' @ entry default_mods ''auth:admin''
       @ entry default_mods ''auth:user'' @ entry default_mods ''auth:anon'')"
    using f [OF k(4)] d c by (simp add: looked_up_def)
qed

end
