(* ===== verification/Validate.thy ===== *)
theory Validate
  imports Config
begin

text \<open>
  \<open>internal/core/validate.go\<close>: the struct validation every core operation starts with. A struct is
  the list of its fields, each with the tags it carries; the three tags registered at package init
  are resolved to the functions of the package, the tags of the validator library are a parameter
  with the contract of its documentation.
\<close>

section \<open>The registered tags\<close>

definition ShortCodeUsageValidateEmail :: string where
  "ShortCodeUsageValidateEmail = ''validateEmail''"

definition ShortCodeUsageResetPassword :: string where
  "ShortCodeUsageResetPassword = ''resetPassword''"

definition ShortCodeUsageRegister :: string where
  "ShortCodeUsageRegister = ''register''"

definition KnownShortCodeUsages :: "string list" where
  "KnownShortCodeUsages =
     [ShortCodeUsageValidateEmail, ShortCodeUsageResetPassword, ShortCodeUsageRegister]"

lemmas usage_names = ShortCodeUsageValidateEmail_def ShortCodeUsageResetPassword_def
  ShortCodeUsageRegister_def

text \<open>\<open>fl.Field().String()\<close> of a field that is not a string is a description of its type.\<close>

definition field_string :: "field \<Rightarrow> string" where
  "field_string f = (case f of FStr s \<Rightarrow> s | FNum n \<Rightarrow> ''<int Value>'' | FLen n \<Rightarrow> ''<slice Value>'')"

definition ValidateLang :: "field \<Rightarrow> bool" where
  "ValidateLang f = list_ex (\<lambda>lang. field_string f = lang) KnownLangs"

definition ValidateCredentialsRole :: "field \<Rightarrow> bool" where
  "ValidateCredentialsRole f =
     list_ex (\<lambda>role. field_string f = role) (map fst (PermRoles PermissionsConfigDefault))"

definition ValidateShortCodeUsage :: "field \<Rightarrow> bool" where
  "ValidateShortCodeUsage f = list_ex (\<lambda>usage. field_string f = usage) KnownShortCodeUsages"

section \<open>Structs\<close>

definition tag_holds :: "ext \<Rightarrow> tag \<Rightarrow> field \<Rightarrow> bool" where
  "tag_holds E t f =
     (case t of
        TagLangs \<Rightarrow> ValidateLang f
      | TagRole \<Rightarrow> ValidateCredentialsRole f
      | TagUsage \<Rightarrow> ValidateShortCodeUsage f
      | _ \<Rightarrow> x_tag E t f)"

type_synonym struct = "(field \<times> tag list) list"

definition struct_valid :: "ext \<Rightarrow> struct \<Rightarrow> bool" where
  "struct_valid E fs = list_all (\<lambda>(f, ts). list_all (\<lambda>t. tag_holds E t f) ts) fs"

text \<open>\<open>validate.Struct(request)\<close> with the error every entry point makes of a failure.\<close>

definition invalid_request :: go_error where
  "invalid_request = Join [Opaque ''validation failed'', Sentinel ErrInvalidRequest]"

definition validate :: "ext \<Rightarrow> struct \<Rightarrow> unit io" where
  "validate E fs = (if struct_valid E fs then ret () else fail invalid_request)"

section \<open>The contract of the library's tags\<close>

text \<open>Lengths of strings are counted in runes: the bytes that do not continue a sequence.\<close>

definition rune_count :: "string \<Rightarrow> nat" where
  "rune_count s = length (filter (\<lambda>c. of_char c div 64 \<noteq> (2 :: nat)) s)"

definition validator_contract :: "ext \<Rightarrow> bool" where
  "validator_contract E \<longleftrightarrow>
     (\<forall>s. x_tag E Required (FStr s) \<longleftrightarrow> s \<noteq> '''') \<and>
     (\<forall>n. x_tag E Required (FNum n) \<longleftrightarrow> n \<noteq> 0) \<and>
     (\<forall>s n. x_tag E (Min n) (FStr s) \<longleftrightarrow> n \<le> int (rune_count s)) \<and>
     (\<forall>s n. x_tag E (Max n) (FStr s) \<longleftrightarrow> int (rune_count s) \<le> n) \<and>
     (\<forall>m n. x_tag E (Min n) (FNum m) \<longleftrightarrow> n \<le> m) \<and>
     (\<forall>m n. x_tag E (Max n) (FNum m) \<longleftrightarrow> m \<le> n) \<and>
     (\<forall>k n. x_tag E (Min n) (FLen k) \<longleftrightarrow> n \<le> int k) \<and>
     (\<forall>k n. x_tag E (Max n) (FLen k) \<longleftrightarrow> int k \<le> n) \<and>
     (\<forall>s v. x_tag E (RequiredWithout v) (FStr s) \<longleftrightarrow> v \<noteq> '''' \<or> s \<noteq> '''')"

lemma tag_simps:
  "tag_holds E TagLangs (FStr s) \<longleftrightarrow> s \<in> set KnownLangs"
  "tag_holds E TagRole (FStr s) \<longleftrightarrow> s \<in> set role_check_list"
  "tag_holds E TagUsage (FStr s) \<longleftrightarrow> s \<in> set KnownShortCodeUsages"
  by (auto simp: tag_holds_def field_string_def ValidateLang_def ValidateCredentialsRole_def
      ValidateShortCodeUsage_def role_checks_are_the_roles list_ex_iff)

lemma builtin_tags:
  "tag_holds E Required f = x_tag E Required f" "tag_holds E Email f = x_tag E Email f"
  "tag_holds E (Min n) f = x_tag E (Min n) f" "tag_holds E (Max n) f = x_tag E (Max n) f"
  "tag_holds E (RequiredWithout v) f = x_tag E (RequiredWithout v) f"
  by (simp_all add: tag_holds_def)

lemma contract_tags:
  assumes "validator_contract E"
  shows "tag_holds E Required (FStr s) \<longleftrightarrow> s \<noteq> ''''"
    "tag_holds E Required (FNum m) \<longleftrightarrow> m \<noteq> 0"
    "tag_holds E (Min n) (FStr s) \<longleftrightarrow> n \<le> int (rune_count s)"
    "tag_holds E (Max n) (FStr s) \<longleftrightarrow> int (rune_count s) \<le> n"
    "tag_holds E (Min n) (FNum m) \<longleftrightarrow> n \<le> m"
    "tag_holds E (Max n) (FNum m) \<longleftrightarrow> m \<le> n"
    "tag_holds E (Min n) (FLen k) \<longleftrightarrow> n \<le> int k"
    "tag_holds E (Max n) (FLen k) \<longleftrightarrow> int k \<le> n"
    "tag_holds E (RequiredWithout v) (FStr s) \<longleftrightarrow> v \<noteq> '''' \<or> s \<noteq> ''''"
  unfolding builtin_tags using assms by (simp_all add: validator_contract_def)

lemma struct_valid_simps [simp]:
  "struct_valid E []"
  "struct_valid E ((f, ts) # fs) \<longleftrightarrow> (\<forall>t\<in>set ts. tag_holds E t f) \<and> struct_valid E fs"
  by (simp_all add: struct_valid_def list_all_iff)

lemma validate_run:
  "validate E fs w = (if struct_valid E fs then Ret () else Fail invalid_request, w)"
  by (simp add: validate_def)

lemma sentinels_invalid [simp]: "sentinels_of invalid_request = {ErrInvalidRequest}"
  by (simp add: invalid_request_def)

lemma validate_rules [keeps_intros, frame_intros, panic_intros]:
  "keeps I (validate E fs)" "frames (validate E fs)" "panic_free (validate E fs)"
  unfolding validate_def by (intro keeps_intros frame_intros panic_intros)+

lemma raises_validate: "raises P {ErrInvalidRequest} (validate E fs)"
  unfolding validate_def by (intro raises_intros) simp

lemma validate_Ret: "validate E fs w = (Ret u, w') \<longleftrightarrow> struct_valid E fs \<and> w' = w"
  by (auto simp: validate_run)

lemma unknown_usage: "usage \<in> set KnownShortCodeUsages \<longleftrightarrow>
    usage = ''validateEmail'' \<or> usage = ''resetPassword'' \<or> usage = ''register''"
  by (simp add: KnownShortCodeUsages_def usage_names)

lemmas raises_validate_sub [raises_intros] = raises_mono [OF raises_validate]

end
