(* ===== verification/RandURL.thy ===== *)
theory RandURL
  imports World
begin

text \<open>
  \<open>internal/lib/rand.go\<close>: random strings over an alphabet of 62 URL-safe characters, one draw of
  \<open>rand.Int\<close> per character. The draw is a parameter; its contract is what \<open>crypto/rand\<close> documents, a
  value from zero inclusive to the bound exclusive.
\<close>

definition URLCharList :: string where
  "URLCharList = ''abcdefghijklmnopqrstuvwxyzABCDEFGHIJKLMNOPQRSTUVWXYZ0123456789''"

definition urlCharListLen :: int where
  "urlCharListLen = int (length URLCharList)"

definition rand_contract :: "ext \<Rightarrow> bool" where
  "rand_contract E \<longleftrightarrow> (\<forall>t n v. 0 < n \<longrightarrow> x_rand_int E t n = Inr v \<longrightarrow> 0 \<le> v \<and> v < n)"

definition draw_char :: "ext \<Rightarrow> char io" where
  "draw_char E =
     andThen (wrap ''generate random URL'' (ask_err (\<lambda>t. x_rand_int E t urlCharListLen))) (\<lambda>num.
     if num < 0 \<or> urlCharListLen \<le> num then lift (Panic ''index out of range'')
     else ret (URLCharList ! nat num))"

primrec random_chars :: "ext \<Rightarrow> nat \<Rightarrow> string io" where
  "random_chars E 0 = ret ''''"
| "random_chars E (Suc n) =
     andThen (draw_char E) (\<lambda>c. andThen (random_chars E n) (\<lambda>cs. ret (c # cs)))"

text \<open>\<open>make([]rune, length)\<close> panics on a negative length.\<close>

definition NewRandomURLString :: "ext \<Rightarrow> int \<Rightarrow> string io" where
  "NewRandomURLString E len =
     (if len < 0 then lift (Panic ''makeslice: len out of range'') else random_chars E (nat len))"

section \<open>The alphabet\<close>

lemma url_alphabet_facts: "length URLCharList = 62" "distinct URLCharList" "urlCharListLen = 62"
  by (simp_all add: URLCharList_def urlCharListLen_def)

section \<open>The draws determine the string\<close>

lemma draw_char_run:
  assumes "rand_contract E"
  shows "draw_char E w =
    (case x_rand_int E (tick w) urlCharListLen of
       Inl m \<Rightarrow> Fail (Wrap ''generate random URL'' (Opaque m))
     | Inr v \<Rightarrow> Ret (URLCharList ! nat v), w\<lparr>tick := Suc (tick w)\<rparr>)"
proof (cases "x_rand_int E (tick w) urlCharListLen")
  case (Inr v)
  then have "0 \<le> v \<and> v < urlCharListLen"
    using assms [unfolded rand_contract_def, rule_format, of urlCharListLen "tick w" v] url_alphabet_facts(3)
    by simp
  with Inr show ?thesis by (simp add: draw_char_def prog_simps ask_err_run)
qed (simp add: draw_char_def prog_simps ask_err_run)

definition drawn :: "ext \<Rightarrow> nat \<Rightarrow> nat \<Rightarrow> int option" where
  "drawn E t k = (case x_rand_int E (t + k) urlCharListLen of Inl m \<Rightarrow> None | Inr v \<Rightarrow> Some v)"

lemma random_chars_Ret:
  assumes "rand_contract E" "\<forall>k<n. drawn E (tick w) k \<noteq> None"
  shows "random_chars E n w =
    (Ret (map (\<lambda>k. URLCharList ! nat (the (drawn E (tick w) k))) [0..<n]), w\<lparr>tick := tick w + n\<rparr>)"
  using assms(2)
proof (induction n arbitrary: w)
  case (Suc n)
  let ?w = "w\<lparr>tick := Suc (tick w)\<rparr>"
  have "\<forall>k<n. drawn E (tick ?w) k \<noteq> None"
    using Suc.prems by (auto simp: drawn_def dest: spec [of _ "Suc _"])
  note IH = Suc.IH [OF this]
  obtain v where v: "x_rand_int E (tick w) urlCharListLen = Inr v"
    using spec [OF Suc.prems, of 0] by (auto simp: drawn_def split: sum.splits)
  have "map (\<lambda>k. URLCharList ! nat (the (drawn E (tick w) k))) [0..<Suc n] =
      URLCharList ! nat v # map (\<lambda>k. URLCharList ! nat (the (drawn E (Suc (tick w)) k))) [0..<n]"
    unfolding map_upt_Suc using v by (simp add: drawn_def)
  then show ?case
    using IH v by (simp add: andThen_def draw_char_run [OF assms(1)])
qed simp

lemma random_chars_fails:
  assumes "rand_contract E" "k < n" "drawn E (tick w) k = None"
  shows "\<exists>m w'. random_chars E n w = (Fail (Wrap ''generate random URL'' (Opaque m)), w')"
  using assms(2,3)
proof (induction n arbitrary: w k)
  case (Suc n)
  show ?case
  proof (cases "x_rand_int E (tick w) urlCharListLen")
    case (Inl m)
    then show ?thesis by (simp add: andThen_def draw_char_run [OF assms(1)])
  next
    case (Inr v)
    with Suc.prems obtain j where "k = Suc j" by (cases k) (auto simp: drawn_def)
    with Suc.prems Suc.IH [of j "w\<lparr>tick := Suc (tick w)\<rparr>"] Inr show ?thesis
      by (auto simp: andThen_def draw_char_run [OF assms(1)] drawn_def)
  qed
qed simp

lemma random_chars_length:
  "rand_contract E \<Longrightarrow> random_chars E n w = (Ret s, w') \<Longrightarrow>
     length s = n \<and> set s \<subseteq> set URLCharList \<and> db w' = db w"
proof (induction n arbitrary: w s)
  case (Suc n)
  from Suc.prems(2) obtain c w1 cs where c: "draw_char E w = (Ret c, w1)"
    and cs: "random_chars E n w1 = (Ret cs, w')" "s = c # cs"
    by (auto simp: run_Ret)
  from c Suc.prems(1) have "c \<in> set URLCharList \<and> db w1 = db w"
    by (auto simp: draw_char_run rand_contract_def urlCharListLen_def split: sum.splits)
      (metis nat_less_iff nth_mem of_nat_0_less_iff length_greater_0_conv list.size(3) not_less_zero
        url_alphabet_facts(1) zero_less_numeral)
  with Suc.IH [OF Suc.prems(1) cs(1)] cs(2) show ?case by auto
qed simp

lemma frames_random [frame_intros]: "frames (draw_char E)" "frames (random_chars E n)"
  "frames (NewRandomURLString E l)"
proof -
  show c: "frames (draw_char E)" unfolding draw_char_def by (intro frame_intros)
  have n: "frames (random_chars E n)" for n
    by (induction n) (simp_all only: random_chars.simps, (intro frame_intros c)+)
  then show "frames (random_chars E n)" by this
  show "frames (NewRandomURLString E l)"
    unfolding NewRandomURLString_def by (intro frame_intros n)
qed

lemma keeps_random [keeps_intros]: "keeps_db I P (draw_char E)" "keeps_db I P (random_chars E n)"
  "keeps_db I P (NewRandomURLString E l)"
proof -
  show c: "keeps_db I P (draw_char E)" unfolding draw_char_def by (intro keeps_intros)
  have n: "keeps_db I P (random_chars E n)" for n
    by (induction n) (simp_all only: random_chars.simps, (intro keeps_intros c)+)
  then show "keeps_db I P (random_chars E n)" by this
  show "keeps_db I P (NewRandomURLString E l)"
    unfolding NewRandomURLString_def by (intro keeps_intros n)
qed

end
