(* ===== verification/Passwords.thy ===== *)
theory Passwords
  imports RandURL
begin

text \<open>
  Key derivations as operations of the running service. The password functions of theory
  \<open>Argon2\<close> are run against the environment, and each derivation is recorded with its cost
  parameters in the world's \<open>work\<close>: what an observer of response times can measure.
\<close>

definition derivation :: "Argon2Params \<Rightarrow> argon_call" where
  "derivation p = \<lparr>ac_time = Iterations p, ac_memory = Memory p, ac_threads = Parallelism p,
     ac_keylen = KeyLength p\<rparr>"

text \<open>The parameters \<open>GenerateArgon2\<close> derives with.\<close>

definition resolved_params :: "ext \<Rightarrow> Argon2Params" where
  "resolved_params E = Argon2ParamsDefault\<lparr>Parallelism :=
     resolve_parallelism (x_num_cpu E) (Parallelism Argon2ParamsDefault)\<rparr>"

text \<open>\<open>lib.GenerateArgon2(password, lib.Argon2ParamsDefault)\<close>\<close>

definition io_GenerateArgon2 :: "ext \<Rightarrow> string \<Rightarrow> string io" where
  "io_GenerateArgon2 E password = (\<lambda>w. let t = tick w in
     (GenerateArgon2 (x_idkey E) (x_argon_version E) (x_num_cpu E) (x_rand_read E t) password
        Argon2ParamsDefault,
      w\<lparr>tick := Suc t, work := work w @
         (case x_rand_read E t (SaltLength Argon2ParamsDefault) of
            Inl m \<Rightarrow> [] | Inr salt \<Rightarrow> [derivation (resolved_params E)])\<rparr>))"

text \<open>\<open>lib.CompareArgon2\<close>: a hash that does not decode costs no derivation.\<close>

definition compare_work :: "ext \<Rightarrow> string \<Rightarrow> argon_call list" where
  "compare_work E encodedHash =
     (case decodeHash (x_argon_version E) encodedHash of
        Ret (p, salt, hash) \<Rightarrow> [derivation p] | _ \<Rightarrow> [])"

definition io_CompareArgon2 :: "ext \<Rightarrow> string \<Rightarrow> string \<Rightarrow> unit io" where
  "io_CompareArgon2 E password encodedHash = (\<lambda>w.
     (CompareArgon2 (x_idkey E) (x_argon_version E) password encodedHash,
      w\<lparr>work := work w @ compare_work E encodedHash\<rparr>))"

definition dummy_hash :: "ext \<Rightarrow> string outcome" where
  "dummy_hash E = dummyArgon2Hash (x_idkey E) (x_argon_version E) (x_num_cpu E) (x_init_salt E)"

text \<open>\<open>lib.DummyCompareArgon2\<close>: the comparison's error is discarded, its panic is not.\<close>

definition DummyCompareArgon2 :: "ext \<Rightarrow> string \<Rightarrow> unit io" where
  "DummyCompareArgon2 E password =
     (case dummy_hash E of
        Ret h \<Rightarrow> onError (io_CompareArgon2 E password h) (\<lambda>_. ret ())
      | Fail e \<Rightarrow> lift (Panic ''init'')
      | Panic p \<Rightarrow> lift (Panic p))"

section \<open>Contracts of the password parameters\<close>

text \<open>What \<open>argon2\<close>, \<open>crypto/rand\<close> and \<open>runtime\<close> document: keys of the asked length, the version
  constant 19, salts of the asked length, at least one CPU.\<close>

definition password_contract :: "ext \<Rightarrow> bool" where
  "password_contract E \<longleftrightarrow>
     idkey_contract (x_idkey E) \<and> x_argon_version E = 19 \<and> 1 \<le> x_num_cpu E \<and>
     (\<forall>t n s. x_rand_read E t n = Inr s \<longrightarrow> length s = unat n) \<and>
     (\<exists>s. x_init_salt E (SaltLength Argon2ParamsDefault) = Inr s \<and>
          length s = unat (SaltLength Argon2ParamsDefault))"

section \<open>Effects\<close>

lemma password_db [simp]:
  "db (snd (io_GenerateArgon2 E p w)) = db w" "in_tx (snd (io_GenerateArgon2 E p w)) = in_tx w"
  "jobs (snd (io_GenerateArgon2 E p w)) = jobs w"
  "db (snd (io_CompareArgon2 E p h w)) = db w" "in_tx (snd (io_CompareArgon2 E p h w)) = in_tx w"
  "jobs (snd (io_CompareArgon2 E p h w)) = jobs w"
  by (simp_all add: io_GenerateArgon2_def io_CompareArgon2_def Let_def)

lemma dummy_db [simp]:
  "db (snd (DummyCompareArgon2 E p w)) = db w" "in_tx (snd (DummyCompareArgon2 E p w)) = in_tx w"
  "jobs (snd (DummyCompareArgon2 E p w)) = jobs w"
  by (simp_all add: DummyCompareArgon2_def onError_def io_CompareArgon2_def
      split: outcome.split prod.split)

lemma keeps_passwords [keeps_intros]:
  "keeps_db I P (io_GenerateArgon2 E p)" "keeps_db I P (io_CompareArgon2 E p h)"
  "keeps_db I P (DummyCompareArgon2 E p)"
  "keeps_jobs js P (io_GenerateArgon2 E p)" "keeps_jobs js P (io_CompareArgon2 E p h)"
  "keeps_jobs js P (DummyCompareArgon2 E p)"
  by (simp_all add: keeps_def)

lemma GenerateArgon2_raises: "GenerateArgon2 idkey v n rd pw ps = Fail e \<Longrightarrow> sentinels_of e = {}"
  by (auto simp: GenerateArgon2_def Let_def split: sum.splits option.splits)

lemma raises_generate: "raises P {} (io_GenerateArgon2 E p)"
  by (auto simp: raises_def io_GenerateArgon2_def Let_def dest: GenerateArgon2_raises)

lemma raises_compare:
  "raises P {ErrInvalidHash, ErrIncompatibleVersion, ErrInvalidPassword} (io_CompareArgon2 E p h)"
  unfolding raises_def io_CompareArgon2_def using CompareArgon2_sentinels by blast

lemma DummyCompare_never_fails: "DummyCompareArgon2 E p w \<noteq> (Fail e, w')"
  by (auto simp: DummyCompareArgon2_def onError_def io_CompareArgon2_def split: outcome.splits)

lemma raises_dummy: "raises P {} (DummyCompareArgon2 E p)"
  by (simp add: raises_def DummyCompare_never_fails)

section \<open>Own passwords, and what a comparison costs\<close>

lemma io_Generate_Ret:
  assumes "io_GenerateArgon2 E pw w = (Ret enc, w')"
  shows "GenerateArgon2 (x_idkey E) (x_argon_version E) (x_num_cpu E) (x_rand_read E (tick w)) pw
      Argon2ParamsDefault = Ret enc"
    and "work w' = work w @ [derivation (resolved_params E)]" "db w' = db w"
    "in_tx w' = in_tx w" "jobs w' = jobs w" "tick w' = Suc (tick w)"
  using assms by (auto simp: io_GenerateArgon2_def Let_def elim!: GenerateArgon2_Ret)

text \<open>A stored hash is one the service generated, on a host with the same CPU count.\<close>

definition generated_hash :: "ext \<Rightarrow> string \<Rightarrow> string \<Rightarrow> bool" where
  "generated_hash E pw enc \<longleftrightarrow> (\<exists>rs. GenerateArgon2 (x_idkey E) (x_argon_version E) (x_num_cpu E) rs pw
     Argon2ParamsDefault = Ret enc)"

lemma io_generated: "io_GenerateArgon2 E pw w = (Ret enc, w') \<Longrightarrow> generated_hash E pw enc"
  unfolding generated_hash_def using io_Generate_Ret(1) by blast

lemma generated_work:
  assumes "password_contract E" "generated_hash E pw enc"
  shows "compare_work E enc = [derivation (resolved_params E)]"
proof -
  obtain rs where g: "GenerateArgon2 (x_idkey E) (x_argon_version E) (x_num_cpu E) rs pw
     Argon2ParamsDefault = Ret enc"
    using assms(2) by (auto simp: generated_hash_def)
  have "idkey_contract (x_idkey E)" "x_argon_version E < 2 ^ 63"
    using assms(1) by (simp_all add: password_contract_def)
  from decode_generated [OF this g] obtain n salt hash where
    "decodeHash (x_argon_version E) enc = Ret (Argon2ParamsDefault\<lparr>Parallelism :=
       resolve_parallelism (x_num_cpu E) (Parallelism Argon2ParamsDefault), SaltLength := n\<rparr>, salt, hash)"
    by metis
  then show ?thesis by (simp add: compare_work_def derivation_def resolved_params_def)
qed

lemma own_password_accepted:
  assumes "password_contract E" "generated_hash E pw enc"
  shows "io_CompareArgon2 E pw enc w =
    (Ret (), w\<lparr>work := work w @ [derivation (resolved_params E)]\<rparr>)"
proof -
  obtain rs where g: "GenerateArgon2 (x_idkey E) (x_argon_version E) (x_num_cpu E) rs pw
     Argon2ParamsDefault = Ret enc"
    using assms(2) by (auto simp: generated_hash_def)
  have "idkey_contract (x_idkey E)" "x_argon_version E < 2 ^ 63"
    using assms(1) by (simp_all add: password_contract_def)
  from compare_own_password [OF this g] generated_work [OF assms] show ?thesis
    by (simp add: io_CompareArgon2_def)
qed

lemma dummy_generated: "dummy_hash E = Ret h \<Longrightarrow> generated_hash E ''not-a-real-password'' h"
  by (auto simp: dummy_hash_def dummyArgon2Hash_def generated_hash_def split: outcome.splits)

lemma dummy_work:
  assumes "password_contract E" "dummy_hash E = Ret h" "DummyCompareArgon2 E pw w = (r, w')"
  shows "work w' = work w @ [derivation (resolved_params E)]" "r = Ret () \<or> (\<exists>p. r = Panic p)"
  using generated_work [OF assms(1) dummy_generated [OF assms(2)]] assms(2,3)
  by (cases "CompareArgon2 (x_idkey E) (x_argon_version E) pw h";
      auto simp: DummyCompareArgon2_def onError_def io_CompareArgon2_def)+

lemmas raises_generate_sub [raises_intros] = raises_mono [OF raises_generate] raises_mono [OF raises_compare] raises_mono [OF raises_dummy]

end
