(* ===== verification/DaoShortCode.thy ===== *)
theory DaoShortCode
  imports World
begin

text \<open>
  The short-code table: the SQL statements of \<open>internal/dao/pg.shortCode*.sql\<close> with the partial
  unique index of the schema, and the operations \<open>ShortCodeSelect\<close>, \<open>ShortCodeDelete\<close> and
  \<open>ShortCodeInsert\<close>. The table's laws (at most one live code per target and usage, a retired code is
  never active again) are stated once as the locale \<open>code_table\<close>, over which the redemption of codes is proved.
\<close>

section \<open>The table\<close>

definition ShortCodeDeleteOverride :: string where
  "ShortCodeDeleteOverride = ''override with newer key''"

definition ShortCodeDeleteConsumed :: string where
  "ShortCodeDeleteConsumed = ''key consumed''"

type_synonym pair = "string \<times> string"

definition pair_of :: "dao_short_code \<Rightarrow> pair" where
  "pair_of r = (s_target r, s_usage r)"

definition live :: "dao_short_code \<Rightarrow> bool" where
  "live r \<longleftrightarrow> s_deleted_at r = None"

text \<open>\<open>deleted_at IS NULL AND expires_at > CURRENT_TIMESTAMP\<close>\<close>

definition active_at :: "time \<Rightarrow> dao_short_code \<Rightarrow> bool" where
  "active_at now r \<longleftrightarrow> live r \<and> now < s_expires_at r"

text \<open>Primary key and \<open>short_codes_active_target_usage_uniq\<close>.\<close>

definition codes_ok :: "dao_short_code list \<Rightarrow> bool" where
  "codes_ok rs \<longleftrightarrow> distinct (map s_id rs) \<and> distinct (map pair_of (filter live rs))"

definition delete_mark :: "time \<Rightarrow> string \<Rightarrow> dao_short_code \<Rightarrow> dao_short_code" where
  "delete_mark at comment r = r\<lparr>s_deleted_at := Some (pg_ts0 at), s_deleted_comment := Some comment\<rparr>"

definition delete_where ::
    "(dao_short_code \<Rightarrow> bool) \<Rightarrow> time \<Rightarrow> string \<Rightarrow> dao_short_code list \<Rightarrow> dao_short_code list" where
  "delete_where P at comment rs = map (\<lambda>r. if P r then delete_mark at comment r else r) rs"

definition find_active :: "pair \<Rightarrow> time \<Rightarrow> dao_short_code list \<Rightarrow> dao_short_code option" where
  "find_active p now rs = find (\<lambda>r. pair_of r = p \<and> active_at now r) rs"

definition insert_code ::
    "dao_short_code \<Rightarrow> dao_short_code list \<Rightarrow> go_error + dao_short_code list" where
  "insert_code r rs =
     (if s_id r \<in> set (map s_id rs) \<or> live r \<and> pair_of r \<in> set (map pair_of (filter live rs))
      then Inl unique_violation else Inr (rs @ [r]))"

section \<open>The statements\<close>

text \<open>\<open>pg.shortCodeSelect.sql\<close>\<close>

definition sql_shortCodeSelect :: "string \<Rightarrow> string \<Rightarrow> dao_short_code list sql" where
  "sql_shortCodeSelect target usage now d =
     (Inr (filter (\<lambda>r. pair_of r = (target, usage) \<and> active_at now r) (short_codes d)), d)"

text \<open>\<open>pg.shortCodeDelete.sql\<close>\<close>

definition retire_match :: "uuid \<Rightarrow> time \<Rightarrow> dao_short_code \<Rightarrow> bool" where
  "retire_match i now r \<longleftrightarrow> s_id r = i \<and> active_at now r"

definition sql_shortCodeDelete :: "time \<Rightarrow> string \<Rightarrow> uuid \<Rightarrow> dao_short_code list sql" where
  "sql_shortCodeDelete at comment i now d =
     (Inr (map (delete_mark at comment) (filter (retire_match i now) (short_codes d))),
      d\<lparr>short_codes := delete_where (retire_match i now) at comment (short_codes d)\<rparr>)"

text \<open>\<open>pg.shortCodeInsert.discardConflict.sql\<close>: live rows, and rows whose deletion lies in the
  future of the database's clock.\<close>

definition undeleted_at :: "time \<Rightarrow> dao_short_code \<Rightarrow> bool" where
  "undeleted_at now r \<longleftrightarrow> (case s_deleted_at r of None \<Rightarrow> True | Some t \<Rightarrow> now < t)"

definition conflict_match :: "pair \<Rightarrow> time \<Rightarrow> dao_short_code \<Rightarrow> bool" where
  "conflict_match p now r \<longleftrightarrow> pair_of r = p \<and> undeleted_at now r"

definition sql_discardConflict :: "time \<Rightarrow> string \<Rightarrow> string \<Rightarrow> string \<Rightarrow> unit sql" where
  "sql_discardConflict at comment target usage now d =
     (Inr (), d\<lparr>short_codes :=
        delete_where (conflict_match (target, usage) now) at comment (short_codes d)\<rparr>)"

text \<open>\<open>pg.shortCodeInsert.discardExpired.sql\<close>: expiry against the service's clock.\<close>

definition expired_match :: "pair \<Rightarrow> time \<Rightarrow> dao_short_code \<Rightarrow> bool" where
  "expired_match p at r \<longleftrightarrow> pair_of r = p \<and> live r \<and> s_expires_at r \<le> at"

definition sql_discardExpired :: "time \<Rightarrow> string \<Rightarrow> string \<Rightarrow> string \<Rightarrow> unit sql" where
  "sql_discardExpired at comment target usage now d =
     (Inr (), d\<lparr>short_codes :=
        delete_where (expired_match (target, usage) at) at comment (short_codes d)\<rparr>)"

text \<open>\<open>pg.shortCodeInsert.checkConflict.sql\<close>: the number of rows.\<close>

definition sql_checkConflict :: "string \<Rightarrow> string \<Rightarrow> nat sql" where
  "sql_checkConflict target usage now d =
     (Inr (length (filter (\<lambda>r. conflict_match (target, usage) now r \<and> now < s_expires_at r)
        (short_codes d))), d)"

text \<open>\<open>pg.shortCodeInsert.sql\<close>\<close>

definition sql_shortCodeInsert ::
    "uuid \<Rightarrow> string \<Rightarrow> string \<Rightarrow> string \<Rightarrow> string option \<Rightarrow> time \<Rightarrow> time \<Rightarrow> dao_short_code list sql" where
  "sql_shortCodeInsert i code usage target data created_at expires_at now d =
     (let r = \<lparr>s_id = i, s_code = code, s_usage = usage, s_target = target, s_data = data,
               s_created_at = pg_ts0 created_at, s_expires_at = pg_ts0 expires_at,
               s_deleted_at = None, s_deleted_comment = None\<rparr> in
      case insert_code r (short_codes d) of
        Inl e \<Rightarrow> (Inl e, d)
      | Inr rs \<Rightarrow> (Inr [r], d\<lparr>short_codes := rs\<rparr>))"

section \<open>The operations\<close>

text \<open>Mapping of \<open>sql.ErrNoRows\<close> and of SQLSTATE 23505 onto the package's sentinels.\<close>

definition code_no_rows :: "sentinel \<Rightarrow> go_error \<Rightarrow> go_error" where
  "code_no_rows s e = (if errors_is e ErrNoRows then Join [e, Sentinel s] else e)"

definition code_unique :: "go_error \<Rightarrow> go_error" where
  "code_unique e = (if errors_as_pg e = Some ''23505''
     then Join [e, Sentinel ErrShortCodeInsertAlreadyExists] else e)"

record ShortCodeSelectRequest =
  ss_Usage :: string
  ss_Target :: string

definition dao_ShortCodeSelect :: "ext \<Rightarrow> ShortCodeSelectRequest \<Rightarrow> dao_short_code io" where
  "dao_ShortCodeSelect E request =
     dao_query E (sql_shortCodeSelect (ss_Target request) (ss_Usage request))
       (code_no_rows ErrShortCodeSelectNotFound)"

record ShortCodeDeleteRequest =
  sd_ID :: uuid
  sd_Now :: time
  sd_Comment :: string

definition dao_ShortCodeDelete :: "ext \<Rightarrow> ShortCodeDeleteRequest \<Rightarrow> dao_short_code io" where
  "dao_ShortCodeDelete E request =
     dao_query E (sql_shortCodeDelete (sd_Now request) (sd_Comment request) (sd_ID request))
       (code_no_rows ErrShortCodeDeleteNotFound)"

record ShortCodeInsertRequest =
  si_ID :: uuid
  si_Code :: string
  si_Usage :: string
  si_Target :: string
  si_Data :: "string option"
  si_Now :: time
  si_ExpiresAt :: time
  si_Override :: bool

text \<open>The deletion of superseded codes is backdated by a second.\<close>

definition discardConflicts :: "ext \<Rightarrow> ShortCodeInsertRequest \<Rightarrow> unit io" where
  "discardConflicts E request =
     andThen (wrap ''get database handle'' (get_context E)) (\<lambda>_.
     wrap ''execute query'' (run_stmt E (sql_discardConflict (si_Now request - second)
        ShortCodeDeleteOverride (si_Target request) (si_Usage request))))"

definition discardExpired :: "ext \<Rightarrow> ShortCodeInsertRequest \<Rightarrow> unit io" where
  "discardExpired E request =
     andThen (wrap ''get database handle'' (get_context E)) (\<lambda>_.
     wrap ''execute query'' (run_stmt E (sql_discardExpired (si_Now request)
        ''expired before insert'' (si_Target request) (si_Usage request))))"

definition checkConflicts :: "ext \<Rightarrow> ShortCodeInsertRequest \<Rightarrow> unit io" where
  "checkConflicts E request =
     andThen (wrap ''get database handle'' (get_context E)) (\<lambda>_.
     andThen (wrap ''execute query'' (run_stmt E (sql_checkConflict (si_Target request) (si_Usage request))))
       (\<lambda>n. if n = 1 then fail (Sentinel ErrShortCodeInsertAlreadyExists) else ret ()))"

definition short_code_insert_body :: "ext \<Rightarrow> ShortCodeInsertRequest \<Rightarrow> dao_short_code io" where
  "short_code_insert_body E request =
     andThen (wrap ''handle conflict''
       (if si_Override request then discardConflicts E request
        else andThen (discardExpired E request) (\<lambda>_. checkConflicts E request))) (\<lambda>_.
     andThen (wrap ''get database handle'' (get_context E)) (\<lambda>_.
     onError (query_one E (sql_shortCodeInsert (si_ID request) (si_Code request) (si_Usage request)
         (si_Target request) (si_Data request) (si_Now request) (si_ExpiresAt request)))
       (\<lambda>e. fail (Wrap ''execute query'' (code_unique e)))))"

definition dao_ShortCodeInsert :: "ext \<Rightarrow> ShortCodeInsertRequest \<Rightarrow> dao_short_code io" where
  "dao_ShortCodeInsert E request = (\<lambda>w.
     if in_tx w then (Fail (Sentinel ErrShortCodeInsertNested), w)
     else wrap ''run transaction'' (x_within_tx_code E (short_code_insert_body E request)) w)"


section \<open>Laws of the table\<close>

text \<open>What issuing, superseding and redeeming codes relies on: a provider that finds at most one
  unexpired code per pair, issues a new one, supersedes all codes of a pair and retires one. The
  first time argument of \<open>retire\<close> and \<open>supersede\<close> is the provider's own clock.\<close>

locale code_table =
  fixes ident :: "'r \<Rightarrow> 'i" and pair :: "'r \<Rightarrow> 'p" and expiry :: "'r \<Rightarrow> time"
    and fresh :: "'r \<Rightarrow> bool"
    and find_code :: "'p \<Rightarrow> time \<Rightarrow> 't \<Rightarrow> 'r option"
    and issue :: "'r \<Rightarrow> 't \<Rightarrow> 'e + 't"
    and supersede :: "'p \<Rightarrow> time \<Rightarrow> time \<Rightarrow> string \<Rightarrow> 't \<Rightarrow> 't"
    and retire :: "'i \<Rightarrow> time \<Rightarrow> time \<Rightarrow> string \<Rightarrow> 't \<Rightarrow> 't"
    and invar :: "'t \<Rightarrow> bool"
  assumes find_sound: "find_code p now t = Some r \<Longrightarrow> pair r = p \<and> now < expiry r"
    and issue_find: "invar t \<Longrightarrow> fresh r \<Longrightarrow> issue r t = Inr t' \<Longrightarrow>
      find_code p now t' =
        (if p = pair r then if now < expiry r then Some r else None else find_code p now t)"
    and issue_invar: "invar t \<Longrightarrow> issue r t = Inr t' \<Longrightarrow> invar t'"
    and supersede_find: "find_code q now (supersede p clock at c t) =
      (if q = p then None else find_code q now t)"
    and supersede_invar: "invar t \<Longrightarrow> invar (supersede p clock at c t)"
    and retire_find: "invar t \<Longrightarrow> clock \<le> now \<Longrightarrow> find_code q now (retire i clock at c t) =
      (case find_code q now t of None \<Rightarrow> None | Some r \<Rightarrow> if ident r = i then None else Some r)"
    and retire_invar: "invar t \<Longrightarrow> invar (retire i clock at c t)"
begin

lemma reissue_find:
  assumes "invar t" "fresh r" "issue r (supersede (pair r) clock at c t) = Inr t'" "now < expiry r"
  shows "find_code (pair r) now t' = Some r"
    and "q \<noteq> pair r \<Longrightarrow> find_code q now t' = find_code q now t"
  using issue_find [OF supersede_invar [OF assms(1)] assms(2,3)] assms(4)
  by (simp_all add: supersede_find)

lemma retire_once:
  assumes "invar t" "find_code p now t = Some r" "clock \<le> now"
  shows "find_code p now (retire (ident r) clock at c t) = None"
  using assms by (simp add: retire_find)

text \<open>Only issuing brings back a code for a pair.\<close>

lemma none_stable:
  assumes "invar t" "find_code p now t = None" "clock \<le> now"
  shows "find_code p now (retire i clock at c t) = None"
    and "find_code p now (supersede q clock at c t) = None"
  using assms by (simp_all add: retire_find supersede_find)

end

lemma delete_mark_simps [simp]:
  "s_id (delete_mark at c r) = s_id r" "pair_of (delete_mark at c r) = pair_of r"
  "\<not> live (delete_mark at c r)" "\<not> active_at now (delete_mark at c r)"
  by (simp_all add: delete_mark_def pair_of_def live_def active_at_def)

lemma delete_where_Nil [simp]: "delete_where P at c [] = []"
  by (simp add: delete_where_def)

lemma delete_where_Cons [simp]:
  "delete_where P at c (r # rs) = (if P r then delete_mark at c r else r) # delete_where P at c rs"
  by (simp add: delete_where_def)

lemma map_id_delete [simp]: "map s_id (delete_where P at c rs) = map s_id rs"
  by (simp add: delete_where_def)

lemma live_delete: "filter live (delete_where P at c rs) = filter (\<lambda>r. live r \<and> \<not> P r) rs"
  by (induction rs) auto

lemma distinct_map_filter_mono:
  assumes "distinct (map f (filter P xs))"
  shows "distinct (map f (filter (\<lambda>x. P x \<and> Q x) xs))"
proof -
  have "filter (\<lambda>x. P x \<and> Q x) xs = filter Q (filter P xs)"
    by (simp add: conj_commute)
  with assms show ?thesis by (simp only: distinct_map_filter)
qed

lemma delete_where_ok: "codes_ok rs \<Longrightarrow> codes_ok (delete_where P at c rs)"
  using distinct_map_filter_mono [of pair_of live rs "\<lambda>r. \<not> P r"]
  by (simp add: codes_ok_def live_delete)

lemma find_delete_other:
  "(\<And>r. r \<in> set rs \<Longrightarrow> pair_of r = q \<Longrightarrow> active_at now r \<Longrightarrow> \<not> P r) \<Longrightarrow>
   find_active q now (delete_where P at c rs) = find_active q now rs"
  by (induction rs) (auto simp: find_active_def)

lemma find_delete_all:
  "(\<And>r. pair_of r = q \<Longrightarrow> active_at now r \<Longrightarrow> P r) \<Longrightarrow>
   find_active q now (delete_where P at c rs) = None"
  by (induction rs) (auto simp: find_active_def)

lemma find_active_Some:
  assumes "codes_ok rs"
  shows "find_active p now rs = Some r \<longleftrightarrow> r \<in> set rs \<and> pair_of r = p \<and> active_at now r"
  using assms
proof (induction rs)
  case (Cons a rs)
  then have "codes_ok rs" by (auto simp: codes_ok_def split: if_splits)
  moreover have "pair_of b \<noteq> pair_of a" if "live a" "b \<in> set rs" "live b" for b
    using Cons.prems that by (auto simp: codes_ok_def image_iff)
  then have "\<forall>b\<in>set rs. active_at now a \<longrightarrow> active_at now b \<longrightarrow> pair_of b \<noteq> pair_of a"
    by (auto simp: active_at_def)
  ultimately show ?case using Cons.IH by (auto simp: find_active_def)
qed (simp add: find_active_def)

lemma find_active_None: "find_active p now rs = None \<longleftrightarrow> (\<forall>r\<in>set rs. pair_of r = p \<longrightarrow> \<not> active_at now r)"
  by (auto simp: find_active_def find_None_iff)

lemma find_retire:
  assumes ok: "codes_ok rs" and le: "clock \<le> now"
  shows "find_active q now (delete_where (retire_match i clock) at c rs) =
    (case find_active q now rs of None \<Rightarrow> None | Some r \<Rightarrow> if s_id r = i then None else Some r)"
proof -
  have "(\<lambda>r. pair_of r = q \<and> active_at now r \<and> s_id r = i) = (\<lambda>r. pair_of r = q \<and> active_at now r \<and> retire_match i clock r)"
    using le by (auto simp: retire_match_def active_at_def)
  note eq = fun_cong [OF this]
  show ?thesis
  proof (cases "find_active q now rs")
    case None
    then have "find_active q now (delete_where (retire_match i clock) at c rs) = None"
      by (auto simp: find_active_None delete_where_def)
    with None show ?thesis by simp
  next
    case (Some r)
    then have r: "r \<in> set rs" "pair_of r = q" "active_at now r" using ok by (simp_all add: find_active_Some)
    have only: "b = r" if "b \<in> set rs" "pair_of b = q" "active_at now b" for b
      using that Some ok find_active_Some by (metis option.inject)
    show ?thesis
    proof (cases "s_id r = i")
      case True
      then have "find_active q now (delete_where (retire_match i clock) at c rs) = None"
        unfolding find_active_None delete_where_def using only eq by (auto split: if_splits)
      with True Some show ?thesis by simp
    next
      case False
      then have "r \<in> set (delete_where (retire_match i clock) at c rs)"
        using r by (auto simp: delete_where_def retire_match_def image_iff)
      with r have "find_active q now (delete_where (retire_match i clock) at c rs) = Some r"
        using delete_where_ok [OF ok] by (simp add: find_active_Some)
      with False Some show ?thesis by simp
    qed
  qed
qed

lemma insert_code_Inr: "insert_code r rs = Inr rs' \<longleftrightarrow> s_id r \<notin> set (map s_id rs) \<and>
    (live r \<longrightarrow> pair_of r \<notin> set (map pair_of (filter live rs))) \<and> rs' = rs @ [r]"
  by (auto simp: insert_code_def)

lemma insert_code_ok: "codes_ok rs \<Longrightarrow> insert_code r rs = Inr rs' \<Longrightarrow> codes_ok rs'"
  by (auto simp: insert_code_Inr codes_ok_def)

lemma find_active_append:
  "find_active p now (xs @ ys) = (case find_active p now xs of None \<Rightarrow> find_active p now ys | s \<Rightarrow> s)"
  by (induction xs) (auto simp: find_active_def)

lemma find_insert_code:
  assumes "live r" "insert_code r rs = Inr rs'"
  shows "find_active p now rs' =
    (if p = pair_of r then if now < s_expires_at r then Some r else None else find_active p now rs)"
proof -
  have "find_active (pair_of r) now rs = None"
    using assms by (auto simp: insert_code_Inr find_active_None active_at_def image_iff)
  with assms show ?thesis
    by (auto simp: insert_code_Inr find_active_append split: option.split)
      (auto simp: find_active_def active_at_def)
qed

definition supersede_codes ::
    "pair \<Rightarrow> time \<Rightarrow> time \<Rightarrow> string \<Rightarrow> dao_short_code list \<Rightarrow> dao_short_code list" where
  "supersede_codes p clock at c = delete_where (conflict_match p clock) at c"

definition retire_code ::
    "uuid \<Rightarrow> time \<Rightarrow> time \<Rightarrow> string \<Rightarrow> dao_short_code list \<Rightarrow> dao_short_code list" where
  "retire_code i clock at c = delete_where (retire_match i clock) at c"

lemma conflict_active: "active_at now r \<Longrightarrow> conflict_match p clock r \<longleftrightarrow> pair_of r = p"
  by (auto simp: conflict_match_def undeleted_at_def active_at_def live_def)

interpretation codes: code_table s_id pair_of s_expires_at live find_active insert_code
  supersede_codes retire_code codes_ok
proof unfold_locales
  show "find_active p now t = Some r \<Longrightarrow> pair_of r = p \<and> now < s_expires_at r" for p now t r
    by (auto simp: find_active_def find_Some_iff active_at_def)
  show "live r \<Longrightarrow> insert_code r t = Inr t' \<Longrightarrow> find_active p now t' =
      (if p = pair_of r then if now < s_expires_at r then Some r else None else find_active p now t)"
    for t r t' p now
    by (rule find_insert_code)
  show "codes_ok t \<Longrightarrow> insert_code r t = Inr t' \<Longrightarrow> codes_ok t'" for t r t'
    by (rule insert_code_ok)
  show "find_active q now (supersede_codes p clock at c t) = (if q = p then None else find_active q now t)"
    for q now p clock at c t
  proof (cases "q = p")
    case True
    then show ?thesis
      unfolding supersede_codes_def by (simp add: find_delete_all conflict_active)
  next
    case False
    then show ?thesis
      unfolding supersede_codes_def by (simp add: find_delete_other conflict_active)
  qed
  show "codes_ok t \<Longrightarrow> codes_ok (supersede_codes p clock at c t)" for t p clock at c
    unfolding supersede_codes_def by (rule delete_where_ok)
  show "codes_ok t \<Longrightarrow> clock \<le> now \<Longrightarrow> find_active q now (retire_code i clock at c t) =
      (case find_active q now t of None \<Rightarrow> None | Some r \<Rightarrow> if s_id r = i then None else Some r)"
    for t clock now q i at c
    unfolding retire_code_def by (rule find_retire)
  show "codes_ok t \<Longrightarrow> codes_ok (retire_code i clock at c t)" for t i clock at c
    unfolding retire_code_def by (rule delete_where_ok)
qed

section \<open>The index is an invariant\<close>

definition short_codes_ok :: "db \<Rightarrow> bool" where
  "short_codes_ok d \<longleftrightarrow> codes_ok (short_codes d)"

lemma code_statements_keep [keeps_intros]:
  "sql_keeps short_codes_ok (sql_shortCodeSelect t u)"
  "sql_keeps short_codes_ok (sql_shortCodeDelete at c i)"
  "sql_keeps short_codes_ok (sql_discardConflict at c t u)"
  "sql_keeps short_codes_ok (sql_discardExpired at c t u)"
  "sql_keeps short_codes_ok (sql_checkConflict t u)"
  "sql_keeps short_codes_ok (sql_shortCodeInsert i code u t data cr ex)"
  by (auto simp: sql_keeps_def short_codes_ok_def sql_shortCodeSelect_def sql_shortCodeDelete_def
      sql_discardConflict_def sql_discardExpired_def sql_checkConflict_def sql_shortCodeInsert_def
      Let_def intro: delete_where_ok insert_code_ok split: sum.splits)

text \<open>The two tables are independent: no statement on one touches the other.\<close>

lemma statements_keep_other_table [keeps_intros]:
  "sql_keeps (\<lambda>d. credentials d = a) (sql_shortCodeSelect t u)"
  "sql_keeps (\<lambda>d. credentials d = a) (sql_shortCodeDelete at c i)"
  "sql_keeps (\<lambda>d. credentials d = a) (sql_discardConflict at c t u)"
  "sql_keeps (\<lambda>d. credentials d = a) (sql_discardExpired at c t u)"
  "sql_keeps (\<lambda>d. credentials d = a) (sql_checkConflict t u)"
  "sql_keeps (\<lambda>d. credentials d = a) (sql_shortCodeInsert i code u t data cr ex)"
  by (auto simp: sql_keeps_def sql_shortCodeSelect_def sql_shortCodeDelete_def
      sql_discardConflict_def sql_discardExpired_def sql_checkConflict_def sql_shortCodeInsert_def
      Let_def split: sum.splits)

lemma keeps_code_body:
  assumes "\<And>t u. sql_keeps I (sql_checkConflict t u)"
    "\<And>at c t u. sql_keeps I (sql_discardConflict at c t u)"
    "\<And>at c t u. sql_keeps I (sql_discardExpired at c t u)"
    "\<And>i code u t data cr ex. sql_keeps I (sql_shortCodeInsert i code u t data cr ex)"
  shows "keeps_db I P (short_code_insert_body E rq)"
  unfolding short_code_insert_body_def discardConflicts_def discardExpired_def checkConflicts_def
    query_one_def
  by (intro keeps_intros assms)

lemma keeps_same: "keeps I m \<Longrightarrow> (\<And>w. J w \<Longrightarrow> I w) \<Longrightarrow> (\<And>w. I w \<Longrightarrow> J w) \<Longrightarrow> keeps J m"
  by (simp add: keeps_def)

lemma keeps_code_insert:
  assumes "tx_contract (x_within_tx_code E)" "keeps_db I (\<lambda>_. True) (short_code_insert_body E rq)"
    "P = Not \<or> P = (\<lambda>b. b)"
  shows "keeps_db I P (dao_ShortCodeInsert E rq)"
proof (rule keepsI)
  fix w :: world assume w: "I (db w) \<and> P (in_tx w)"
  show "I (db (snd (dao_ShortCodeInsert E rq w))) \<and> P (in_tx (snd (dao_ShortCodeInsert E rq w)))"
  proof (cases "in_tx w")
    case True
    with w show ?thesis by (simp add: dao_ShortCodeInsert_def)
  next
    case False
    with w assms(3) have "P = Not" by auto
    with False w keepsD [OF keeps_tx [OF assms(1,2)], of w]
    show ?thesis by (simp add: dao_ShortCodeInsert_def)
  qed
qed

lemma dao_codes_keep:
  assumes "tx_contract (x_within_tx_code E)" "P = Not \<or> P = (\<lambda>b. b)"
  shows "keeps_db short_codes_ok P (dao_ShortCodeInsert E a)"
    and "keeps_db (\<lambda>d. credentials d = cs) P (dao_ShortCodeInsert E a)"
  by (intro keeps_code_insert keeps_code_body keeps_intros assms)+

lemma dao_codes_keep_stmt [keeps_intros]:
  "keeps_db short_codes_ok P (dao_ShortCodeSelect E b)"
  "keeps_db short_codes_ok P (dao_ShortCodeDelete E c)"
  "keeps_db (\<lambda>d. credentials d = cs) P (dao_ShortCodeSelect E b)"
  "keeps_db (\<lambda>d. credentials d = cs) P (dao_ShortCodeDelete E c)"
  unfolding dao_ShortCodeSelect_def dao_ShortCodeDelete_def by (intro keeps_intros)+

section \<open>What the operations return\<close>

lemma find_code_filter: "find_active p now rs =
    (case filter (\<lambda>r. pair_of r = p \<and> active_at now r) rs of [] \<Rightarrow> None | x # _ \<Rightarrow> Some x)"
  unfolding find_active_def by (induction rs) auto

lemma code_no_rows_simps [simp]:
  "code_no_rows s (Opaque m) = Opaque m"
  "code_no_rows s (Sentinel ErrNoRows) = Join [Sentinel ErrNoRows, Sentinel s]"
  "code_unique (Opaque m) = Opaque m"
  "code_unique (Sentinel ErrNoRows) = Sentinel ErrNoRows"
  "code_unique unique_violation = Join [unique_violation, Sentinel ErrShortCodeInsertAlreadyExists]"
  by (simp_all add: code_no_rows_def code_unique_def unique_violation_def)

lemma code_no_rows_opaque: "opaque_ok (code_no_rows s)"
  by (simp add: opaque_ok_def)

lemma select_code_cases:
  obtains (infra) e w' where "dao_ShortCodeSelect E rq w = (Fail e, w')" "sentinels_of e = {}"
      "db w' = db w" "\<not> healthy E"
  | (missing) now e w' where "dao_ShortCodeSelect E rq w = (Fail e, w')"
      "sentinels_of e = {ErrNoRows, ErrShortCodeSelectNotFound}"
      "find_active (ss_Target rq, ss_Usage rq) now (short_codes (db w)) = None" "db w' = db w"
  | (found) now r w' where "dao_ShortCodeSelect E rq w = (Ret r, w')"
      "find_active (ss_Target rq, ss_Usage rq) now (short_codes (db w)) = Some r" "db w' = db w"
proof (rule dao_query_cases [OF code_no_rows_opaque [of ErrShortCodeSelectNotFound], of E
      "sql_shortCodeSelect (ss_Target rq) (ss_Usage rq)" w], fold dao_ShortCodeSelect_def)
  note q = sql_shortCodeSelect_def find_code_filter
  fix e w' assume "dao_ShortCodeSelect E rq w = (Fail e, w')" "sentinels_of e = {}"
    "db w' = db w \<or> (\<exists>now. db w' = snd (sql_shortCodeSelect (ss_Target rq) (ss_Usage rq) now (db w)))"
    "\<not> healthy E"
  then show thesis by (intro infra [of e w']) (auto simp: q)
next
  fix now d w' assume "sql_shortCodeSelect (ss_Target rq) (ss_Usage rq) now (db w) = (Inr [], d)"
    "dao_ShortCodeSelect E rq w = (Fail (Wrap ''execute query''
       (code_no_rows ErrShortCodeSelectNotFound (Sentinel ErrNoRows))), w')" "db w' = d"
  then show thesis
    by (intro missing [of _ w' now]) (auto simp: sql_shortCodeSelect_def find_code_filter)
next
  fix now r rs d w' assume "sql_shortCodeSelect (ss_Target rq) (ss_Usage rq) now (db w) = (Inr (r # rs), d)"
    "dao_ShortCodeSelect E rq w = (Ret r, w')" "db w' = d"
  then show thesis
    by (intro found [of r w' now]) (auto simp: sql_shortCodeSelect_def find_code_filter)
qed (simp add: sql_shortCodeSelect_def)

text \<open>A deletion retires the row of that identifier when it is active at the database's clock.\<close>

lemma filter_retire: "codes_ok rs \<Longrightarrow> filter (retire_match i now) rs = [] \<or>
    (\<exists>r. filter (retire_match i now) rs = [r] \<and> r \<in> set rs \<and> s_id r = i \<and> active_at now r)"
proof (induction rs)
  case (Cons a rs)
  have ok: "codes_ok rs" using Cons.prems by (auto simp: codes_ok_def split: if_splits)
  show ?case
  proof (cases "retire_match i now a")
    case True
    then have "s_id b \<noteq> i" if "b \<in> set rs" for b
      using Cons.prems that True by (auto simp: codes_ok_def retire_match_def image_iff)
    then have "filter (retire_match i now) rs = []"
      by (auto simp: filter_empty_conv retire_match_def)
    then have "filter (retire_match i now) (a # rs) = [a]" using True by simp
    with True show ?thesis unfolding retire_match_def by auto
  next
    case False
    with Cons.IH [OF ok] show ?thesis by auto
  qed
qed simp

lemma delete_where_none: "filter P rs = [] \<Longrightarrow> delete_where P at c rs = rs"
  by (induction rs) (auto split: if_splits)

lemma delete_code_cases:
  obtains (infra) e w' where "dao_ShortCodeDelete E rq w = (Fail e, w')" "sentinels_of e = {}"
      "db w' = db w \<or> (\<exists>now. db w' = (db w)\<lparr>short_codes :=
         retire_code (sd_ID rq) now (sd_Now rq) (sd_Comment rq) (short_codes (db w))\<rparr>)" "\<not> healthy E"
  | (missing) now e w' where "dao_ShortCodeDelete E rq w = (Fail e, w')"
      "sentinels_of e = {ErrNoRows, ErrShortCodeDeleteNotFound}"
      "\<forall>r\<in>set (short_codes (db w)). \<not> retire_match (sd_ID rq) now r" "db w' = db w"
  | (retired) now r w' where "dao_ShortCodeDelete E rq w = (Ret (delete_mark (sd_Now rq) (sd_Comment rq) r), w')"
      "r \<in> set (short_codes (db w))" "s_id r = sd_ID rq" "active_at now r"
      "db w' = (db w)\<lparr>short_codes :=
         retire_code (sd_ID rq) now (sd_Now rq) (sd_Comment rq) (short_codes (db w))\<rparr>"
proof (rule dao_query_cases [OF code_no_rows_opaque [of ErrShortCodeDeleteNotFound], of E
      "sql_shortCodeDelete (sd_Now rq) (sd_Comment rq) (sd_ID rq)" w], fold dao_ShortCodeDelete_def)
  fix now d w' assume a: "sql_shortCodeDelete (sd_Now rq) (sd_Comment rq) (sd_ID rq) now (db w) = (Inr [], d)"
    "dao_ShortCodeDelete E rq w =
      (Fail (Wrap ''execute query'' (code_no_rows ErrShortCodeDeleteNotFound (Sentinel ErrNoRows))), w')" "db w' = d"
  then have "filter (retire_match (sd_ID rq) now) (short_codes (db w)) = []"
    by (simp add: sql_shortCodeDelete_def)
  with a delete_where_none [OF this] show thesis
    by (intro missing [of _ w' now]) (auto simp: sql_shortCodeDelete_def filter_empty_conv)
next
  fix now r rs d w' assume a: "sql_shortCodeDelete (sd_Now rq) (sd_Comment rq) (sd_ID rq) now (db w) = (Inr (r # rs), d)"
    "dao_ShortCodeDelete E rq w = (Ret r, w')" "db w' = d"
  then obtain q qs where "filter (retire_match (sd_ID rq) now) (short_codes (db w)) = q # qs"
    "r = delete_mark (sd_Now rq) (sd_Comment rq) q"
    by (auto simp: sql_shortCodeDelete_def map_eq_Cons_conv)
  with a show thesis
    by (intro retired [of q w' now])
      (auto simp: sql_shortCodeDelete_def retire_code_def retire_match_def dest!: filter_eq_ConsD)
next
  fix e w' assume "dao_ShortCodeDelete E rq w = (Fail e, w')" "sentinels_of e = {}"
    "db w' = db w \<or> (\<exists>now. db w' =
        snd (sql_shortCodeDelete (sd_Now rq) (sd_Comment rq) (sd_ID rq) now (db w)))" "\<not> healthy E"
  then show thesis
    by (intro infra [of e w']) (auto simp: sql_shortCodeDelete_def retire_code_def)
qed (simp add: sql_shortCodeDelete_def)

text \<open>The row an insert asks for, and the table it is inserted in.\<close>

definition new_code :: "ShortCodeInsertRequest \<Rightarrow> dao_short_code" where
  "new_code rq = \<lparr>s_id = si_ID rq, s_code = si_Code rq, s_usage = si_Usage rq, s_target = si_Target rq,
     s_data = si_Data rq, s_created_at = pg_ts0 (si_Now rq), s_expires_at = pg_ts0 (si_ExpiresAt rq),
     s_deleted_at = None, s_deleted_comment = None\<rparr>"

definition cleared :: "ShortCodeInsertRequest \<Rightarrow> time \<Rightarrow> dao_short_code list \<Rightarrow> dao_short_code list" where
  "cleared rq now rs =
     (if si_Override rq
      then supersede_codes (si_Target rq, si_Usage rq) now (si_Now rq - second) ShortCodeDeleteOverride rs
      else delete_where (expired_match (si_Target rq, si_Usage rq) (si_Now rq)) (si_Now rq)
             ''expired before insert'' rs)"

definition issued :: "ShortCodeInsertRequest \<Rightarrow> db \<Rightarrow> db \<Rightarrow> bool" where
  "issued rq d d' \<longleftrightarrow> (\<exists>now rs. insert_code (new_code rq) (cleared rq now (short_codes d)) = Inr rs \<and>
     d' = d\<lparr>short_codes := rs\<rparr>)"

lemma new_code_simps [simp]:
  "live (new_code rq)" "pair_of (new_code rq) = (si_Target rq, si_Usage rq)"
  "s_id (new_code rq) = si_ID rq" "s_expires_at (new_code rq) = pg_ts0 (si_ExpiresAt rq)"
  "s_code (new_code rq) = si_Code rq" "s_target (new_code rq) = si_Target rq"
  "s_usage (new_code rq) = si_Usage rq" "s_data (new_code rq) = si_Data rq"
  by (simp_all add: new_code_def live_def pair_of_def)

lemma query_one_Ret: "query_one E q w = (Ret r, w') \<longleftrightarrow>
    (\<exists>rs. run_stmt E q w = (Ret (r # rs), w'))"
proof -
  have "lift (go_result_err (scan_one rs)) v = (Ret r, w') \<longleftrightarrow> (\<exists>t. rs = r # t) \<and> v = w'" for rs v
    by (cases rs) (auto simp: scan_one_def)
  then show ?thesis by (auto simp: query_one_def andThen_Ret)
qed

lemma body_Ret:
  assumes "short_code_insert_body E rq w = (Ret r, w')"
  shows "r = new_code rq \<and> issued rq (db w) (db w')"
proof -
  obtain w1 u rs where c: "(if si_Override rq then discardConflicts E rq
        else andThen (discardExpired E rq) (\<lambda>_. checkConflicts E rq)) w = (Ret u, w1)"
    and q: "run_stmt E (sql_shortCodeInsert (si_ID rq) (si_Code rq) (si_Usage rq) (si_Target rq)
        (si_Data rq) (si_Now rq) (si_ExpiresAt rq)) (w1\<lparr>tick := Suc (tick w1)\<rparr>) = (Ret (r # rs), w')"
    using assms unfolding short_code_insert_body_def
    by (auto simp: run_Ret get_context_Ret onError_Ret query_one_Ret simp del: if_split)
  have "\<exists>now. short_codes (db w1) = cleared rq now (short_codes (db w)) \<and>
      db w1 = (db w)\<lparr>short_codes := short_codes (db w1)\<rparr>"
    using c by (auto simp: discardConflicts_def discardExpired_def checkConflicts_def io_Ret
        cleared_def supersede_codes_def sql_discardConflict_def sql_discardExpired_def
        sql_checkConflict_def split: if_splits)
  then show ?thesis
    using q by (auto simp: run_stmt_Ret sql_shortCodeInsert_def new_code_def issued_def Let_def
        split: sum.splits)
qed

lemma code_statement_errors:
  "sql_shortCodeInsert i c u t dt cr ex now d = (Inl e, d') \<Longrightarrow> e = unique_violation \<and> d' = d"
  "sql_discardConflict at cm t u now d \<noteq> (Inl e, d')"
  "sql_discardExpired at cm t u now d \<noteq> (Inl e, d')"
  "sql_checkConflict t u now d \<noteq> (Inl e, d')"
  by (auto simp: sql_shortCodeInsert_def insert_code_def sql_discardConflict_def
      sql_discardExpired_def sql_checkConflict_def Let_def split: if_splits)

lemma raises_run_stmt:
  assumes "\<And>now d e d'. q now d = (Inl e, d') \<Longrightarrow> sentinels_of e \<subseteq> S"
  shows "raises P S (run_stmt E q)"
  unfolding raises_def
proof (intro allI impI)
  fix w e w' assume r: "run_stmt E q w = (Fail e, w')"
  show "sentinels_of e \<subseteq> S"
    by (cases rule: run_stmt_cases [of E q w]) (use r assms in auto)
qed

lemma raises_body: "raises P {ErrShortCodeInsertAlreadyExists} (short_code_insert_body E rq)"
proof -
  let ?q = "sql_shortCodeInsert (si_ID rq) (si_Code rq) (si_Usage rq) (si_Target rq) (si_Data rq)
     (si_Now rq) (si_ExpiresAt rq)"
  have ins: "raises P {ErrShortCodeInsertAlreadyExists}
      (onError (query_one E ?q) (\<lambda>e. fail (Wrap ''execute query'' (code_unique e))))"
    unfolding raises_def
  proof (intro allI impI)
    fix w :: world and e w' assume r: "onError (query_one E ?q)
      (\<lambda>e. fail (Wrap ''execute query'' (code_unique e))) w = (Fail e, w')"
    show "sentinels_of e \<subseteq> {ErrShortCodeInsertAlreadyExists}"
    proof (cases rule: run_stmt_cases [of E ?q w])
      case (infra m)
      with r show ?thesis
        by (cases "run_stmt E ?q w") (auto simp: query_one_def prog_simps)
    next
      case (refused e1 d)
      with r show ?thesis
        using code_statement_errors(1) [OF refused(1)]
        by (auto simp: query_one_def prog_simps) (simp add: unique_violation_def)
    next
      case (finished rs d)
      have "rs \<noteq> []" using finished(1) by (auto simp: sql_shortCodeInsert_def Let_def split: sum.splits)
      with finished r show ?thesis by (auto simp: query_one_def prog_simps scan_one_def split: list.splits)
    qed
  qed
  show ?thesis
    unfolding short_code_insert_body_def discardConflicts_def discardExpired_def checkConflicts_def
    by (intro raises_intros keeps_intros ins raises_run_stmt)
      (auto dest: code_statement_errors(1) simp: code_statement_errors(2-4) sql_keeps_def)
qed

text \<open>An insert outside any transaction, by the way it ends. \<open>infra\<close> covers a commit whose
  acknowledgement was lost.\<close>

lemma body_no_panic [panic_intros]: "panic_free (short_code_insert_body E rq)"
  unfolding short_code_insert_body_def discardConflicts_def discardExpired_def checkConflicts_def
  by (intro panic_intros)

lemma code_insert_cases:
  assumes "tx_contract (x_within_tx_code E)" "\<not> in_tx w"
  obtains (failed) e w' where "dao_ShortCodeInsert E rq w = (Fail e, w')"
      "sentinels_of e \<subseteq> {ErrShortCodeInsertAlreadyExists}"
      "db w' = db w \<or> issued rq (db w) (db w') \<and> sentinels_of e = {}" "\<not> in_tx w'" "jobs w' = jobs w"
  | (inserted) w' where "dao_ShortCodeInsert E rq w = (Ret (new_code rq), w')"
      "issued rq (db w) (db w')" "\<not> in_tx w'" "jobs w' = jobs w"
proof -
  obtain r v where tx: "x_within_tx_code E (short_code_insert_body E rq) w = (r, v)"
    by (cases "x_within_tx_code E (short_code_insert_body E rq) w")
  have run: "dao_ShortCodeInsert E rq w = (wrap_outcome ''run transaction'' r, v)"
    using assms(2) tx by (simp add: dao_ShortCodeInsert_def wrap_def)
  have out: "\<not> in_tx v" "jobs v = jobs w"
    using assms(1) [unfolded tx_contract_def, rule_format, OF assms(2), of "short_code_insert_body E rq"]
    unfolding tx by auto
  show ?thesis
    using assms tx
  proof (cases rule: tx_cases)
    case (committed w0 a w1)
    with body_Ret [OF committed(3)] run out show ?thesis by (intro inserted [of v]) simp_all
  next
    case (rolled_back w0 r0 w1)
    then obtain e where e: "r0 = Fail e" using panic_freeD [OF body_no_panic] by (cases r0) (auto simp: returned_def)
    then have "sentinels_of e \<subseteq> {ErrShortCodeInsertAlreadyExists}"
      using rolled_back raisesD [OF raises_body [of "\<lambda>_. True"]] by blast
    with rolled_back e run out show ?thesis by (intro failed [of "Wrap ''run transaction'' e" v]) simp_all
  next
    case (infrastructure w0 r0 w1 e)
    then have "db v = db w \<or> issued rq (db w) (db v)"
      by (cases r0) (auto simp: returned_def dest: body_Ret)
    with infrastructure run out show ?thesis
      by (intro failed [of "Wrap ''run transaction'' e" v]) simp_all
  qed
qed

text \<open>What issuing does to the codes of the pair, and to the others.\<close>

lemma issued_find:
  assumes "issued rq d d'" "short_codes_ok d" "now < pg_ts0 (si_ExpiresAt rq)"
  shows "find_active (si_Target rq, si_Usage rq) now (short_codes d') = Some (new_code rq)"
    and "p \<noteq> (si_Target rq, si_Usage rq) \<Longrightarrow>
      find_active p now (short_codes d') = find_active p now (short_codes d)"
    and "short_codes_ok d'" and "credentials d' = credentials d"
proof -
  obtain clock rs where i: "insert_code (new_code rq) (cleared rq clock (short_codes d)) = Inr rs"
    and d': "d' = d\<lparr>short_codes := rs\<rparr>"
    using assms(1) by (auto simp: issued_def)
  have ok: "codes_ok (cleared rq clock (short_codes d))"
    using assms(2) by (simp add: short_codes_ok_def cleared_def codes.supersede_invar delete_where_ok)
  have other: "find_active p now (cleared rq clock (short_codes d)) = find_active p now (short_codes d)"
    if "p \<noteq> (si_Target rq, si_Usage rq)" for p
    using that by (auto simp: cleared_def codes.supersede_find expired_match_def intro!: find_delete_other)
  note find = codes.issue_find [OF ok _ i, of _ now]
  show "find_active (si_Target rq, si_Usage rq) now (short_codes d') = Some (new_code rq)"
    using find [of "(si_Target rq, si_Usage rq)"] assms(3) d' by simp
  show "p \<noteq> (si_Target rq, si_Usage rq) \<Longrightarrow>
      find_active p now (short_codes d') = find_active p now (short_codes d)"
    using find [of p] other d' by simp
  show "short_codes_ok d'" using codes.issue_invar [OF ok i] d' by (simp add: short_codes_ok_def)
  show "credentials d' = credentials d" using d' by simp
qed

text \<open>Without faults, an override is refused only for an identifier already in use.\<close>

lemma cleared_override:
  assumes "si_Override rq" "s_id (new_code rq) \<notin> set (map s_id rs)"
  shows "insert_code (new_code rq) (cleared rq now rs) = Inr (cleared rq now rs @ [new_code rq])"
proof -
  have "(si_Target rq, si_Usage rq) \<notin> set (map pair_of (filter live (cleared rq now rs)))"
    using assms(1)
    by (auto simp: cleared_def supersede_codes_def live_delete conflict_match_def undeleted_at_def live_def)
  moreover have "set (map s_id (cleared rq now rs)) = set (map s_id rs)"
    by (simp add: cleared_def supersede_codes_def del: set_map)
  ultimately show ?thesis
    using assms(2) unfolding insert_code_Inr by (simp del: set_map)
qed

section \<open>Sentinels\<close>

lemma raises_codes:
  "raises P {ErrNoRows, ErrShortCodeSelectNotFound} (dao_ShortCodeSelect E a)"
  "raises P {ErrNoRows, ErrShortCodeDeleteNotFound} (dao_ShortCodeDelete E b)"
  unfolding dao_ShortCodeSelect_def dao_ShortCodeDelete_def
  by (rule raises_dao_query [OF code_no_rows_opaque];
      auto simp: sql_shortCodeSelect_def sql_shortCodeDelete_def)+

lemma frames_codes [frame_intros]: "frames (dao_ShortCodeSelect E a)" "frames (dao_ShortCodeDelete E b)"
  unfolding dao_ShortCodeSelect_def dao_ShortCodeDelete_def by (intro frame_intros)+

lemma insert_keeps_jobs:
  assumes "tx_contract (x_within_tx_code E)"
  shows "keeps_jobs js Not (dao_ShortCodeInsert E rq)"
proof (rule keepsI)
  fix w :: world assume "jobs w = js \<and> \<not> in_tx w"
  then show "jobs (snd (dao_ShortCodeInsert E rq w)) = js \<and> \<not> in_tx (snd (dao_ShortCodeInsert E rq w))"
    using keepsD [OF tx_keeps_jobs [OF assms], of w js] by (simp add: dao_ShortCodeInsert_def)
qed

lemma raises_code_insert:
  assumes "tx_contract (x_within_tx_code E)"
  shows "raises Not {ErrShortCodeInsertAlreadyExists} (dao_ShortCodeInsert E rq)"
  unfolding raises_def
proof (intro allI impI)
  fix w :: world and e w' assume a: "\<not> in_tx w" "dao_ShortCodeInsert E rq w = (Fail e, w')"
  from assms a(1) show "sentinels_of e \<subseteq> {ErrShortCodeInsertAlreadyExists}"
    by (cases rule: code_insert_cases [of E w rq]) (use a(2) in auto)
qed

lemma dao_codes_flag [keeps_intros]:
  "tx_contract (x_within_tx_code E) \<Longrightarrow> keeps_db (\<lambda>_. True) Not (dao_ShortCodeInsert E rq)"
proof -
  assume tx: "tx_contract (x_within_tx_code E)"
  have "keeps_db (\<lambda>_. True) (\<lambda>_. True) (short_code_insert_body E rq)" by (simp add: keeps_def)
  from keeps_code_insert [OF tx this] show ?thesis by simp
qed

lemmas raises_codes_sub [raises_intros] = raises_mono [OF raises_codes(1)] raises_mono [OF raises_codes(2)]

lemmas codes_flag [keeps_intros] = frames_codes [THEN frames_flag]

end
