(* ===== verification/ShortCodeService.thy ===== *)
theory ShortCodeService
  imports Validate Passwords DaoShortCode
begin

text \<open>
  The short-code services of \<open>internal/core\<close>: issuing a code (\<open>shortCodeCreate.go\<close>), redeeming it
  (\<open>shortCodeConsume.go\<close>), and the three flows that issue one and hand a mail to a detached
  goroutine (\<open>shortCodeCreateEmailUpdate.go\<close>, \<open>shortCodeCreatePasswordReset.go\<close>,
  \<open>shortCodeCreateRegister.go\<close>). The goroutine's mail is a job of the world.
\<close>

record ShortCode =
  sc_ID :: uuid
  sc_Usage :: string
  sc_Target :: string
  sc_Data :: "string option"
  sc_CreatedAt :: time
  sc_ExpiresAt :: time
  sc_PlainCode :: string

definition to_ShortCode :: "dao_short_code \<Rightarrow> string \<Rightarrow> ShortCode" where
  "to_ShortCode entity plainCode =
     \<lparr>sc_ID = s_id entity, sc_Usage = s_usage entity, sc_Target = s_target entity,
      sc_Data = s_data entity, sc_CreatedAt = s_created_at entity,
      sc_ExpiresAt = s_expires_at entity, sc_PlainCode = plainCode\<rparr>"

section \<open>Redeeming a code\<close>

record ShortCodeConsumeRequest =
  sco_Usage :: string
  sco_Target :: string
  sco_Code :: string

definition consume_struct :: "ShortCodeConsumeRequest \<Rightarrow> struct" where
  "consume_struct r =
     [(FStr (sco_Usage r), [Required, TagUsage]),
      (FStr (sco_Target r), [Required, Max 1024]),
      (FStr (sco_Code r), [Required, Max 1024])]"

definition core_ShortCodeConsume :: "ext \<Rightarrow> ShortCodeConsumeRequest \<Rightarrow> ShortCode io" where
  "core_ShortCodeConsume E request =
     andThen (validate E (consume_struct request)) (\<lambda>_.
     andThen (onError (dao_ShortCodeSelect E
           \<lparr>ss_Usage = sco_Usage request, ss_Target = sco_Target request\<rparr>)
         (\<lambda>err. if errors_is err ErrShortCodeSelectNotFound
                then andThen (DummyCompareArgon2 E (sco_Code request)) (\<lambda>_. fail err)
                else fail err)) (\<lambda>entity.
     andThen (ask (x_now E)) (\<lambda>now.
     if s_expires_at entity < now then fail (Sentinel ErrShortCodeConsumeExpired)
     else
     andThen (onError (io_CompareArgon2 E (sco_Code request) (s_code entity))
         (\<lambda>err. fail (Join [Wrap ''compare short code'' err, Sentinel ErrShortCodeConsumeInvalid]))) (\<lambda>_.
     andThen (ask (x_now E)) (\<lambda>now.
     andThen (dao_ShortCodeDelete E
         \<lparr>sd_ID = s_id entity, sd_Now = now, sd_Comment = ShortCodeDeleteConsumed\<rparr>) (\<lambda>_.
     ret (to_ShortCode entity (sco_Code request))))))))"

section \<open>Issuing a code\<close>

record ShortCodeCreateRequest =
  scc_Usage :: string
  scc_Target :: string
  scc_Data :: "string option"
  scc_TTL :: time
  scc_Override :: bool

definition create_struct :: "ShortCodeCreateRequest \<Rightarrow> struct" where
  "create_struct r =
     [(FStr (scc_Usage r), [Required, TagUsage]),
      (FStr (scc_Target r), [Required, Max 1024]),
      (FNum (scc_TTL r), [Required])]"

definition core_ShortCodeCreate :: "ext \<Rightarrow> ShortCodes \<Rightarrow> ShortCodeCreateRequest \<Rightarrow> ShortCode io" where
  "core_ShortCodeCreate E config request =
     andThen (validate E (create_struct request)) (\<lambda>_.
     andThen (wrap ''generate short code'' (NewRandomURLString E (Size config))) (\<lambda>plainCode.
     andThen (wrap ''encrypt short code'' (io_GenerateArgon2 E plainCode)) (\<lambda>encrypted.
     andThen (wrap ''serialize data''
         (case scc_Data request of None \<Rightarrow> ret None
          | Some d \<Rightarrow> lift (map_outcome_ret (\<lambda>s. Ret (Some s)) (go_result (x_json_marshal E d))))) (\<lambda>serializedData.
     andThen (ask (x_now E)) (\<lambda>now.
     andThen (ask (x_uuid_new E)) (\<lambda>i.
     andThen (dao_ShortCodeInsert E
         \<lparr>si_ID = i, si_Code = encrypted, si_Usage = scc_Usage request, si_Target = scc_Target request,
          si_Data = serializedData, si_Now = now, si_ExpiresAt = now + scc_TTL request,
          si_Override = scc_Override request\<rparr>) (\<lambda>entity.
     ret (to_ShortCode entity plainCode))))))))"

section \<open>The three flows\<close>

text \<open>\<open>service.wg.Add(1); go service.sendMail(...)\<close>: the job is counted before the goroutine starts.\<close>

definition go_send :: "mail_job \<Rightarrow> unit io" where
  "go_send j = (\<lambda>w. (Ret (), w\<lparr>jobs := jobs w @ [j]\<rparr>))"

record ShortCodeCreateEmailUpdateRequest =
  sceu_ID :: uuid
  sceu_Email :: string
  sceu_Lang :: string

definition email_update_struct :: "ShortCodeCreateEmailUpdateRequest \<Rightarrow> struct" where
  "email_update_struct r =
     [(FStr (sceu_Email r), [Required, Email, Max 1024]), (FStr (sceu_Lang r), [Required, TagLangs])]"

definition mail_EmailUpdate ::
    "ext \<Rightarrow> ShortCodes \<Rightarrow> SmtpUrls \<Rightarrow> ShortCodeCreateEmailUpdateRequest \<Rightarrow> ShortCode \<Rightarrow> mail_job" where
  "mail_EmailUpdate E cfg urls request shortCode =
     \<lparr>mj_service = MailEmailUpdate, mj_to = sceu_Email request, mj_lang = sceu_Lang request,
      mj_data =
        [(''ShortCode'', MStr (sc_PlainCode shortCode)),
         (''Target'', MStr (x_uuid_string E (sceu_ID request))),
         (''Source'', MStr (b64_encode url_alphabet (sceu_Email request))),
         (''URL'', MStr (UpdateEmail urls)),
         (''Duration'', MHours (usage_ttl cfg ShortCodeUsageValidateEmail)),
         (''Banner'', MStr (x_banner E)),
         (''_Purpose'', MStr ''email-update'')]\<rparr>"

definition core_ShortCodeCreateEmailUpdate ::
    "ext \<Rightarrow> ShortCodes \<Rightarrow> SmtpUrls \<Rightarrow> ShortCodeCreateEmailUpdateRequest \<Rightarrow> ShortCode io" where
  "core_ShortCodeCreateEmailUpdate E cfg urls request =
     andThen (validate E (email_update_struct request)) (\<lambda>_.
     andThen (onError (andThen (dao_CredentialsSelectByEmail E (sceu_Email request)) (\<lambda>_. ret True))
         (\<lambda>err. if errors_is err ErrCredentialsSelectByEmailNotFound then ret False
                else fail (Wrap ''check existing email'' err))) (\<lambda>exists.
     if exists then fail (Sentinel ErrCredentialsUpdateEmailAlreadyExists)
     else
     andThen (wrap ''create short code'' (core_ShortCodeCreate E cfg
         \<lparr>scc_Usage = ShortCodeUsageValidateEmail, scc_Target = x_uuid_string E (sceu_ID request),
          scc_Data = Some (sceu_Email request), scc_TTL = usage_ttl cfg ShortCodeUsageValidateEmail,
          scc_Override = True\<rparr>)) (\<lambda>shortCode.
     andThen (go_send (mail_EmailUpdate E cfg urls request shortCode)) (\<lambda>_.
     ret shortCode))))"

record ShortCodeCreatePasswordResetRequest =
  scpr_Email :: string
  scpr_Lang :: string

definition password_reset_struct :: "ShortCodeCreatePasswordResetRequest \<Rightarrow> struct" where
  "password_reset_struct r =
     [(FStr (scpr_Email r), [Required, Email, Max 1024]), (FStr (scpr_Lang r), [Required, TagLangs])]"

definition mail_PasswordReset ::
    "ext \<Rightarrow> ShortCodes \<Rightarrow> SmtpUrls \<Rightarrow> ShortCodeCreatePasswordResetRequest \<Rightarrow> uuid \<Rightarrow> ShortCode \<Rightarrow> mail_job" where
  "mail_PasswordReset E cfg urls request userID shortCode =
     \<lparr>mj_service = MailPasswordReset, mj_to = scpr_Email request, mj_lang = scpr_Lang request,
      mj_data =
        [(''ShortCode'', MStr (sc_PlainCode shortCode)),
         (''Target'', MStr (x_uuid_string E userID)),
         (''URL'', MStr (UpdatePassword urls)),
         (''Duration'', MHours (usage_ttl cfg ShortCodeUsageResetPassword)),
         (''Banner'', MStr (x_banner E)),
         (''_Purpose'', MStr ''password-reset'')]\<rparr>"

definition core_ShortCodeCreatePasswordReset ::
    "ext \<Rightarrow> ShortCodes \<Rightarrow> SmtpUrls \<Rightarrow> ShortCodeCreatePasswordResetRequest \<Rightarrow> ShortCode io" where
  "core_ShortCodeCreatePasswordReset E cfg urls request =
     andThen (validate E (password_reset_struct request)) (\<lambda>_.
     andThen (wrap ''check email existence'' (dao_CredentialsSelectByEmail E (scpr_Email request))) (\<lambda>row.
     andThen (wrap ''create short code'' (core_ShortCodeCreate E cfg
         \<lparr>scc_Usage = ShortCodeUsageResetPassword, scc_Target = x_uuid_string E (c_id row),
          scc_Data = None, scc_TTL = usage_ttl cfg ShortCodeUsageResetPassword,
          scc_Override = True\<rparr>)) (\<lambda>shortCode.
     andThen (go_send (mail_PasswordReset E cfg urls request (c_id row) shortCode)) (\<lambda>_.
     ret shortCode))))"

record ShortCodeCreateRegisterRequest =
  scr_Email :: string
  scr_Lang :: string

definition register_struct :: "ShortCodeCreateRegisterRequest \<Rightarrow> struct" where
  "register_struct r =
     [(FStr (scr_Email r), [Required, Email, Max 1024]), (FStr (scr_Lang r), [Required, TagLangs])]"

definition mail_Register ::
    "ext \<Rightarrow> ShortCodes \<Rightarrow> SmtpUrls \<Rightarrow> ShortCodeCreateRegisterRequest \<Rightarrow> ShortCode \<Rightarrow> mail_job" where
  "mail_Register E cfg urls request shortCode =
     \<lparr>mj_service = MailRegister, mj_to = scr_Email request, mj_lang = scr_Lang request,
      mj_data =
        [(''ShortCode'', MStr (sc_PlainCode shortCode)),
         (''Target'', MStr (b64_encode url_alphabet (scr_Email request))),
         (''URL'', MStr (Register urls)),
         (''Duration'', MHours (usage_ttl cfg ShortCodeUsageRegister)),
         (''Banner'', MStr (x_banner E)),
         (''_Purpose'', MStr ''register'')]\<rparr>"

definition core_ShortCodeCreateRegister ::
    "ext \<Rightarrow> ShortCodes \<Rightarrow> SmtpUrls \<Rightarrow> ShortCodeCreateRegisterRequest \<Rightarrow> ShortCode io" where
  "core_ShortCodeCreateRegister E cfg urls request =
     andThen (validate E (register_struct request)) (\<lambda>_.
     andThen (onError (andThen (dao_CredentialsSelectByEmail E (scr_Email request)) (\<lambda>_. ret True))
         (\<lambda>err. if errors_is err ErrCredentialsSelectByEmailNotFound then ret False
                else fail (Wrap ''check existing email'' err))) (\<lambda>exists.
     if exists then fail (Sentinel ErrCredentialsInsertAlreadyExists)
     else
     andThen (wrap ''create short code'' (core_ShortCodeCreate E cfg
         \<lparr>scc_Usage = ShortCodeUsageRegister, scc_Target = scr_Email request,
          scc_Data = None, scc_TTL = usage_ttl cfg ShortCodeUsageRegister,
          scc_Override = True\<rparr>)) (\<lambda>shortCode.
     andThen (go_send (mail_Register E cfg urls request shortCode)) (\<lambda>_.
     ret shortCode))))"

section \<open>Redemption\<close>

lemma consume_Ret:
  assumes "core_ShortCodeConsume E rq w = (Ret sc, w')" "short_codes_ok (db w)"
  obtains row clock1 clock2 now where
    "struct_valid E (consume_struct rq)"
    "find_active (sco_Target rq, sco_Usage rq) clock1 (short_codes (db w)) = Some row"
    "active_at clock2 row"
    "CompareArgon2 (x_idkey E) (x_argon_version E) (sco_Code rq) (s_code row) = Ret ()"
    "sc = to_ShortCode row (sco_Code rq)"
    "db w' = (db w)\<lparr>short_codes :=
       retire_code (s_id row) clock2 now ShortCodeDeleteConsumed (short_codes (db w))\<rparr>"
proof -
  have h: "(if errors_is e ErrShortCodeSelectNotFound
      then andThen (DummyCompareArgon2 E (sco_Code rq)) (\<lambda>_. fail e) else fail e) v \<noteq> (Ret (r :: dao_short_code), v')"
    for e v r v'
    by (auto simp: run_Ret)
  obtain row w1 w4 del where v: "struct_valid E (consume_struct rq)"
    and s: "dao_ShortCodeSelect E \<lparr>ss_Usage = sco_Usage rq, ss_Target = sco_Target rq\<rparr> w = (Ret row, w1)"
    and c': "io_CompareArgon2 E (sco_Code rq) (s_code row) (w1\<lparr>tick := Suc (tick w1)\<rparr>) = (Ret (), w4)"
    and d': "dao_ShortCodeDelete E \<lparr>sd_ID = s_id row, sd_Now = x_now E (tick w4),
        sd_Comment = ShortCodeDeleteConsumed\<rparr> (w4\<lparr>tick := Suc (tick w4)\<rparr>) = (Ret del, w')"
    and sc: "sc = to_ShortCode row (sco_Code rq)"
    using assms(1)
    by (auto simp: core_ShortCodeConsume_def run_Ret ask_Ret validate_Ret onError_fail_Ret [OF h]
        onError_fail_Ret simp del: ask_run split: if_splits)
  let ?w2 = "w4\<lparr>tick := Suc (tick w4)\<rparr>"
  let ?now = "x_now E (tick w4)"
  have c: "CompareArgon2 (x_idkey E) (x_argon_version E) (sco_Code rq) (s_code row) = Ret ()"
    "db ?w2 = db w1"
    using c' by (auto simp: io_CompareArgon2_def)
  from s have s': "db w1 = db w" "\<exists>clock1. find_active (sco_Target rq, sco_Usage rq) clock1 (short_codes (db w)) = Some row"
    by (cases rule: select_code_cases [of E "\<lparr>ss_Usage = sco_Usage rq, ss_Target = sco_Target rq\<rparr>" w]; auto)+
  then obtain clock1 where f: "find_active (sco_Target rq, sco_Usage rq) clock1 (short_codes (db w)) = Some row" by blast
  have ok: "codes_ok (short_codes (db w))" using assms(2) by (simp add: short_codes_ok_def)
  then have row: "row \<in> set (short_codes (db w))" using f by (simp add: find_active_Some)
  from d' show thesis
  proof (cases rule: delete_code_cases [of E "\<lparr>sd_ID = s_id row, sd_Now = ?now, sd_Comment = ShortCodeDeleteConsumed\<rparr>" ?w2])
    case (retired clock2 r v)
    then have "r \<in> set (short_codes (db w))" "s_id r = s_id row" using c(2) s'(1) by simp_all
    with row ok have "r = row" by (auto simp: codes_ok_def distinct_map inj_on_def)
    with retired d' s' v f c sc show thesis by (intro that [of clock1 row clock2 ?now]) auto
  qed (use d' in auto)
qed

text \<open>A failed redemption leaves the tables alone, unless the answer of the deletion was lost.\<close>

lemma consume_Fail:
  assumes "core_ShortCodeConsume E rq w = (Fail e, w')"
  shows "db w' = db w \<or> sentinels_of e = {} \<and> \<not> healthy E \<and>
    (\<exists>i clock now. db w' = (db w)\<lparr>short_codes :=
        retire_code i clock now ShortCodeDeleteConsumed (short_codes (db w))\<rparr>)"
proof -
  let ?sel = "dao_ShortCodeSelect E \<lparr>ss_Usage = sco_Usage rq, ss_Target = sco_Target rq\<rparr>"
  show ?thesis
  proof (cases "struct_valid E (consume_struct rq)")
    case False
    with assms show ?thesis by (auto simp: core_ShortCodeConsume_def andThen_def validate_run)
  next
    case valid: True
    show ?thesis
    proof (cases rule: select_code_cases [of E "\<lparr>ss_Usage = sco_Usage rq, ss_Target = sco_Target rq\<rparr>" w])
      case (infra e1 w1)
      then have "db w' = db w1"
        using assms valid
        by (auto simp: core_ShortCodeConsume_def andThen_def validate_run onError_def errors_is_sentinels)
      with infra show ?thesis by simp
    next
      case (missing now e1 w1)
      obtain r w2 where dmy: "DummyCompareArgon2 E (sco_Code rq) w1 = (r, w2)"
        by (cases "DummyCompareArgon2 E (sco_Code rq) w1")
      then have "db w2 = db w1" using dummy_db(1) [of E "sco_Code rq" w1] by simp
      moreover have "w' = w2"
        using assms valid missing dmy
        by (cases r) (auto simp: core_ShortCodeConsume_def andThen_def validate_run onError_def errors_is_sentinels)
      ultimately show ?thesis using missing by simp
    next
      case (found clock row w1)
      let ?w1 = "w1\<lparr>tick := Suc (tick w1)\<rparr>"
      obtain r w2 where c: "io_CompareArgon2 E (sco_Code rq) (s_code row) ?w1 = (r, w2)"
        by (cases "io_CompareArgon2 E (sco_Code rq) (s_code row) ?w1")
      then have db2: "db w2 = db w" using password_db(4) [of E "sco_Code rq" "s_code row" ?w1] found by simp
      let ?rq = "\<lparr>sd_ID = s_id row, sd_Now = x_now E (tick w2), sd_Comment = ShortCodeDeleteConsumed\<rparr>"
      have run: "core_ShortCodeConsume E rq w =
          (if s_expires_at row < x_now E (tick w1) then (Fail (Sentinel ErrShortCodeConsumeExpired), ?w1)
           else case r of
             Fail e \<Rightarrow> (Fail (Join [Wrap ''compare short code'' e, Sentinel ErrShortCodeConsumeInvalid]), w2)
           | Panic p \<Rightarrow> (Panic p, w2)
           | Ret u \<Rightarrow> (case dao_ShortCodeDelete E ?rq (w2\<lparr>tick := Suc (tick w2)\<rparr>) of
                 (Ret d, w3) \<Rightarrow> (Ret (to_ShortCode row (sco_Code rq)), w3)
               | (Fail e, w3) \<Rightarrow> (Fail e, w3) | (Panic p, w3) \<Rightarrow> (Panic p, w3)))"
        using valid found c
        by (auto simp: core_ShortCodeConsume_def andThen_def validate_run onError_def split: outcome.split prod.split)
      show ?thesis
      proof (cases "s_expires_at row < x_now E (tick w1)")
        case True
        then show ?thesis using run assms found by auto
      next
        case False
        show ?thesis
        proof (cases r)
          case (Ret u)
          show ?thesis
          proof (cases rule: delete_code_cases [of E ?rq "w2\<lparr>tick := Suc (tick w2)\<rparr>"])
            case (infra e1 w3)
            then show ?thesis using run False Ret assms db2 by auto
          qed (use run False Ret assms db2 in auto)
        qed (use run False assms db2 in auto)
      qed
    qed
  qed
qed

lemma consume_keeps [keeps_intros]:
  assumes "\<And>t u. sql_keeps I (sql_shortCodeSelect t u)" "\<And>at c i. sql_keeps I (sql_shortCodeDelete at c i)"
  shows "keeps_db I P (core_ShortCodeConsume E rq)"
  unfolding core_ShortCodeConsume_def dao_ShortCodeSelect_def dao_ShortCodeDelete_def
  by (intro keeps_intros validate_rules(1) assms)

lemma consume_keeps_jobs: "keeps_jobs js P (core_ShortCodeConsume E rq)"
  unfolding core_ShortCodeConsume_def
  by (intro keeps_intros frames_keep_jobs frame_intros)

definition consume_errors :: "sentinel set" where
  "consume_errors = {ErrInvalidRequest, ErrNoRows, ErrShortCodeSelectNotFound, ErrShortCodeConsumeExpired,
     ErrShortCodeConsumeInvalid, ErrInvalidHash, ErrIncompatibleVersion, ErrInvalidPassword,
     ErrShortCodeDeleteNotFound}"

lemma raises_consume: "raises P consume_errors (core_ShortCodeConsume E rq)"
  unfolding core_ShortCodeConsume_def
  by (intro raises_intros keeps_intros
      raises_onError [OF raises_codes(1)] raises_onError [OF raises_compare])
    (auto simp: consume_errors_def)

text \<open>A redeemed code is spent: whatever the clocks, the pair has no active code left.\<close>

lemma consume_spent:
  assumes "core_ShortCodeConsume E rq w = (Ret sc, w')" "short_codes_ok (db w)"
  shows "find_active (sco_Target rq, sco_Usage rq) now (short_codes (db w')) = None"
    and "p \<noteq> (sco_Target rq, sco_Usage rq) \<Longrightarrow>
      find_active p now (short_codes (db w')) = find_active p now (short_codes (db w))"
    and "credentials (db w') = credentials (db w)" and "short_codes_ok (db w')"
proof -
  from assms obtain row clock1 clock2 at where
    f: "find_active (sco_Target rq, sco_Usage rq) clock1 (short_codes (db w)) = Some row"
    and a: "active_at clock2 row"
    and d: "db w' = (db w)\<lparr>short_codes :=
       retire_code (s_id row) clock2 at ShortCodeDeleteConsumed (short_codes (db w))\<rparr>"
    by (rule consume_Ret)
  have ok: "codes_ok (short_codes (db w))" using assms(2) by (simp add: short_codes_ok_def)
  have row: "row \<in> set (short_codes (db w))" "pair_of row = (sco_Target rq, sco_Usage rq)"
    using f ok by (simp_all add: find_active_Some)
  have live: "live row" using a by (simp add: active_at_def)
  have same: "r = row" if "r \<in> set (short_codes (db w))" "s_id r = s_id row" for r
    using that row ok by (auto simp: codes_ok_def distinct_map inj_on_def)
  have only: "r = row" if "r \<in> set (short_codes (db w))" "live r" "pair_of r = pair_of row" for r
    using that row live ok by (auto simp: codes_ok_def distinct_map inj_on_def)
  have match: "retire_match (s_id row) clock2 row" using a by (simp add: retire_match_def)
  show "find_active (sco_Target rq, sco_Usage rq) now (short_codes (db w')) = None"
    unfolding find_active_None d using only row match
    by (auto simp: retire_code_def delete_where_def active_at_def split: if_splits)
  show "find_active p now (short_codes (db w')) = find_active p now (short_codes (db w))"
    if "p \<noteq> (sco_Target rq, sco_Usage rq)"
  proof -
    have "\<not> retire_match (s_id row) clock2 r" if "r \<in> set (short_codes (db w))" "pair_of r = p" for r
      using same [OF that(1)] that(2) \<open>p \<noteq> _\<close> row(2) by (auto simp: retire_match_def)
    then show ?thesis by (simp add: d retire_code_def find_delete_other)
  qed
  show "credentials (db w') = credentials (db w)" by (simp add: d)
  show "short_codes_ok (db w')"
    using ok by (simp add: d short_codes_ok_def codes.retire_invar)
qed

section \<open>Issuing\<close>

text \<open>What the validation of a creation request guarantees.\<close>

definition insert_request ::
    "ShortCodeCreateRequest \<Rightarrow> uuid \<Rightarrow> string \<Rightarrow> string option \<Rightarrow> time \<Rightarrow> ShortCodeInsertRequest" where
  "insert_request rq i encrypted data now =
     \<lparr>si_ID = i, si_Code = encrypted, si_Usage = scc_Usage rq, si_Target = scc_Target rq,
      si_Data = data, si_Now = now, si_ExpiresAt = now + scc_TTL rq, si_Override = scc_Override rq\<rparr>"

lemma insert_request_simps [simp]:
  "si_ID (insert_request rq i enc d n) = i" "si_Code (insert_request rq i enc d n) = enc"
  "si_Usage (insert_request rq i enc d n) = scc_Usage rq"
  "si_Target (insert_request rq i enc d n) = scc_Target rq"
  "si_Data (insert_request rq i enc d n) = d" "si_Now (insert_request rq i enc d n) = n"
  "si_ExpiresAt (insert_request rq i enc d n) = n + scc_TTL rq"
  "si_Override (insert_request rq i enc d n) = scc_Override rq"
  by (simp_all add: insert_request_def)

definition marshalled :: "ext \<Rightarrow> string option \<Rightarrow> string option outcome" where
  "marshalled E data = (case data of None \<Rightarrow> Ret None
     | Some d \<Rightarrow> map_outcome_ret (\<lambda>s. Ret (Some s)) (go_result (x_json_marshal E d)))"

lemma create_Ret:
  assumes "core_ShortCodeCreate E cfg rq w = (Ret sc, w')" "tx_contract (x_within_tx_code E)"
    "\<not> in_tx w" "rand_contract E"
  obtains i enc data now where
    "struct_valid E (create_struct rq)"
    "sc = to_ShortCode (new_code (insert_request rq i enc data now)) (sc_PlainCode sc)"
    "generated_hash E (sc_PlainCode sc) enc"
    "int (length (sc_PlainCode sc)) = Size cfg" "set (sc_PlainCode sc) \<subseteq> set URLCharList"
    "marshalled E (scc_Data rq) = Ret data"
    "issued (insert_request rq i enc data now) (db w) (db w')"
    "\<not> in_tx w'" "jobs w' = jobs w" "now \<in> range (x_now E)"
proof -
  obtain plain w1 enc w2 data w3 entity where v: "struct_valid E (create_struct rq)"
    and r: "NewRandomURLString E (Size cfg) w = (Ret plain, w1)"
    and g: "io_GenerateArgon2 E plain w1 = (Ret enc, w2)"
    and m: "(case scc_Data rq of None \<Rightarrow> ret None
          | Some d \<Rightarrow> lift (map_outcome_ret (\<lambda>s. Ret (Some s)) (go_result (x_json_marshal E d)))) w2 = (Ret data, w3)"
    and i: "dao_ShortCodeInsert E (insert_request rq (x_uuid_new E (Suc (tick w3))) enc data (x_now E (tick w3)))
        (w3\<lparr>tick := Suc (Suc (tick w3))\<rparr>) = (Ret entity, w')"
    and sc: "sc = to_ShortCode entity plain"
    using assms(1)
    by (auto simp: core_ShortCodeCreate_def run_Ret ask_Ret validate_Ret insert_request_def
        simp del: ask_run)
  have w3: "w3 = w2" "marshalled E (scc_Data rq) = Ret data"
    using m by (auto simp: marshalled_def split: option.splits)
  have w1: "db w1 = db w" "frame w w1" "int (length plain) = Size cfg" "set plain \<subseteq> set URLCharList"
    using r random_chars_length [OF assms(4)] framesD [OF frames_random(3) r]
    by (auto simp: NewRandomURLString_def split: if_splits)
  note w2 = io_Generate_Ret [OF g]
  have out: "\<not> in_tx (w3\<lparr>tick := Suc (Suc (tick w3))\<rparr>)"
    using w1 w2 w3 assms(3) by (simp add: frame_def)
  show thesis
    using assms(2) out
  proof (cases rule: code_insert_cases [of E "w3\<lparr>tick := Suc (Suc (tick w3))\<rparr>"
        "insert_request rq (x_uuid_new E (Suc (tick w3))) enc data (x_now E (tick w3))"])
    case (failed e v)
    with i show ?thesis by simp
  next
    case (inserted v)
    with i sc v w1 w2 w3 io_generated [OF g] show ?thesis
      by (intro that [of "x_uuid_new E (Suc (tick w3))" enc data "x_now E (tick w3)"])
        (auto simp: to_ShortCode_def frame_def)
  qed
qed

lemma create_Fail:
  assumes "core_ShortCodeCreate E cfg rq w = (Fail e, w')" "tx_contract (x_within_tx_code E)" "\<not> in_tx w"
  shows "db w' = db w \<or> sentinels_of e = {} \<and> (\<exists>irq. issued irq (db w) (db w') \<and>
      si_Target irq = scc_Target rq \<and> si_Usage irq = scc_Usage rq)"
proof -
  show ?thesis
  proof (cases "\<exists>irq w1. db w1 = db w \<and> \<not> in_tx w1 \<and> dao_ShortCodeInsert E irq w1 = (Fail e, w') \<and>
      si_Target irq = scc_Target rq \<and> si_Usage irq = scc_Usage rq")
    case True
    then obtain irq w1 where i: "db w1 = db w" "\<not> in_tx w1" "dao_ShortCodeInsert E irq w1 = (Fail e, w')"
      "si_Target irq = scc_Target rq" "si_Usage irq = scc_Usage rq" by blast
    show ?thesis
      using assms(2) i(2) by (cases rule: code_insert_cases [of E w1 irq]) (use i in auto)
  next
    case False
    show ?thesis
    proof (cases "struct_valid E (create_struct rq)")
      case False
      with assms(1) show ?thesis by (auto simp: core_ShortCodeCreate_def andThen_def validate_run)
    next
      case valid: True
      obtain r1 w1 where r: "NewRandomURLString E (Size cfg) w = (r1, w1)"
        by (cases "NewRandomURLString E (Size cfg) w")
      have w1: "db w1 = db w" "in_tx w1 = in_tx w"
        using keepsD [OF keeps_random(3) [of "\<lambda>d. d = db w" "\<lambda>b. b = in_tx w" E "Size cfg"], of w] r by simp_all
      show ?thesis
      proof (cases r1)
        case (Ret plain)
        obtain r2 w2 where g: "io_GenerateArgon2 E plain w1 = (r2, w2)"
          by (cases "io_GenerateArgon2 E plain w1")
        have w2: "db w2 = db w" "in_tx w2 = in_tx w"
          using password_db(1,2) [of E plain w1] g w1 by simp_all
        show ?thesis
        proof (cases r2)
          case (Ret enc)
          let ?m = "marshalled E (scc_Data rq)"
          have mm: "(case scc_Data rq of None \<Rightarrow> ret None
            | Some d \<Rightarrow> lift (map_outcome_ret (\<lambda>s. Ret (Some s)) (go_result (x_json_marshal E d)))) w2 = (?m, w2)"
            by (simp add: marshalled_def split: option.split)
          show ?thesis
          proof (cases ?m)
            case m: (Ret data)
            let ?irq = "insert_request rq (x_uuid_new E (Suc (tick w2))) enc data (x_now E (tick w2))"
            let ?w3 = "w2\<lparr>tick := Suc (Suc (tick w2))\<rparr>"
            have "dao_ShortCodeInsert E ?irq ?w3 = (Fail e, w')"
              using assms(1) valid r \<open>r1 = Ret plain\<close> g Ret mm m
              by (cases "dao_ShortCodeInsert E ?irq ?w3")
                (auto simp: core_ShortCodeCreate_def andThen_def validate_run wrap_def insert_request_def
                  split: outcome.splits)
            then have False using False w2 assms(3) by (auto dest!: spec [of _ ?irq] spec [of _ ?w3])
            then show ?thesis ..
          qed (use assms(1) valid r \<open>r1 = Ret plain\<close> g Ret mm w2 in
              \<open>auto simp: core_ShortCodeCreate_def andThen_def validate_run wrap_def\<close>)
        qed (use assms(1) valid r Ret g w2 in
            \<open>auto simp: core_ShortCodeCreate_def andThen_def validate_run wrap_def\<close>)
      qed (use assms(1) valid r w1 in
          \<open>auto simp: core_ShortCodeCreate_def andThen_def validate_run wrap_def\<close>)
    qed
  qed
qed

lemma raises_random [raises_intros]: "raises P S (NewRandomURLString E n)"
proof -
  have "raises P S (draw_char E)"
    unfolding draw_char_def by (intro raises_intros keeps_intros) (simp add: raises_def)
  then have "raises P S (random_chars E k)" for k
    by (induction k) (auto simp only: random_chars.simps intro!: raises_intros keeps_intros)
  then show ?thesis
    unfolding NewRandomURLString_def by (intro raises_intros) (simp_all add: raises_def)
qed

lemma marshal_rules:
  "keeps I (lift (map_outcome_ret (\<lambda>s. Ret (Some s)) (go_result r)))"
  "raises P S (lift (map_outcome_ret (\<lambda>s. Ret (Some s)) (go_result r)))"
  by (cases r; simp add: keeps_def raises_def)+

lemma create_keeps_ok:
  assumes "tx_contract (x_within_tx_code E)"
  shows "keeps_db short_codes_ok Not (core_ShortCodeCreate E cfg rq)"
    and "keeps_db (\<lambda>d. credentials d = cs) Not (core_ShortCodeCreate E cfg rq)"
    and "keeps_db (\<lambda>_. True) Not (core_ShortCodeCreate E cfg rq)"
    and "keeps_jobs js Not (core_ShortCodeCreate E cfg rq)"
proof -
  note ins = dao_codes_keep [OF assms, of Not] dao_codes_flag [OF assms] insert_keeps_jobs [OF assms]
  show "keeps_db short_codes_ok Not (core_ShortCodeCreate E cfg rq)"
    "keeps_db (\<lambda>d. credentials d = cs) Not (core_ShortCodeCreate E cfg rq)"
    "keeps_db (\<lambda>_. True) Not (core_ShortCodeCreate E cfg rq)"
    unfolding core_ShortCodeCreate_def
    by (intro keeps_intros ins marshal_rules(1); simp)+
  show "keeps_jobs js Not (core_ShortCodeCreate E cfg rq)"
    unfolding core_ShortCodeCreate_def
    by (intro keeps_intros ins marshal_rules(1) frames_keep_jobs [OF frames_random(3)]
        frames_keep_jobs [OF frames_ask(1)])
qed

definition create_errors :: "sentinel set" where
  "create_errors = {ErrInvalidRequest, ErrShortCodeInsertAlreadyExists}"

lemma raises_create:
  assumes "tx_contract (x_within_tx_code E)"
  shows "raises Not create_errors (core_ShortCodeCreate E cfg rq)"
  unfolding core_ShortCodeCreate_def
  by (intro raises_intros keeps_intros marshal_rules raises_mono [OF raises_code_insert [OF assms]]
      dao_codes_flag [OF assms]) (auto simp: create_errors_def)

section \<open>A code is accepted once\<close>

text \<open>Redeeming in an environment without faults.\<close>

lemma consume_healthy:
  assumes "healthy E" "struct_valid E (consume_struct rq)" "short_codes_ok (db w)"
    and "\<And>clock. clock \<in> range (x_pg_now E) \<Longrightarrow>
        find_active (sco_Target rq, sco_Usage rq) clock (short_codes (db w)) = Some row"
    and "\<And>t. x_now E t \<le> s_expires_at row"
    and "CompareArgon2 (x_idkey E) (x_argon_version E) (sco_Code rq) (s_code row) = Ret ()"
  shows "fst (core_ShortCodeConsume E rq w) = Ret (to_ShortCode row (sco_Code rq))"
proof -
  let ?w1 = "w\<lparr>tick := Suc (Suc (tick w))\<rparr>"
  have conn: "x_conn E t = None" "x_fault E t = NoFault" for t
    using assms(1) by (simp_all add: healthy_def)
  have ok: "codes_ok (short_codes (db w))" using assms(3) by (simp add: short_codes_ok_def)
  have act: "row \<in> set (short_codes (db w))" "active_at (x_pg_now E t) row" for t
    using assms(4) [of "x_pg_now E t"] ok by (simp_all add: find_active_Some)
  have sel: "dao_ShortCodeSelect E \<lparr>ss_Usage = sco_Usage rq, ss_Target = sco_Target rq\<rparr> w = (Ret row, ?w1)"
  proof -
    obtain rs where "filter (\<lambda>r. pair_of r = (sco_Target rq, sco_Usage rq) \<and>
        active_at (x_pg_now E (Suc (tick w))) r) (short_codes (db w)) = row # rs"
      using assms(4) [of "x_pg_now E (Suc (tick w))"] by (auto simp: find_code_filter split: list.splits)
    then show ?thesis
      by (simp add: dao_ShortCodeSelect_def dao_query_def query_one_def prog_simps get_context_run conn
          run_stmt_def sql_shortCodeSelect_def scan_one_def Let_def)
  qed
  have del: "\<exists>d v'. dao_ShortCodeDelete E \<lparr>sd_ID = s_id row, sd_Now = now, sd_Comment = c\<rparr> v = (Ret d, v')"
    if "db v = db w" for now c and v :: world
  proof -
    have "retire_match (s_id row) (x_pg_now E (Suc (tick v))) row"
      using act by (simp add: retire_match_def)
    with act obtain r rs where "filter (retire_match (s_id row) (x_pg_now E (Suc (tick v)))) (short_codes (db w)) = r # rs"
      by (cases "filter (retire_match (s_id row) (x_pg_now E (Suc (tick v)))) (short_codes (db w))")
        (auto simp: filter_empty_conv)
    with that show ?thesis
      by (simp add: dao_ShortCodeDelete_def dao_query_def query_one_def prog_simps get_context_run conn
          run_stmt_def sql_shortCodeDelete_def scan_one_def Let_def)
  qed
  let ?w2 = "?w1\<lparr>tick := Suc (tick ?w1)\<rparr>"
  obtain w3 where c: "io_CompareArgon2 E (sco_Code rq) (s_code row) ?w2 = (Ret (), w3)" "db w3 = db w"
    using assms(6) by (simp add: io_CompareArgon2_def)
  obtain d v' where "dao_ShortCodeDelete E \<lparr>sd_ID = s_id row, sd_Now = x_now E (tick w3),
      sd_Comment = ShortCodeDeleteConsumed\<rparr> (w3\<lparr>tick := Suc (tick w3)\<rparr>) = (Ret d, v')"
    using del [of "w3\<lparr>tick := Suc (tick w3)\<rparr>" "x_now E (tick w3)" ShortCodeDeleteConsumed] c by auto
  then show ?thesis
    using assms(2) assms(5) [of "tick ?w1"] sel c
    by (simp add: core_ShortCodeConsume_def andThen_def validate_run onError_def)
qed

section \<open>The flows\<close>

lemma go_send_run [simp]: "go_send j w = (Ret (), w\<lparr>jobs := jobs w @ [j]\<rparr>)"
  by (simp add: go_send_def)

text \<open>How the flows look up the address.\<close>

definition exists_check :: "ext \<Rightarrow> string \<Rightarrow> bool io" where
  "exists_check E email =
     onError (andThen (dao_CredentialsSelectByEmail E email) (\<lambda>_. ret True))
       (\<lambda>err. if errors_is err ErrCredentialsSelectByEmailNotFound then ret False
              else fail (Wrap ''check existing email'' err))"

lemma exists_check_cases:
  obtains (infra) e w' where "exists_check E email w = (Fail e, w')" "sentinels_of e = {}"
      "db w' = db w" "frame w w'" "\<not> healthy E"
  | (absent) w' where "exists_check E email w = (Ret False, w')"
      "by_email email (credentials (db w)) = None" "db w' = db w" "frame w w'"
  | (present) r w' where "exists_check E email w = (Ret True, w')"
      "by_email email (credentials (db w)) = Some r" "db w' = db w" "frame w w'"
proof (cases rule: select_email_cases [of E email w])
  case (infra e w')
  then show ?thesis
    using framesD [OF frames_accounts(4) infra(1)]
    by (intro that(1) [of "Wrap ''check existing email'' e" w'])
      (auto simp: exists_check_def prog_simps errors_is_sentinels)
next
  case (missing e w')
  then show ?thesis
    using framesD [OF frames_accounts(4) missing(1)]
    by (intro that(2) [of w']) (auto simp: exists_check_def prog_simps errors_is_sentinels)
next
  case (found r w')
  then show ?thesis
    using framesD [OF frames_accounts(4) found(1)]
    by (intro that(3) [of w' r]) (auto simp: exists_check_def prog_simps)
qed

lemmas flow_defs = core_ShortCodeCreateEmailUpdate_def core_ShortCodeCreateRegister_def
lemmas flow_folded = flow_defs [folded exists_check_def]

text \<open>The tail the flows share: issue a code, then hand over its mail.\<close>

definition deliver :: "ext \<Rightarrow> ShortCodes \<Rightarrow> ShortCodeCreateRequest \<Rightarrow> (ShortCode \<Rightarrow> mail_job) \<Rightarrow> ShortCode io" where
  "deliver E cfg rq mail =
     andThen (wrap ''create short code'' (core_ShortCodeCreate E cfg rq)) (\<lambda>shortCode.
     andThen (go_send (mail shortCode)) (\<lambda>_. ret shortCode))"

lemma deliver_Ret: "deliver E cfg rq mail w = (Ret sc, w') \<longleftrightarrow>
    (\<exists>w1. core_ShortCodeCreate E cfg rq w = (Ret sc, w1) \<and> w' = w1\<lparr>jobs := jobs w1 @ [mail sc]\<rparr>)"
  by (auto simp: deliver_def run_Ret)

lemma deliver_Fail:
  "deliver E cfg rq mail w = (Fail e, w') \<Longrightarrow>
     \<exists>e'. core_ShortCodeCreate E cfg rq w = (Fail e', w') \<and> sentinels_of e = sentinels_of e'"
  by (cases "core_ShortCodeCreate E cfg rq w"; cases "fst (core_ShortCodeCreate E cfg rq w)")
    (auto simp: deliver_def andThen_def wrap_def)

lemma flow_deliver:
  "core_ShortCodeCreateEmailUpdate E cfg urls eu =
     andThen (validate E (email_update_struct eu)) (\<lambda>_.
     andThen (exists_check E (sceu_Email eu)) (\<lambda>exists.
     if exists then fail (Sentinel ErrCredentialsUpdateEmailAlreadyExists)
     else deliver E cfg \<lparr>scc_Usage = ShortCodeUsageValidateEmail,
         scc_Target = x_uuid_string E (sceu_ID eu), scc_Data = Some (sceu_Email eu),
         scc_TTL = usage_ttl cfg ShortCodeUsageValidateEmail, scc_Override = True\<rparr>
       (mail_EmailUpdate E cfg urls eu)))"
  "core_ShortCodeCreateRegister E cfg urls re =
     andThen (validate E (register_struct re)) (\<lambda>_.
     andThen (exists_check E (scr_Email re)) (\<lambda>exists.
     if exists then fail (Sentinel ErrCredentialsInsertAlreadyExists)
     else deliver E cfg \<lparr>scc_Usage = ShortCodeUsageRegister, scc_Target = scr_Email re, scc_Data = None,
         scc_TTL = usage_ttl cfg ShortCodeUsageRegister, scc_Override = True\<rparr>
       (mail_Register E cfg urls re)))"
  "core_ShortCodeCreatePasswordReset E cfg urls pr =
     andThen (validate E (password_reset_struct pr)) (\<lambda>_.
     andThen (wrap ''check email existence'' (dao_CredentialsSelectByEmail E (scpr_Email pr))) (\<lambda>row.
     deliver E cfg \<lparr>scc_Usage = ShortCodeUsageResetPassword, scc_Target = x_uuid_string E (c_id row),
         scc_Data = None, scc_TTL = usage_ttl cfg ShortCodeUsageResetPassword, scc_Override = True\<rparr>
       (mail_PasswordReset E cfg urls pr (c_id row))))"
  unfolding flow_folded deliver_def core_ShortCodeCreatePasswordReset_def by (rule refl)+

text \<open>A flow that returns looked the address up, stored a code, and handed over one mail; a flow that
  fails hands over none.\<close>

lemma register_Ret:
  assumes "core_ShortCodeCreateRegister E cfg urls rq w = (Ret sc, w')"
  obtains w1 w2 where "by_email (scr_Email rq) (credentials (db w)) = None" "db w1 = db w" "frame w w1"
    "struct_valid E (register_struct rq)"
    "core_ShortCodeCreate E cfg \<lparr>scc_Usage = ShortCodeUsageRegister, scc_Target = scr_Email rq,
        scc_Data = None, scc_TTL = usage_ttl cfg ShortCodeUsageRegister, scc_Override = True\<rparr> w1 = (Ret sc, w2)"
    "w' = w2\<lparr>jobs := jobs w2 @ [mail_Register E cfg urls rq sc]\<rparr>"
proof -
  from assms obtain b w1 where v: "struct_valid E (register_struct rq)"
    and x: "exists_check E (scr_Email rq) w = (Ret b, w1)"
    and d: "(if b then fail (Sentinel ErrCredentialsInsertAlreadyExists)
     else deliver E cfg \<lparr>scc_Usage = ShortCodeUsageRegister, scc_Target = scr_Email rq, scc_Data = None,
         scc_TTL = usage_ttl cfg ShortCodeUsageRegister, scc_Override = True\<rparr>
       (mail_Register E cfg urls rq)) w1 = (Ret sc, w')"
    unfolding flow_deliver by (auto simp: andThen_Ret validate_Ret)
  from x show thesis
  proof (cases rule: exists_check_cases [of E "scr_Email rq" w])
    case (absent w2)
    with x d v show thesis by (auto simp: deliver_Ret intro: that)
  qed (use x d in auto)
qed

lemma email_update_Ret:
  assumes "core_ShortCodeCreateEmailUpdate E cfg urls rq w = (Ret sc, w')"
  obtains w1 w2 where "by_email (sceu_Email rq) (credentials (db w)) = None" "db w1 = db w" "frame w w1"
    "struct_valid E (email_update_struct rq)"
    "core_ShortCodeCreate E cfg \<lparr>scc_Usage = ShortCodeUsageValidateEmail,
        scc_Target = x_uuid_string E (sceu_ID rq), scc_Data = Some (sceu_Email rq),
        scc_TTL = usage_ttl cfg ShortCodeUsageValidateEmail, scc_Override = True\<rparr> w1 = (Ret sc, w2)"
    "w' = w2\<lparr>jobs := jobs w2 @ [mail_EmailUpdate E cfg urls rq sc]\<rparr>"
proof -
  from assms obtain b w1 where v: "struct_valid E (email_update_struct rq)"
    and x: "exists_check E (sceu_Email rq) w = (Ret b, w1)"
    and d: "(if b then fail (Sentinel ErrCredentialsUpdateEmailAlreadyExists)
     else deliver E cfg \<lparr>scc_Usage = ShortCodeUsageValidateEmail,
         scc_Target = x_uuid_string E (sceu_ID rq), scc_Data = Some (sceu_Email rq),
         scc_TTL = usage_ttl cfg ShortCodeUsageValidateEmail, scc_Override = True\<rparr>
       (mail_EmailUpdate E cfg urls rq)) w1 = (Ret sc, w')"
    unfolding flow_deliver by (auto simp: andThen_Ret validate_Ret)
  from x show thesis
  proof (cases rule: exists_check_cases [of E "sceu_Email rq" w])
    case (absent w2)
    with x d v show thesis by (auto simp: deliver_Ret intro: that)
  qed (use x d in auto)
qed

lemma password_reset_Ret:
  assumes "core_ShortCodeCreatePasswordReset E cfg urls rq w = (Ret sc, w')"
  obtains row w1 w2 where "by_email (scpr_Email rq) (credentials (db w)) = Some row" "db w1 = db w" "frame w w1"
    "struct_valid E (password_reset_struct rq)"
    "core_ShortCodeCreate E cfg \<lparr>scc_Usage = ShortCodeUsageResetPassword,
        scc_Target = x_uuid_string E (c_id row), scc_Data = None,
        scc_TTL = usage_ttl cfg ShortCodeUsageResetPassword, scc_Override = True\<rparr> w1 = (Ret sc, w2)"
    "w' = w2\<lparr>jobs := jobs w2 @ [mail_PasswordReset E cfg urls rq (c_id row) sc]\<rparr>"
proof -
  from assms obtain row w1 where v: "struct_valid E (password_reset_struct rq)"
    and x: "dao_CredentialsSelectByEmail E (scpr_Email rq) w = (Ret row, w1)"
    and d: "deliver E cfg \<lparr>scc_Usage = ShortCodeUsageResetPassword, scc_Target = x_uuid_string E (c_id row),
         scc_Data = None, scc_TTL = usage_ttl cfg ShortCodeUsageResetPassword, scc_Override = True\<rparr>
       (mail_PasswordReset E cfg urls rq (c_id row)) w1 = (Ret sc, w')"
    unfolding flow_deliver by (auto simp: run_Ret validate_Ret)
  have "frame w w1" using framesD [OF frames_accounts(4) x] .
  from x show thesis
  proof (cases rule: select_email_cases [of E "scpr_Email rq" w])
    case (found r w2)
    with x d v \<open>frame w w1\<close> show thesis by (auto simp: deliver_Ret intro: that)
  qed (use x in auto)
qed

definition flow_errors :: "sentinel set" where
  "flow_errors = {ErrNoRows, ErrCredentialsSelectByEmailNotFound} \<union> create_errors"

lemma deliver_rules:
  assumes "tx_contract (x_within_tx_code E)"
  shows "raises Not create_errors (deliver E cfg rq mail)"
    and "keeps_db short_codes_ok Not (deliver E cfg rq mail)"
    and "keeps_db (\<lambda>d. credentials d = cs) Not (deliver E cfg rq mail)"
proof -
  note c = create_keeps_ok [OF assms]
  have s: "keeps_db I P (go_send j)" "raises P S (go_send j)" for I P j S by (simp_all add: keeps_def raises_def)
  show "raises Not create_errors (deliver E cfg rq mail)"
    unfolding deliver_def by (intro raises_intros keeps_intros raises_create assms c s)
  show "keeps_db short_codes_ok Not (deliver E cfg rq mail)"
    "keeps_db (\<lambda>d. credentials d = cs) Not (deliver E cfg rq mail)"
    unfolding deliver_def by (intro keeps_intros c s)+
qed

lemma exists_check_rules:
  "raises P {} (exists_check E m)" "keeps_db (\<lambda>d. J (short_codes d)) P (exists_check E m)"
  "frames (exists_check E m)" "keeps_db (\<lambda>d. d = d0) P (exists_check E m)"
proof -
  show "raises P {} (exists_check E m)"
    unfolding raises_def
  proof (intro allI impI)
    fix w :: world and e w' assume "exists_check E m w = (Fail e, w')"
    then show "sentinels_of e \<subseteq> {}" by (cases rule: exists_check_cases [of E m w]) auto
  qed
  show f: "frames (exists_check E m)"
    unfolding exists_check_def by (intro frame_intros)
  show "keeps_db (\<lambda>d. J (short_codes d)) P (exists_check E m)"
    unfolding exists_check_def by (intro keeps_intros)
  show "keeps_db (\<lambda>d. d = d0) P (exists_check E m)"
  proof (rule keepsI)
    fix w :: world assume w: "db w = d0 \<and> P (in_tx w)"
    have "frame w (snd (exists_check E m w))" using f by (simp add: frames_def)
    then show "db (snd (exists_check E m w)) = d0 \<and> P (in_tx (snd (exists_check E m w)))"
      using w by (cases rule: exists_check_cases [of E m w]) (auto simp: frame_def)
  qed
qed

end
