(* ===== verification/Tokens.thy ===== *)
theory Tokens
  imports Validate Passwords
begin

text \<open>
  The token services of \<open>internal/core\<close>: the signing of a bound refresh/access pair
  (\<open>signTokenPair.go\<close>), sign-in (\<open>tokenCreate.go\<close>), the anonymous token (\<open>tokenCreateAnon.go\<close>) and the
  refresh of an access token (\<open>tokenRefresh.go\<close>). The JSON-keys service that signs and verifies is a
  parameter; \<open>json_keys_contract\<close> is what it documents.
\<close>

record Token =
  AccessToken :: string
  RefreshToken :: string

text \<open>\<open>ClaimsSign\<close> of a payload marshalled for the wire.\<close>

definition marshal_any :: "ext \<Rightarrow> payload \<Rightarrow> string io" where
  "marshal_any E p = lift (go_result (x_marshal_any E p))"

definition claims_sign :: "ext \<Rightarrow> key_usage \<Rightarrow> string \<Rightarrow> string io" where
  "claims_sign E usage p = ask_err (\<lambda>t. x_sign E t usage p)"

definition signTokenPair :: "ext \<Rightarrow> dao_credentials \<Rightarrow> Token io" where
  "signTokenPair E row =
     andThen (wrap ''marshal refresh claims''
         (marshal_any E (RefreshPayload \<lparr>FormUserID = c_id row\<rparr>))) (\<lambda>refreshTokenPayload.
     andThen (wrap ''issue refresh token'' (claims_sign E KeyUsageAuthRefresh refreshTokenPayload)) (\<lambda>refreshToken.
     andThen (wrap ''parse refresh token'' (lift (go_result (x_decode_unverified E refreshToken)))) (\<lambda>refreshTokenClaims.
     andThen (wrap ''marshal access claims''
         (marshal_any E (AccessPayload
            \<lparr>UserID = Some (c_id row), Roles = [c_role row],
             RefreshTokenID = Jti refreshTokenClaims\<rparr>))) (\<lambda>accessTokenPayload.
     andThen (wrap ''issue access token'' (claims_sign E KeyUsageAuth accessTokenPayload)) (\<lambda>accessToken.
     ret \<lparr>AccessToken = accessToken, RefreshToken = refreshToken\<rparr>)))))"

record TokenCreateRequest =
  tc_Email :: string
  tc_Password :: string

definition token_create_struct :: "TokenCreateRequest \<Rightarrow> struct" where
  "token_create_struct r =
     [(FStr (tc_Email r), [Required, Email, Max 1024]), (FStr (tc_Password r), [Required, Max 1024])]"

definition core_TokenCreate :: "ext \<Rightarrow> TokenCreateRequest \<Rightarrow> Token io" where
  "core_TokenCreate E request =
     andThen (validate E (token_create_struct request)) (\<lambda>_.
     andThen (onError (dao_CredentialsSelectByEmail E (tc_Email request))
         (\<lambda>err. if errors_is err ErrCredentialsSelectByEmailNotFound
                then andThen (DummyCompareArgon2 E (tc_Password request)) (\<lambda>_. fail err)
                else fail err)) (\<lambda>row.
     andThen (wrap ''compare password'' (io_CompareArgon2 E (tc_Password request) (c_password row))) (\<lambda>_.
     wrap ''sign token pair'' (signTokenPair E row))))"

text \<open>The anonymous payload is marshalled once, at package load; a failure there panics.\<close>

definition anon_claims :: AccessTokenClaims where
  "anon_claims = \<lparr>UserID = None, Roles = [RoleAnon], RefreshTokenID = ''''\<rparr>"

definition core_TokenCreateAnon :: "ext \<Rightarrow> Token io" where
  "core_TokenCreateAnon E =
     (case x_marshal_any E (AccessPayload anon_claims) of
        Inl m \<Rightarrow> lift (Panic ''init'')
      | Inr p \<Rightarrow>
          andThen (wrap ''issue accessToken'' (claims_sign E KeyUsageAuth p)) (\<lambda>accessToken.
          ret \<lparr>AccessToken = accessToken, RefreshToken = ''''\<rparr>))"

record TokenRefreshRequest =
  tr_AccessToken :: string
  tr_RefreshToken :: string

definition token_refresh_struct :: "TokenRefreshRequest \<Rightarrow> struct" where
  "token_refresh_struct r =
     [(FStr (tr_AccessToken r), [Required, Max 1024]), (FStr (tr_RefreshToken r), [Required, Max 1024])]"

text \<open>\<open>lo.FromPtr\<close>: the zero UUID for a nil pointer.\<close>

definition from_ptr :: "uuid option \<Rightarrow> uuid" where
  "from_ptr p = (case p of None \<Rightarrow> 0 | Some u \<Rightarrow> u)"

definition ask_verify :: "(nat \<Rightarrow> go_error + 'a) \<Rightarrow> 'a io" where
  "ask_verify f = andThen (ask f) (\<lambda>r. lift (go_result_err r))"

definition invalid_token :: "sentinel \<Rightarrow> go_error \<Rightarrow> go_error" where
  "invalid_token s err =
     (if errors_is err ErrInvalidSignature \<or> errors_is err ErrInvalidClaims
      then Join [err, Sentinel s] else err)"

definition core_TokenRefresh :: "ext \<Rightarrow> TokenRefreshRequest \<Rightarrow> Token io" where
  "core_TokenRefresh E request =
     andThen (validate E (token_refresh_struct request)) (\<lambda>_.
     andThen (onError (ask_verify (\<lambda>t. x_verify_access E t True (tr_AccessToken request)))
         (\<lambda>err. fail (invalid_token ErrTokenRefreshInvalidAccessToken err))) (\<lambda>accessTokenClaims.
     andThen (onError (ask_verify (\<lambda>t. x_verify_refresh E t (tr_RefreshToken request)))
         (\<lambda>err. fail (invalid_token ErrTokenRefreshInvalidRefreshToken err))) (\<lambda>refreshTokenClaims.
     if from_ptr (UserID accessTokenClaims) \<noteq> RefreshUserID refreshTokenClaims
     then fail (Sentinel ErrTokenRefreshMismatchClaims)
     else if RefreshTokenID accessTokenClaims \<noteq> Jti refreshTokenClaims
     then fail (Sentinel ErrTokenRefreshMismatchSource)
     else
     andThen (dao_CredentialsSelect E (from_ptr (UserID accessTokenClaims))) (\<lambda>row.
     andThen (marshal_any E (AccessPayload
         \<lparr>UserID = UserID accessTokenClaims, Roles = [c_role row],
          RefreshTokenID = Jti refreshTokenClaims\<rparr>)) (\<lambda>newAccessTokenClaims.
     andThen (claims_sign E KeyUsageAuth newAccessTokenClaims) (\<lambda>newAccessToken.
     ret \<lparr>AccessToken = newAccessToken, RefreshToken = tr_RefreshToken request\<rparr>))))))"

section \<open>The contract of the JSON-keys service\<close>

text \<open>
  \<open>issued_access E tok c\<close>: the signer issued \<open>tok\<close> for the access claims \<open>c\<close>; likewise for refresh
  tokens, whose identifier the signer chose. A verifier that accepts a token returns the claims it
  was issued for; a decoder reads the claims of an issued token without checking it; an issued
  refresh token carries the user it was asked for and a non-empty identifier; a verifier's errors
  match the two sentinels of the JWT library at most.
\<close>

definition issued_access :: "ext \<Rightarrow> string \<Rightarrow> AccessTokenClaims \<Rightarrow> bool" where
  "issued_access E tok c \<longleftrightarrow>
     (\<exists>t p. x_marshal_any E (AccessPayload c) = Inr p \<and> x_sign E t KeyUsageAuth p = Inr tok)"

definition issued_refresh :: "ext \<Rightarrow> string \<Rightarrow> RefreshTokenClaims \<Rightarrow> bool" where
  "issued_refresh E tok c \<longleftrightarrow>
     (\<exists>t p. x_marshal_any E (RefreshPayload \<lparr>FormUserID = RefreshUserID c\<rparr>) = Inr p \<and>
            x_sign E t KeyUsageAuthRefresh p = Inr tok) \<and>
     x_decode_unverified E tok = Inr c"

definition json_keys_contract :: "ext \<Rightarrow> bool" where
  "json_keys_contract E \<longleftrightarrow>
     (\<forall>t b tok c. x_verify_access E t b tok = Inr c \<longrightarrow> issued_access E tok c) \<and>
     (\<forall>t tok c. x_verify_refresh E t tok = Inr c \<longrightarrow> issued_refresh E tok c) \<and>
     (\<forall>tok c c'. issued_access E tok c \<longrightarrow> issued_access E tok c' \<longrightarrow> c = c') \<and>
     (\<forall>t u p tok c. x_marshal_any E (RefreshPayload \<lparr>FormUserID = u\<rparr>) = Inr p \<longrightarrow>
        x_sign E t KeyUsageAuthRefresh p = Inr tok \<longrightarrow> x_decode_unverified E tok = Inr c \<longrightarrow>
        RefreshUserID c = u) \<and>
     (\<forall>tok c. issued_refresh E tok c \<longrightarrow> Jti c \<noteq> '''') \<and>
     (\<forall>t b tok e. x_verify_access E t b tok = Inl e \<longrightarrow> sentinels_of e \<subseteq> {ErrInvalidSignature, ErrInvalidClaims}) \<and>
     (\<forall>t tok e. x_verify_refresh E t tok = Inl e \<longrightarrow> sentinels_of e \<subseteq> {ErrInvalidSignature, ErrInvalidClaims})"

lemma json_keysD:
  assumes "json_keys_contract E"
  shows "x_verify_access E t b tok = Inr c \<Longrightarrow> issued_access E tok c"
    "x_verify_refresh E t tok = Inr rc \<Longrightarrow> issued_refresh E tok rc"
    "issued_access E tok c \<Longrightarrow> issued_access E tok c' \<Longrightarrow> c = c'"
    "x_marshal_any E (RefreshPayload \<lparr>FormUserID = u\<rparr>) = Inr p \<Longrightarrow>
       x_sign E t KeyUsageAuthRefresh p = Inr tok \<Longrightarrow> x_decode_unverified E tok = Inr rc \<Longrightarrow>
       RefreshUserID rc = u"
    "issued_refresh E tok rc \<Longrightarrow> Jti rc \<noteq> ''''"
    "x_verify_access E t b tok = Inl e \<Longrightarrow> sentinels_of e \<subseteq> {ErrInvalidSignature, ErrInvalidClaims}"
    "x_verify_refresh E t tok = Inl e \<Longrightarrow> sentinels_of e \<subseteq> {ErrInvalidSignature, ErrInvalidClaims}"
  using assms unfolding json_keys_contract_def by (elim conjE; metis)+

text \<open>While a token is valid its verifier accepts it; access tokens stay acceptable to the verifier that
  ignores expiry.\<close>

definition keys_available :: "ext \<Rightarrow> bool" where
  "keys_available E \<longleftrightarrow>
     (\<forall>p. \<exists>s. x_marshal_any E p = Inr s) \<and> (\<forall>t u p. \<exists>tok. x_sign E t u p = Inr tok) \<and>
     (\<forall>t tok c. issued_access E tok c \<longrightarrow> x_verify_access E t True tok = Inr c)"

section \<open>Signing a pair\<close>

text \<open>The two tokens are bound: the access token names the identifier of the refresh token.\<close>

definition bound_pair :: "ext \<Rightarrow> Token \<Rightarrow> uuid \<Rightarrow> string \<Rightarrow> bool" where
  "bound_pair E tok uid role \<longleftrightarrow> (\<exists>jti.
     issued_refresh E (RefreshToken tok) \<lparr>Jti = jti, RefreshUserID = uid\<rparr> \<and>
     issued_access E (AccessToken tok) \<lparr>UserID = Some uid, Roles = [role], RefreshTokenID = jti\<rparr>)"

lemma marshal_any_Ret: "marshal_any E p w = (Ret s, w') \<longleftrightarrow> x_marshal_any E p = Inr s \<and> w' = w"
  by (cases "x_marshal_any E p") (auto simp: marshal_any_def)

lemma claims_sign_Ret: "claims_sign E u p w = (Ret s, w') \<longleftrightarrow>
    x_sign E (tick w) u p = Inr s \<and> w' = w\<lparr>tick := Suc (tick w)\<rparr>"
  by (auto simp: claims_sign_def ask_err_Ret)

lemma lift_result_Ret: "lift (go_result r) w = (Ret s, w') \<longleftrightarrow> r = Inr s \<and> w' = w"
  by (cases r) auto

lemma signTokenPair_Ret:
  assumes "json_keys_contract E" "signTokenPair E row w = (Ret tok, w')"
  shows "bound_pair E tok (c_id row) (c_role row)" and "db w' = db w"
proof -
  obtain p1 tok1 c p2 tok2 where m1: "x_marshal_any E (RefreshPayload \<lparr>FormUserID = c_id row\<rparr>) = Inr p1"
    and s1: "x_sign E (tick w) KeyUsageAuthRefresh p1 = Inr tok1"
    and d: "x_decode_unverified E tok1 = Inr c"
    and m2: "x_marshal_any E (AccessPayload \<lparr>UserID = Some (c_id row), Roles = [c_role row],
       RefreshTokenID = Jti c\<rparr>) = Inr p2"
    and s2: "x_sign E (Suc (tick w)) KeyUsageAuth p2 = Inr tok2"
    and t: "tok = \<lparr>AccessToken = tok2, RefreshToken = tok1\<rparr>"
    and w': "w' = w\<lparr>tick := Suc (Suc (tick w))\<rparr>"
    using assms(2)
    by (auto simp: signTokenPair_def run_Ret marshal_any_Ret claims_sign_Ret lift_result_Ret
        simp del: lift_run)
  have u: "RefreshUserID c = c_id row"
    using assms(1) m1 s1 d unfolding json_keys_contract_def by blast
  then have "c = \<lparr>Jti = Jti c, RefreshUserID = c_id row\<rparr>" by (cases c) simp
  then have "issued_refresh E tok1 \<lparr>Jti = Jti c, RefreshUserID = c_id row\<rparr>"
    using m1 s1 d unfolding issued_refresh_def by (metis RefreshTokenClaims.select_convs(2))
  moreover have "issued_access E tok2 \<lparr>UserID = Some (c_id row), Roles = [c_role row], RefreshTokenID = Jti c\<rparr>"
    using m2 s2 by (auto simp: issued_access_def)
  ultimately show "bound_pair E tok (c_id row) (c_role row)" by (auto simp: bound_pair_def t)
  show "db w' = db w" by (simp add: w')
qed

section \<open>Signing in\<close>

lemma compare_wrap_Ret: "wrap m (io_CompareArgon2 E p h) w = (Ret u, w') \<longleftrightarrow>
    CompareArgon2 (x_idkey E) (x_argon_version E) p h = Ret () \<and> w' = w\<lparr>work := work w @ compare_work E h\<rparr>"
  by (auto simp: wrap_Ret io_CompareArgon2_def)

lemma token_create_Ret:
  assumes "core_TokenCreate E rq w = (Ret tok, w')"
  obtains row w1 where "struct_valid E (token_create_struct rq)"
    "by_email (tc_Email rq) (credentials (db w)) = Some row"
    "CompareArgon2 (x_idkey E) (x_argon_version E) (tc_Password rq) (c_password row) = Ret ()"
    "signTokenPair E row w1 = (Ret tok, w')" "db w1 = db w"
proof -
  have h: "(if errors_is e ErrCredentialsSelectByEmailNotFound
      then andThen (DummyCompareArgon2 E (tc_Password rq)) (\<lambda>_. fail e) else fail e) v \<noteq> (Ret (r :: dao_credentials), v')"
    for e v r v'
    by (auto simp: run_Ret)
  obtain row w1 where v: "struct_valid E (token_create_struct rq)"
    and s: "dao_CredentialsSelectByEmail E (tc_Email rq) w = (Ret row, w1)"
    and c: "CompareArgon2 (x_idkey E) (x_argon_version E) (tc_Password rq) (c_password row) = Ret ()"
    and t: "signTokenPair E row (w1\<lparr>work := work w1 @ compare_work E (c_password row)\<rparr>) = (Ret tok, w')"
    using assms
    by (auto simp: core_TokenCreate_def andThen_Ret validate_Ret onError_Ret h compare_wrap_Ret)
       (auto simp: wrap_Ret)
  from s show thesis
    by (cases rule: select_email_cases [of E "tc_Email rq" w]) (use v s c t in \<open>auto intro: that\<close>)
qed

lemma sign_pair_rules:
  "raises P S (signTokenPair E row)" "keeps_db I P (signTokenPair E row)" "frames (signTokenPair E row)"
  unfolding signTokenPair_def marshal_any_def claims_sign_def
  by (intro raises_intros keeps_intros frame_intros)+

definition sign_in_errors :: "sentinel set" where
  "sign_in_errors = {ErrInvalidRequest, ErrNoRows, ErrCredentialsSelectByEmailNotFound,
     ErrInvalidHash, ErrIncompatibleVersion, ErrInvalidPassword}"

lemma raises_token_create: "raises P sign_in_errors (core_TokenCreate E rq)"
  unfolding core_TokenCreate_def
  by (intro raises_intros keeps_intros sign_pair_rules raises_onError [OF raises_accounts(3)])
    (auto simp: sign_in_errors_def)

lemma token_create_keeps: "keeps_db (\<lambda>d. d = d0) P (core_TokenCreate E rq)"
proof -
  have "sql_keeps (\<lambda>d. d = d0) (sql_credentialsSelectByEmail m)" for m
    by (auto simp: sql_keeps_def sql_credentialsSelectByEmail_def)
  then show ?thesis
    unfolding core_TokenCreate_def dao_CredentialsSelectByEmail_def
    by (intro keeps_intros validate_rules(1) sign_pair_rules)
qed

section \<open>Refreshing\<close>

lemma ask_verify_Ret: "ask_verify f w = (Ret c, w') \<longleftrightarrow> f (tick w) = Inr c \<and> w' = w\<lparr>tick := Suc (tick w)\<rparr>"
  by (cases "f (tick w)") (auto simp: ask_verify_def andThen_Ret)

lemma verify_fail_Ret: "onError (ask_verify f) (\<lambda>e. fail (h e)) w = (Ret c, w') \<longleftrightarrow>
    f (tick w) = Inr c \<and> w' = w\<lparr>tick := Suc (tick w)\<rparr>"
  by (auto simp: onError_Ret ask_verify_Ret)

lemma token_refresh_Ret:
  assumes "core_TokenRefresh E rq w = (Ret tok, w')"
  obtains ac rc row where "struct_valid E (token_refresh_struct rq)"
    "x_verify_access E (tick w) True (tr_AccessToken rq) = Inr ac"
    "x_verify_refresh E (Suc (tick w)) (tr_RefreshToken rq) = Inr rc"
    "from_ptr (UserID ac) = RefreshUserID rc" "RefreshTokenID ac = Jti rc"
    "by_id (RefreshUserID rc) (credentials (db w)) = Some row"
    "issued_access E (AccessToken tok)
       \<lparr>UserID = UserID ac, Roles = [c_role row], RefreshTokenID = Jti rc\<rparr>"
    "RefreshToken tok = tr_RefreshToken rq" "db w' = db w"
proof -
  let ?w2 = "w\<lparr>tick := Suc (Suc (tick w))\<rparr>"
  obtain ac rc row w3 p where v: "struct_valid E (token_refresh_struct rq)"
    and a: "x_verify_access E (tick w) True (tr_AccessToken rq) = Inr ac"
    and r: "x_verify_refresh E (Suc (tick w)) (tr_RefreshToken rq) = Inr rc"
    and m: "from_ptr (UserID ac) = RefreshUserID rc" "RefreshTokenID ac = Jti rc"
    and s: "dao_CredentialsSelect E (from_ptr (UserID ac)) ?w2 = (Ret row, w3)"
    and p: "x_marshal_any E (AccessPayload
         \<lparr>UserID = UserID ac, Roles = [c_role row], RefreshTokenID = Jti rc\<rparr>) = Inr p"
    and t: "x_sign E (tick w3) KeyUsageAuth p = Inr (AccessToken tok)" "RefreshToken tok = tr_RefreshToken rq"
    and w': "w' = w3\<lparr>tick := Suc (tick w3)\<rparr>"
    using assms
    by (auto simp: core_TokenRefresh_def andThen_Ret validate_Ret verify_fail_Ret marshal_any_Ret
        claims_sign_Ret split: if_splits)
  from s show thesis
    by (cases rule: select_cases [of E "from_ptr (UserID ac)" ?w2])
      (use v a r m p t w' s in \<open>auto simp: issued_access_def intro!: that\<close>)
qed

definition refresh_errors :: "sentinel set" where
  "refresh_errors = {ErrInvalidRequest, ErrInvalidSignature, ErrInvalidClaims,
     ErrTokenRefreshInvalidAccessToken, ErrTokenRefreshInvalidRefreshToken,
     ErrTokenRefreshMismatchClaims, ErrTokenRefreshMismatchSource, ErrNoRows,
     ErrCredentialsSelectNotFound}"

lemma raises_verify:
  assumes "\<And>t e. f t = Inl e \<Longrightarrow> sentinels_of e \<subseteq> S"
  shows "raises P S (ask_verify f)"
  unfolding raises_def
proof (intro allI impI)
  fix w :: world and e w' assume "ask_verify f w = (Fail e, w')"
  then show "sentinels_of e \<subseteq> S"
    using assms by (cases "f (tick w)") (auto simp: ask_verify_def andThen_def)
qed

lemma keeps_verify [keeps_intros]: "keeps_db I P (ask_verify f)"
proof -
  have "keeps_db I P (lift (go_result_err r))" for r by (rule keeps_pure)
  then show ?thesis unfolding ask_verify_def by (intro keeps_intros)
qed

lemma raises_token_refresh:
  assumes "json_keys_contract E"
  shows "raises P refresh_errors (core_TokenRefresh E rq)"
proof -
  have v: "raises P {ErrInvalidSignature, ErrInvalidClaims} (ask_verify (\<lambda>t. x_verify_access E t True a))"
    "raises P {ErrInvalidSignature, ErrInvalidClaims} (ask_verify (\<lambda>t. x_verify_refresh E t r))" for a r
    using json_keysD(6,7) [OF assms] by (blast intro: raises_verify)+
  show ?thesis
    unfolding core_TokenRefresh_def marshal_any_def claims_sign_def
    by (intro raises_intros keeps_intros raises_onError [OF v(1)] raises_onError [OF v(2)])
      (auto simp: refresh_errors_def invalid_token_def)
qed

end
