(* ===== verification/Accounts.thy ===== *)
theory Accounts
  imports ShortCodeService Tokens
begin

text \<open>
  The account services of \<open>internal/core\<close>: registration (\<open>credentialsCreate.go\<close>), the bootstrap of the
  super-admin (\<open>credentialsCreateSuperAdmin.go\<close>), the reads (\<open>credentialsExist.go\<close>,
  \<open>credentialsGet.go\<close>, \<open>credentialsList.go\<close>) and the three updates (\<open>credentialsUpdateEmail.go\<close>,
  \<open>credentialsUpdatePassword.go\<close>, \<open>credentialsUpdateRole.go\<close>).
\<close>

record Credentials =
  cr_ID :: uuid
  cr_Email :: string
  cr_Role :: string
  cr_CreatedAt :: time
  cr_UpdatedAt :: time

definition to_Credentials :: "dao_credentials \<Rightarrow> Credentials" where
  "to_Credentials entity =
     \<lparr>cr_ID = c_id entity, cr_Email = c_email entity, cr_Role = c_role entity,
      cr_CreatedAt = c_created_at entity, cr_UpdatedAt = c_updated_at entity\<rparr>"

section \<open>Registration\<close>

record CredentialsCreateRequest =
  cc_Email :: string
  cc_Password :: string
  cc_ShortCode :: string

definition credentials_create_struct :: "CredentialsCreateRequest \<Rightarrow> struct" where
  "credentials_create_struct r =
     [(FStr (cc_Email r), [Required, Email, Max 1024]),
      (FStr (cc_Password r), [Required, Min 4, Max 1024]),
      (FStr (cc_ShortCode r), [Required, Max 1024])]"

text \<open>The body of the registration's transaction.\<close>

definition register_tx :: "ext \<Rightarrow> CredentialsCreateRequest \<Rightarrow> string \<Rightarrow> dao_credentials io" where
  "register_tx E request encryptedPassword =
     andThen (wrap ''consume short code'' (core_ShortCodeConsume E
         \<lparr>sco_Usage = ShortCodeUsageRegister, sco_Target = cc_Email request,
          sco_Code = cc_ShortCode request\<rparr>)) (\<lambda>_.
     andThen (ask (x_uuid_new E)) (\<lambda>i.
     andThen (ask (x_now E)) (\<lambda>now.
     wrap ''insert credentials'' (dao_CredentialsInsert E
         \<lparr>ci_ID = i, ci_Email = cc_Email request, ci_Password = encryptedPassword,
          ci_Role = RoleUser, ci_Now = now\<rparr>))))"

definition core_CredentialsCreate :: "ext \<Rightarrow> CredentialsCreateRequest \<Rightarrow> Token io" where
  "core_CredentialsCreate E request =
     andThen (validate E (credentials_create_struct request)) (\<lambda>_.
     andThen (wrap ''encrypt password'' (io_GenerateArgon2 E (cc_Password request))) (\<lambda>encryptedPassword.
     andThen (wrap ''run transaction'' (x_within_tx E (register_tx E request encryptedPassword))) (\<lambda>row.
     wrap ''sign token pair'' (signTokenPair E row))))"

section \<open>The super-admin\<close>

record CredentialsCreateSuperAdminRequest =
  sa_Email :: string
  sa_Password :: string

definition super_admin_struct :: "CredentialsCreateSuperAdminRequest \<Rightarrow> struct" where
  "super_admin_struct r =
     [(FStr (sa_Email r), [Required, Email, Max 1024]),
      (FStr (sa_Password r), [Required, Min 4, Max 1024])]"

definition find_account :: "ext \<Rightarrow> string \<Rightarrow> dao_credentials option io" where
  "find_account E email =
     onError (andThen (dao_CredentialsSelectByEmail E email) (\<lambda>row. ret (Some row)))
       (\<lambda>err. if errors_is err ErrCredentialsSelectByEmailNotFound then ret None else fail err)"

definition super_admin_tx :: "ext \<Rightarrow> CredentialsCreateSuperAdminRequest \<Rightarrow> string \<Rightarrow> dao_credentials io" where
  "super_admin_tx E request encryptedPassword =
     andThen (ask (x_now E)) (\<lambda>now.
     andThen (find_account E (sa_Email request)) (\<lambda>found. case found of
       None \<Rightarrow>
         andThen (ask (x_uuid_new E)) (\<lambda>i.
         wrap ''insert credentials'' (dao_CredentialsInsert E
           \<lparr>ci_ID = i, ci_Email = sa_Email request, ci_Password = encryptedPassword,
            ci_Role = RoleSuperAdmin, ci_Now = now\<rparr>))
     | Some row \<Rightarrow>
         andThen (wrap ''update password'' (dao_CredentialsUpdatePassword E
           \<lparr>up_ID = c_id row, up_Password = encryptedPassword, up_Now = now\<rparr>)) (\<lambda>row.
         if c_role row \<noteq> RoleSuperAdmin
         then wrap ''update role'' (dao_CredentialsUpdateRole E
           \<lparr>ur_ID = c_id row, ur_Role = RoleSuperAdmin, ur_Now = now\<rparr>)
         else ret row)))"

definition core_CredentialsCreateSuperAdmin ::
    "ext \<Rightarrow> CredentialsCreateSuperAdminRequest \<Rightarrow> Credentials io" where
  "core_CredentialsCreateSuperAdmin E request =
     andThen (validate E (super_admin_struct request)) (\<lambda>_.
     andThen (wrap ''encrypt password'' (io_GenerateArgon2 E (sa_Password request))) (\<lambda>encryptedPassword.
     andThen (wrap ''run transaction'' (x_within_tx E (super_admin_tx E request encryptedPassword))) (\<lambda>row.
     ret (to_Credentials row))))"

section \<open>Reads\<close>

definition core_CredentialsExist :: "ext \<Rightarrow> string \<Rightarrow> bool io" where
  "core_CredentialsExist E email =
     andThen (validate E [(FStr email, [Required, Email, Max 1024])]) (\<lambda>_.
     wrap ''check email existence'' (dao_CredentialsExist E email))"

definition core_CredentialsGet :: "ext \<Rightarrow> uuid \<Rightarrow> Credentials io" where
  "core_CredentialsGet E i =
     andThen (wrap ''select credentials'' (dao_CredentialsSelect E i)) (\<lambda>entity.
     ret (to_Credentials entity))"

record CoreListRequest =
  lr_Limit :: int
  lr_Offset :: int
  lr_Roles :: "string list"

definition list_struct :: "CoreListRequest \<Rightarrow> struct" where
  "list_struct r =
     [(FNum (lr_Limit r), [Required, Min 1, Max 100]), (FNum (lr_Offset r), [Min 0]),
      (FLen (length (lr_Roles r)), [Min 0, Max 10])]
     @ map (\<lambda>role. (FStr role, [TagRole])) (lr_Roles r)"

definition core_CredentialsList :: "ext \<Rightarrow> CoreListRequest \<Rightarrow> Credentials list io" where
  "core_CredentialsList E request =
     andThen (validate E (list_struct request)) (\<lambda>_.
     andThen (wrap ''list credentials'' (dao_CredentialsList E
         \<lparr>cl_Limit = lr_Limit request, cl_Offset = lr_Offset request, cl_Roles = lr_Roles request\<rparr>)) (\<lambda>entities.
     ret (map to_Credentials entities)))"

section \<open>Updates\<close>

record CoreUpdateEmailRequest =
  cue_UserID :: uuid
  cue_ShortCode :: string

definition update_email_tx :: "ext \<Rightarrow> CoreUpdateEmailRequest \<Rightarrow> dao_credentials io" where
  "update_email_tx E request =
     andThen (wrap ''consume short code'' (core_ShortCodeConsume E
         \<lparr>sco_Usage = ShortCodeUsageValidateEmail, sco_Target = x_uuid_string E (cue_UserID request),
          sco_Code = cue_ShortCode request\<rparr>)) (\<lambda>shortCode.
     andThen (wrap ''unmarshal short code data'' (lift (go_result (x_json_unmarshal E (sc_Data shortCode))))) (\<lambda>newEmail.
     andThen (ask (x_now E)) (\<lambda>now.
     wrap ''update email'' (dao_CredentialsUpdateEmail E
         \<lparr>ue_ID = cue_UserID request, ue_Email = newEmail, ue_Now = now\<rparr>))))"

definition core_CredentialsUpdateEmail :: "ext \<Rightarrow> CoreUpdateEmailRequest \<Rightarrow> Credentials io" where
  "core_CredentialsUpdateEmail E request =
     andThen (validate E [(FStr (cue_ShortCode request), [Required, Max 1024])]) (\<lambda>_.
     andThen (wrap ''run transaction'' (x_within_tx E (update_email_tx E request))) (\<lambda>row.
     ret (to_Credentials row)))"

record CoreUpdatePasswordRequest =
  cup_Password :: string
  cup_CurrentPassword :: string
  cup_ShortCode :: string
  cup_UserID :: uuid

definition update_password_struct :: "CoreUpdatePasswordRequest \<Rightarrow> struct" where
  "update_password_struct r =
     [(FStr (cup_Password r), [Required, Min 4, Max 1024]),
      (FStr (cup_CurrentPassword r), [RequiredWithout (cup_ShortCode r), Max 1024]),
      (FStr (cup_ShortCode r), [RequiredWithout (cup_CurrentPassword r), Max 1024])]"

text \<open>The two ways of proving the right to change a password.\<close>

definition password_proof :: "ext \<Rightarrow> CoreUpdatePasswordRequest \<Rightarrow> unit io" where
  "password_proof E request =
     (if cup_ShortCode request \<noteq> '''' then
        andThen (wrap ''consume short code'' (core_ShortCodeConsume E
           \<lparr>sco_Usage = ShortCodeUsageResetPassword, sco_Target = x_uuid_string E (cup_UserID request),
            sco_Code = cup_ShortCode request\<rparr>)) (\<lambda>_. ret ())
      else if cup_CurrentPassword request \<noteq> '''' then
        andThen (wrap ''select credentials'' (dao_CredentialsSelect E (cup_UserID request))) (\<lambda>row.
        wrap ''compare current password'' (io_CompareArgon2 E (cup_CurrentPassword request) (c_password row)))
      else ret ())"

definition update_password_tx :: "ext \<Rightarrow> CoreUpdatePasswordRequest \<Rightarrow> string \<Rightarrow> dao_credentials io" where
  "update_password_tx E request encryptedPassword =
     andThen (password_proof E request) (\<lambda>_.
     andThen (ask (x_now E)) (\<lambda>now.
     wrap ''update password'' (dao_CredentialsUpdatePassword E
         \<lparr>up_ID = cup_UserID request, up_Password = encryptedPassword, up_Now = now\<rparr>)))"

definition core_CredentialsUpdatePassword :: "ext \<Rightarrow> CoreUpdatePasswordRequest \<Rightarrow> Credentials io" where
  "core_CredentialsUpdatePassword E request =
     andThen (validate E (update_password_struct request)) (\<lambda>_.
     andThen (wrap ''encrypt password'' (io_GenerateArgon2 E (cup_Password request))) (\<lambda>encryptedPassword.
     andThen (wrap ''run transaction'' (x_within_tx E (update_password_tx E request encryptedPassword))) (\<lambda>row.
     ret (to_Credentials row))))"

record CoreUpdateRoleRequest =
  cur_TargetUserID :: uuid
  cur_CurrentUserID :: uuid
  cur_Role :: string

text \<open>The rank guards, in the order of the code.\<close>

definition role_guards :: "CoreUpdateRoleRequest \<Rightarrow> int \<Rightarrow> int \<Rightarrow> int \<Rightarrow> unit outcome" where
  "role_guards request newTarget target current =
     (if newTarget \<ge> target \<and> newTarget > current
      then Fail (Wrap ''upgrade'' (Sentinel ErrCredentialsUpdateRoleToHigher))
      else if newTarget \<le> target \<and> target \<ge> current
      then Fail (Wrap ''downgrade'' (Sentinel ErrCredentialsUpdateRoleDowngradeSuperior))
      else Ret ())"

definition core_CredentialsUpdateRole :: "ext \<Rightarrow> CoreUpdateRoleRequest \<Rightarrow> Credentials io" where
  "core_CredentialsUpdateRole E request =
     andThen (validate E [(FStr (cur_Role request), [Required, TagRole])]) (\<lambda>_.
     if cur_CurrentUserID request = cur_TargetUserID request
     then fail (Sentinel ErrCredentialsUpdateRoleSelfUpdate)
     else
     andThen (lift (Priority PermissionsConfigDefault (cur_Role request))) (\<lambda>newTargetRoleImportance.
     andThen (wrap ''select target credentials'' (dao_CredentialsSelect E (cur_TargetUserID request))) (\<lambda>targetCredentials.
     andThen (wrap ''select current user credentials'' (dao_CredentialsSelect E (cur_CurrentUserID request))) (\<lambda>currentCredentials.
     andThen (wrap ''rank target role'' (lift (Priority PermissionsConfigDefault (c_role targetCredentials)))) (\<lambda>targetRoleImportance.
     andThen (wrap ''rank current user role'' (lift (Priority PermissionsConfigDefault (c_role currentCredentials)))) (\<lambda>currentRoleImportance.
     andThen (lift (role_guards request newTargetRoleImportance targetRoleImportance currentRoleImportance)) (\<lambda>_.
     if newTargetRoleImportance = targetRoleImportance then ret (to_Credentials targetCredentials)
     else
     andThen (ask (x_now E)) (\<lambda>now.
     andThen (dao_CredentialsUpdateRole E
         \<lparr>ur_ID = cur_TargetUserID request, ur_Role = cur_Role request, ur_Now = now\<rparr>) (\<lambda>updated.
     ret (to_Credentials updated))))))))))"

section \<open>What a transaction leaves\<close>

text \<open>If a returned body leaves tables related to its result by \<open>R\<close>, so does a returned transaction,
  and any transaction leaves the tables as they were or so related.\<close>

lemma tx_result:
  assumes tx: "tx_contract tx" "\<not> in_tx w" "tx f w = (r, v)"
    and R: "\<And>w0 a w1. db w0 = db w \<Longrightarrow> in_tx w0 \<Longrightarrow> f w0 = (Ret a, w1) \<Longrightarrow> R a (db w1)"
  shows "(\<forall>a. r = Ret a \<longrightarrow> R a (db v)) \<and> (db v = db w \<or> (\<exists>a. R a (db v)))"
  using tx
proof (cases rule: tx_cases)
  case (committed w0 a w1)
  then show ?thesis using R by auto
next
  case (rolled_back w0 r0 w1)
  then show ?thesis by auto
next
  case (infrastructure w0 r0 w1 e)
  then show ?thesis using R [of w0] by (cases r0) auto
qed

lemma tx_outside:
  assumes "tx_contract tx" "\<not> in_tx w" "tx f w = (r, v)"
  shows "\<not> in_tx v" "jobs v = jobs w"
  using assms(1) [unfolded tx_contract_def, rule_format, OF assms(2), of f] unfolding assms(3) by auto

text \<open>The rows the three updates write.\<close>

lemma query_update_Ret:
  assumes "dao_query E (sql_update i f) c w = (Ret row, w')" "\<And>r. c_id (f r) = c_id r" "opaque_ok c"
  obtains old rs where "by_id i (credentials (db w)) = Some old" "row = f old"
    "update_table i f (credentials (db w)) = Inr rs" "db w' = (db w)\<lparr>credentials := rs\<rparr>"
  using assms(2,3)
proof (cases rule: update_cases [of f c E i w])
  case (updated r rs v)
  with assms(1) show ?thesis by (intro that) auto
qed (use assms(1) in auto)

definition set_email :: "string \<Rightarrow> time \<Rightarrow> dao_credentials \<Rightarrow> dao_credentials" where
  "set_email m now r = r\<lparr>c_email := m, c_updated_at := pg_ts0 now\<rparr>"

definition set_password :: "string \<Rightarrow> time \<Rightarrow> dao_credentials \<Rightarrow> dao_credentials" where
  "set_password p now r = r\<lparr>c_password := p, c_updated_at := pg_ts0 now\<rparr>"

definition set_role :: "string \<Rightarrow> time \<Rightarrow> dao_credentials \<Rightarrow> dao_credentials" where
  "set_role role now r = r\<lparr>c_role := role, c_updated_at := pg_ts0 now\<rparr>"

lemma set_simps [simp]:
  "c_id (set_email m t r) = c_id r" "c_id (set_password p t r) = c_id r" "c_id (set_role q t r) = c_id r"
  "c_email (set_email m t r) = m" "c_email (set_password p t r) = c_email r" "c_email (set_role q t r) = c_email r"
  "c_role (set_email m t r) = c_role r" "c_role (set_password p t r) = c_role r" "c_role (set_role q t r) = q"
  "c_password (set_email m t r) = c_password r" "c_password (set_password p t r) = p"
  "c_password (set_role q t r) = c_password r"
  "c_created_at (set_email m t r) = c_created_at r" "c_created_at (set_password p t r) = c_created_at r"
  "c_created_at (set_role q t r) = c_created_at r"
  by (simp_all add: set_email_def set_password_def set_role_def)

lemma dao_updates:
  "dao_CredentialsUpdateEmail E \<lparr>ue_ID = i, ue_Email = m, ue_Now = t\<rparr> =
     dao_query E (sql_update i (set_email m t))
       (\<lambda>e. if errors_as_pg e = Some ''23505'' then Join [e, Sentinel ErrCredentialsUpdateEmailAlreadyExists]
            else if errors_is e ErrNoRows then Join [e, Sentinel ErrCredentialsUpdateEmailNotFound]
            else e)"
  "dao_CredentialsUpdatePassword E \<lparr>up_ID = i, up_Password = p, up_Now = t\<rparr> =
     dao_query E (sql_update i (set_password p t)) (join_no_rows ErrCredentialsUpdatePasswordNotFound)"
  "dao_CredentialsUpdateRole E \<lparr>ur_ID = i, ur_Role = q, ur_Now = t\<rparr> =
     dao_query E (sql_update i (set_role q t)) (join_no_rows ErrCredentialsUpdateRoleNotFound)"
  by (simp_all add: dao_credentials_defs sql_credentialsUpdateEmail_def sql_credentialsUpdatePassword_def
      sql_credentialsUpdateRole_def set_email_def [abs_def] set_password_def [abs_def] set_role_def [abs_def])

lemma update_email_opaque: "opaque_ok (\<lambda>e. if errors_as_pg e = Some ''23505''
    then Join [e, Sentinel ErrCredentialsUpdateEmailAlreadyExists]
    else if errors_is e ErrNoRows then Join [e, Sentinel ErrCredentialsUpdateEmailNotFound] else e)"
  by (simp add: opaque_ok_def)

text \<open>What an update of one account does to the table.\<close>

definition account_updated ::
    "uuid \<Rightarrow> (dao_credentials \<Rightarrow> dao_credentials) \<Rightarrow> db \<Rightarrow> db \<Rightarrow> bool" where
  "account_updated i f d d' \<longleftrightarrow>
     (\<exists>old. by_id i (credentials d) = Some old \<and> by_id i (credentials d') = Some (f old)) \<and>
     (\<forall>j. j \<noteq> i \<longrightarrow> by_id j (credentials d') = by_id j (credentials d)) \<and>
     (accounts_ok d \<longrightarrow> accounts_ok d') \<and> short_codes d' = short_codes d"

lemma dao_update_Ret:
  assumes "dao_query E (sql_update i f) c w = (Ret row, w')" "\<And>r. c_id (f r) = c_id r" "opaque_ok c"
  shows "account_updated i f (db w) (db w')" "by_id i (credentials (db w')) = Some row"
proof -
  obtain old rs where o: "by_id i (credentials (db w)) = Some old" "row = f old"
    and u: "update_table i f (credentials (db w)) = Inr rs" "db w' = (db w)\<lparr>credentials := rs\<rparr>"
    by (rule query_update_Ret [OF assms])
  note look = accounts.update_lookup [of f i "credentials (db w)" rs, OF assms(2) u(1)]
  show "by_id i (credentials (db w')) = Some row" using look [of i] o u by simp
  show "account_updated i f (db w) (db w')"
    unfolding account_updated_def using o u look assms(2)
    by (auto simp: accounts_ok_def intro: accounts.update_invar)
qed

lemma inserted_Ret:
  assumes "dao_CredentialsInsert E rq w = (Ret row, w')"
  obtains rs where "row = new_row rq" "insert_row (new_row rq) (credentials (db w)) = Inr rs"
    "db w' = (db w)\<lparr>credentials := rs\<rparr>"
  by (cases rule: insert_cases [of E rq w]) (use assms in \<open>auto intro: that\<close>)

lemma new_row_simps [simp]:
  "c_id (new_row rq) = ci_ID rq" "c_email (new_row rq) = ci_Email rq"
  "c_password (new_row rq) = ci_Password rq" "c_role (new_row rq) = ci_Role rq"
  by (simp_all add: new_row_def)

section \<open>Registration is all or nothing\<close>

text \<open>The tables after a registration: the row is the only new account, and the code that proved the
  address is spent.\<close>

definition registered :: "ext \<Rightarrow> CredentialsCreateRequest \<Rightarrow> db \<Rightarrow> dao_credentials \<Rightarrow> db \<Rightarrow> bool" where
  "registered E rq d row d' \<longleftrightarrow>
     insert_row row (credentials d) = Inr (credentials d') \<and>
     c_email row = cc_Email rq \<and> c_role row = RoleUser \<and>
     generated_hash E (cc_Password rq) (c_password row) \<and>
     (\<exists>clock code. find_active (cc_Email rq, ShortCodeUsageRegister) clock (short_codes d) = Some code \<and>
        CompareArgon2 (x_idkey E) (x_argon_version E) (cc_ShortCode rq) (s_code code) = Ret ()) \<and>
     (\<forall>now. find_active (cc_Email rq, ShortCodeUsageRegister) now (short_codes d') = None) \<and>
     (\<forall>p now. p \<noteq> (cc_Email rq, ShortCodeUsageRegister) \<longrightarrow>
        find_active p now (short_codes d') = find_active p now (short_codes d))"

lemma register_tx_Ret:
  assumes "register_tx E rq enc w = (Ret row, w')" "short_codes_ok (db w)"
    "generated_hash E (cc_Password rq) enc"
  shows "registered E rq (db w) row (db w')"
proof -
  let ?crq = "\<lparr>sco_Usage = ShortCodeUsageRegister, sco_Target = cc_Email rq, sco_Code = cc_ShortCode rq\<rparr>"
  obtain sc w1 i now w2 where c: "core_ShortCodeConsume E ?crq w = (Ret sc, w1)"
    and ins: "dao_CredentialsInsert E \<lparr>ci_ID = i, ci_Email = cc_Email rq, ci_Password = enc,
          ci_Role = RoleUser, ci_Now = now\<rparr> w2 = (Ret row, w')" "db w2 = db w1"
    using assms(1) by (auto simp: register_tx_def run_Ret ask_Ret simp del: ask_run)
  from c obtain code clock where code: "find_active (cc_Email rq, ShortCodeUsageRegister) clock (short_codes (db w)) = Some code"
      "CompareArgon2 (x_idkey E) (x_argon_version E) (cc_ShortCode rq) (s_code code) = Ret ()"
    by (rule consume_Ret [OF _ assms(2)]) auto
  note spent = consume_spent [OF c assms(2)]
  from ins(1) obtain rs where "row = new_row \<lparr>ci_ID = i, ci_Email = cc_Email rq, ci_Password = enc,
          ci_Role = RoleUser, ci_Now = now\<rparr>" "insert_row row (credentials (db w2)) = Inr rs"
      "db w' = (db w2)\<lparr>credentials := rs\<rparr>"
    by (metis inserted_Ret)
  with spent ins(2) code assms(3) show ?thesis
    by (auto simp: registered_def)
qed

lemma account_create_result:
  assumes "core_CredentialsCreate E rq w = (r, w')" "tx_contract (x_within_tx E)" "\<not> in_tx w"
    "short_codes_ok (db w)"
  shows "db w' = db w \<or> (\<exists>row. registered E rq (db w) row (db w'))"
    and "r = Ret tok \<Longrightarrow> \<exists>row v. registered E rq (db w) row (db w') \<and>
        signTokenPair E row v = (Ret tok, w')"
proof -
  obtain r1 w1 where g: "io_GenerateArgon2 E (cc_Password rq) w = (r1, w1)"
    by (cases "io_GenerateArgon2 E (cc_Password rq) w")
  have w1: "db w1 = db w" "\<not> in_tx w1"
    using password_db(1,2) [of E "cc_Password rq" w] g assms(3) by simp_all
  have "(db w' = db w \<or> (\<exists>row. registered E rq (db w) row (db w'))) \<and>
      (\<forall>tok. r = Ret tok \<longrightarrow> (\<exists>row v. registered E rq (db w) row (db w') \<and> signTokenPair E row v = (Ret tok, w')))"
  proof (cases "struct_valid E (credentials_create_struct rq)")
    case False
    with assms(1) show ?thesis by (auto simp: core_CredentialsCreate_def andThen_def validate_run)
  next
    case valid: True
    show ?thesis
    proof (cases r1)
      case (Ret enc)
      have gen: "generated_hash E (cc_Password rq) enc" using g Ret io_generated by metis
      obtain r2 w2 where tx: "x_within_tx E (register_tx E rq enc) w1 = (r2, w2)"
        by (cases "x_within_tx E (register_tx E rq enc) w1")
      have R: "(\<forall>row. r2 = Ret row \<longrightarrow> registered E rq (db w) row (db w2)) \<and>
          (db w2 = db w \<or> (\<exists>row. registered E rq (db w) row (db w2)))"
        unfolding w1(1) [symmetric]
        by (rule tx_result [OF assms(2) w1(2) tx, where R = "registered E rq (db w1)"])
          (metis register_tx_Ret w1(1) assms(4) gen)
      show ?thesis
      proof (cases r2)
        case r2: (Ret row)
        obtain r3 w3 where s: "signTokenPair E row w2 = (r3, w3)" by (cases "signTokenPair E row w2")
        have "db w3 = db w2"
          using keepsD [OF sign_pair_rules(2) [of "\<lambda>d. d = db w2" "\<lambda>_. True" E row], of w2] s by simp
        then show ?thesis
          using assms(1) valid g Ret tx r2 s R
          by (cases r3) (auto simp: core_CredentialsCreate_def andThen_def validate_run wrap_def)
      qed (use assms(1) valid g Ret tx R in
          \<open>auto simp: core_CredentialsCreate_def andThen_def validate_run wrap_def\<close>)
    qed (use assms(1) valid g w1 in
        \<open>auto simp: core_CredentialsCreate_def andThen_def validate_run wrap_def\<close>)
  qed
  then show "db w' = db w \<or> (\<exists>row. registered E rq (db w) row (db w'))"
    "r = Ret tok \<Longrightarrow> \<exists>row v. registered E rq (db w) row (db w') \<and> signTokenPair E row v = (Ret tok, w')"
    by blast+
qed

section \<open>The other transactional services\<close>

text \<open>The shape they share: validate, run the transaction, project the row.\<close>

definition tx_service :: "ext \<Rightarrow> dao_credentials io \<Rightarrow> Credentials io" where
  "tx_service E f = andThen (wrap ''run transaction'' (x_within_tx E f)) (\<lambda>row. ret (to_Credentials row))"

lemma tx_service_result:
  assumes "tx_service E f w = (r, w')" "tx_contract (x_within_tx E)" "\<not> in_tx w"
    and R: "\<And>w0 row w1. db w0 = db w \<Longrightarrow> in_tx w0 \<Longrightarrow> f w0 = (Ret row, w1) \<Longrightarrow> R row (db w1)"
  shows "(\<forall>c. r = Ret c \<longrightarrow> (\<exists>row. c = to_Credentials row \<and> R row (db w'))) \<and>
    (db w' = db w \<or> (\<exists>row. R row (db w'))) \<and> jobs w' = jobs w \<and> \<not> in_tx w'"
proof -
  obtain r1 w1 where tx: "x_within_tx E f w = (r1, w1)" by (cases "x_within_tx E f w")
  have res: "(\<forall>a. r1 = Ret a \<longrightarrow> R a (db w1)) \<and> (db w1 = db w \<or> (\<exists>a. R a (db w1)))"
    by (rule tx_result [OF assms(2,3) tx]) (rule R)
  note out = tx_outside [OF assms(2,3) tx]
  from assms(1) tx res out show ?thesis
    by (cases r1) (auto simp: tx_service_def andThen_def wrap_def)
qed

definition hashed_service :: "ext \<Rightarrow> struct \<Rightarrow> string \<Rightarrow> (string \<Rightarrow> dao_credentials io) \<Rightarrow> Credentials io" where
  "hashed_service E fs pw f =
     andThen (validate E fs) (\<lambda>_.
     andThen (wrap ''encrypt password'' (io_GenerateArgon2 E pw)) (\<lambda>enc. tx_service E (f enc)))"

lemma services:
  "core_CredentialsCreateSuperAdmin E sa =
     hashed_service E (super_admin_struct sa) (sa_Password sa) (super_admin_tx E sa)"
  "core_CredentialsUpdatePassword E up =
     hashed_service E (update_password_struct up) (cup_Password up) (update_password_tx E up)"
  "core_CredentialsUpdateEmail E ue =
     andThen (validate E [(FStr (cue_ShortCode ue), [Required, Max 1024])]) (\<lambda>_.
     tx_service E (update_email_tx E ue))"
  unfolding hashed_service_def tx_service_def core_CredentialsCreateSuperAdmin_def
    core_CredentialsUpdatePassword_def core_CredentialsUpdateEmail_def
  by (rule refl)+

lemma hashed_service_result:
  assumes "hashed_service E fs pw f w = (r, w')" "tx_contract (x_within_tx E)" "\<not> in_tx w"
    and R: "\<And>enc w0 row w1. generated_hash E pw enc \<Longrightarrow> struct_valid E fs \<Longrightarrow> db w0 = db w \<Longrightarrow>
      in_tx w0 \<Longrightarrow> f enc w0 = (Ret row, w1) \<Longrightarrow> R row (db w1)"
  shows "(\<forall>c. r = Ret c \<longrightarrow> (\<exists>row. c = to_Credentials row \<and> R row (db w'))) \<and>
    (db w' = db w \<or> (\<exists>row. R row (db w')))"
proof (cases "struct_valid E fs")
  case False
  with assms(1) show ?thesis by (auto simp: hashed_service_def andThen_def validate_run)
next
  case valid: True
  obtain r1 w1 where g: "io_GenerateArgon2 E pw w = (r1, w1)" by (cases "io_GenerateArgon2 E pw w")
  have w1: "db w1 = db w" "\<not> in_tx w1"
    using password_db(1,2) [of E pw w] g assms(3) by simp_all
  show ?thesis
  proof (cases r1)
    case (Ret enc)
    then have run: "tx_service E (f enc) w1 = (r, w')"
      using assms(1) valid g by (simp add: hashed_service_def andThen_def validate_run wrap_def)
    have "generated_hash E pw enc" using g Ret io_generated by metis
    with tx_service_result [OF run assms(2) w1(2), of R] R valid w1(1) show ?thesis by auto
  qed (use assms(1) valid g w1 in
      \<open>auto simp: hashed_service_def andThen_def validate_run wrap_def\<close>)
qed

text \<open>Changing a password.\<close>

definition proven :: "ext \<Rightarrow> CoreUpdatePasswordRequest \<Rightarrow> db \<Rightarrow> db \<Rightarrow> bool" where
  "proven E rq d d' \<longleftrightarrow> credentials d' = credentials d \<and>
     (if cup_ShortCode rq \<noteq> '''' then
        (\<exists>clock code. find_active (x_uuid_string E (cup_UserID rq), ShortCodeUsageResetPassword) clock
             (short_codes d) = Some code \<and>
           CompareArgon2 (x_idkey E) (x_argon_version E) (cup_ShortCode rq) (s_code code) = Ret ()) \<and>
        (\<forall>now. find_active (x_uuid_string E (cup_UserID rq), ShortCodeUsageResetPassword) now
             (short_codes d') = None)
      else cup_CurrentPassword rq \<noteq> '''' \<and> short_codes d' = short_codes d \<and>
        (\<exists>row. by_id (cup_UserID rq) (credentials d) = Some row \<and>
           CompareArgon2 (x_idkey E) (x_argon_version E) (cup_CurrentPassword rq) (c_password row) = Ret ()))"

lemma password_proof_Ret:
  assumes "password_proof E rq w = (Ret u, w')" "short_codes_ok (db w)"
    "validator_contract E" "struct_valid E (update_password_struct rq)"
  shows "proven E rq (db w) (db w')"
proof (cases "cup_ShortCode rq = ''''")
  case False
  let ?crq = "\<lparr>sco_Usage = ShortCodeUsageResetPassword,
      sco_Target = x_uuid_string E (cup_UserID rq), sco_Code = cup_ShortCode rq\<rparr>"
  obtain sc where c: "core_ShortCodeConsume E ?crq w = (Ret sc, w')"
    using assms(1) False by (auto simp: password_proof_def run_Ret)
  from c obtain code clock where
    "find_active (x_uuid_string E (cup_UserID rq), ShortCodeUsageResetPassword) clock (short_codes (db w)) = Some code"
    "CompareArgon2 (x_idkey E) (x_argon_version E) (cup_ShortCode rq) (s_code code) = Ret ()"
    by (rule consume_Ret [OF _ assms(2)]) auto
  with consume_spent [OF c assms(2)] False show ?thesis by (auto simp: proven_def)
next
  case True
  have cur: "cup_CurrentPassword rq \<noteq> ''''"
    using assms(3,4) True by (auto simp: update_password_struct_def contract_tags)
  obtain row w1 where s: "dao_CredentialsSelect E (cup_UserID rq) w = (Ret row, w1)"
    and c: "CompareArgon2 (x_idkey E) (x_argon_version E) (cup_CurrentPassword rq) (c_password row) = Ret ()"
      "db w' = db w1"
    using assms(1) True cur by (auto simp: password_proof_def andThen_Ret wrap_Ret io_CompareArgon2_def)
  from s have "db w1 = db w" "by_id (cup_UserID rq) (credentials (db w)) = Some row"
    by (cases rule: select_cases [of E "cup_UserID rq" w]; auto)+
  with c True cur show ?thesis by (auto simp: proven_def)
qed

definition password_changed :: "ext \<Rightarrow> CoreUpdatePasswordRequest \<Rightarrow> db \<Rightarrow> dao_credentials \<Rightarrow> db \<Rightarrow> bool" where
  "password_changed E rq d row d' \<longleftrightarrow>
     (\<exists>enc now d1. generated_hash E (cup_Password rq) enc \<and> proven E rq d d1 \<and>
        account_updated (cup_UserID rq) (set_password enc now) d1 d' \<and>
        by_id (cup_UserID rq) (credentials d') = Some row \<and> c_password row = enc)"

lemma update_password_result:
  assumes "core_CredentialsUpdatePassword E rq w = (r, w')" "tx_contract (x_within_tx E)" "\<not> in_tx w"
    "short_codes_ok (db w)" "validator_contract E"
  shows "(\<forall>c. r = Ret c \<longrightarrow> (\<exists>row. c = to_Credentials row \<and> password_changed E rq (db w) row (db w'))) \<and>
    (db w' = db w \<or> (\<exists>row. password_changed E rq (db w) row (db w')))"
  using assms(1-3) unfolding services
proof (rule hashed_service_result)
  fix enc w0 row w1
  assume gen: "generated_hash E (cup_Password rq) enc" and v: "struct_valid E (update_password_struct rq)"
    and w0: "db w0 = db w" and run: "update_password_tx E rq enc w0 = (Ret row, w1)"
  from run obtain u w2 now where p: "password_proof E rq w0 = (Ret u, w2)"
    and d: "dao_CredentialsUpdatePassword E \<lparr>up_ID = cup_UserID rq, up_Password = enc, up_Now = now\<rparr>
        (w2\<lparr>tick := Suc (tick w2)\<rparr>) = (Ret row, w1)"
    by (auto simp: update_password_tx_def run_Ret ask_Ret simp del: ask_run)
  have "proven E rq (db w) (db w2)" using password_proof_Ret [OF p _ assms(5) v] w0 assms(4) by simp
  moreover have "account_updated (cup_UserID rq) (set_password enc now) (db w2) (db w1)"
    "by_id (cup_UserID rq) (credentials (db w1)) = Some row"
    using dao_update_Ret [OF d [unfolded dao_updates] _ join_no_rows_opaque] by simp_all
  moreover from this have "c_password row = enc"
    by (auto simp: account_updated_def)
  ultimately show "password_changed E rq (db w) row (db w1)"
    using gen by (auto simp: password_changed_def)
qed

text \<open>Confirming a new address.\<close>

definition email_changed :: "ext \<Rightarrow> CoreUpdateEmailRequest \<Rightarrow> db \<Rightarrow> dao_credentials \<Rightarrow> db \<Rightarrow> bool" where
  "email_changed E rq d row d' \<longleftrightarrow>
     (\<exists>clock code now d1.
        find_active (x_uuid_string E (cue_UserID rq), ShortCodeUsageValidateEmail) clock (short_codes d) = Some code \<and>
        CompareArgon2 (x_idkey E) (x_argon_version E) (cue_ShortCode rq) (s_code code) = Ret () \<and>
        x_json_unmarshal E (s_data code) = Inr (c_email row) \<and>
        credentials d1 = credentials d \<and>
        (\<forall>now. find_active (x_uuid_string E (cue_UserID rq), ShortCodeUsageValidateEmail) now (short_codes d1) = None) \<and>
        account_updated (cue_UserID rq) (set_email (c_email row) now) d1 d' \<and>
        by_id (cue_UserID rq) (credentials d') = Some row)"

lemma update_email_result:
  assumes "core_CredentialsUpdateEmail E rq w = (r, w')" "tx_contract (x_within_tx E)" "\<not> in_tx w"
    "short_codes_ok (db w)"
  shows "(\<forall>c. r = Ret c \<longrightarrow> (\<exists>row. c = to_Credentials row \<and> email_changed E rq (db w) row (db w'))) \<and>
    (db w' = db w \<or> (\<exists>row. email_changed E rq (db w) row (db w')))"
proof (cases "struct_valid E [(FStr (cue_ShortCode rq), [Required, Max 1024])]")
  case False
  with assms(1) show ?thesis
    unfolding services andThen_def validate_run by auto
next
  case True
  with assms(1) have run: "tx_service E (update_email_tx E rq) w = (r, w')"
    unfolding services andThen_def validate_run by simp
  have "email_changed E rq (db w) row (db w1)"
    if "db w0 = db w" "update_email_tx E rq w0 = (Ret row, w1)" for w0 row w1
  proof -
    let ?crq = "\<lparr>sco_Usage = ShortCodeUsageValidateEmail,
        sco_Target = x_uuid_string E (cue_UserID rq), sco_Code = cue_ShortCode rq\<rparr>"
    from that(2) obtain sc w2 m now where c: "core_ShortCodeConsume E ?crq w0 = (Ret sc, w2)"
      and m: "x_json_unmarshal E (sc_Data sc) = Inr m"
      and d: "dao_CredentialsUpdateEmail E \<lparr>ue_ID = cue_UserID rq, ue_Email = m, ue_Now = now\<rparr>
          (w2\<lparr>tick := Suc (tick w2)\<rparr>) = (Ret row, w1)"
      by (auto simp: update_email_tx_def run_Ret ask_Ret lift_result_Ret simp del: ask_run lift_run)
    have ok: "short_codes_ok (db w0)" using that(1) assms(4) by simp
    have "\<exists>code clock.
      find_active (x_uuid_string E (cue_UserID rq), ShortCodeUsageValidateEmail) clock (short_codes (db w)) = Some code \<and>
      CompareArgon2 (x_idkey E) (x_argon_version E) (cue_ShortCode rq) (s_code code) = Ret () \<and>
      sc_Data sc = s_data code"
      by (rule consume_Ret [OF c ok]) (auto simp: to_ShortCode_def that(1))
    then obtain code clock where code:
      "find_active (x_uuid_string E (cue_UserID rq), ShortCodeUsageValidateEmail) clock (short_codes (db w)) = Some code"
      "CompareArgon2 (x_idkey E) (x_argon_version E) (cue_ShortCode rq) (s_code code) = Ret ()"
      "sc_Data sc = s_data code" by blast
    have u: "account_updated (cue_UserID rq) (set_email m now) (db w2) (db w1)"
      "by_id (cue_UserID rq) (credentials (db w1)) = Some row"
      using dao_update_Ret [OF d [unfolded dao_updates] _ update_email_opaque] by simp_all
    then have "c_email row = m" by (auto simp: account_updated_def)
    with u code m consume_spent [OF c ok] that(1) show ?thesis
      unfolding email_changed_def by (intro exI [of _ clock] exI [of _ code] exI [of _ now] exI [of _ "db w2"]) auto
  qed
  with tx_service_result [OF run assms(2,3), of "email_changed E rq (db w)"] show ?thesis by blast
qed

text \<open>Provisioning the super-admin.\<close>

definition provisioned :: "ext \<Rightarrow> CredentialsCreateSuperAdminRequest \<Rightarrow> db \<Rightarrow> dao_credentials \<Rightarrow> db \<Rightarrow> bool" where
  "provisioned E rq d row d' \<longleftrightarrow>
     by_email (sa_Email rq) (credentials d') = Some row \<and> c_role row = RoleSuperAdmin \<and>
     generated_hash E (sa_Password rq) (c_password row) \<and> short_codes d' = short_codes d \<and>
     (case by_email (sa_Email rq) (credentials d) of
        None \<Rightarrow> insert_row row (credentials d) = Inr (credentials d')
      | Some old \<Rightarrow> c_id row = c_id old \<and> c_created_at row = c_created_at old \<and>
          (\<forall>j. j \<noteq> c_id old \<longrightarrow> by_id j (credentials d') = by_id j (credentials d)))"

lemma find_account_Ret:
  assumes "find_account E m w = (Ret found, w')"
  shows "found = by_email m (credentials (db w))" "db w' = db w"
  using assms
  by (cases rule: select_email_cases [of E m w];
      auto simp: find_account_def prog_simps errors_is_sentinels)+

lemma account_updated_email:
  assumes "account_updated i f d d'" "accounts_ok d" "by_id i (credentials d) = Some old"
    "c_id (f old) = i" "c_email (f old) = m"
  shows "by_email m (credentials d') = Some (f old)" "accounts_ok d'"
proof -
  show ok: "accounts_ok d'" using assms by (simp add: account_updated_def)
  have "by_id i (credentials d') = Some (f old)" using assms(1,3) by (auto simp: account_updated_def)
  then show "by_email m (credentials d') = Some (f old)"
    using ok assms(4,5) by (simp add: accounts.lookup_name_iff accounts_ok_def)
qed

lemma super_admin_tx_Ret:
  assumes "super_admin_tx E rq enc w = (Ret row, w')" "accounts_ok (db w)"
    "generated_hash E (sa_Password rq) enc"
  shows "provisioned E rq (db w) row (db w')"
proof -
  let ?now = "x_now E (tick w)"
  obtain found w1 where fa: "find_account E (sa_Email rq) (w\<lparr>tick := Suc (tick w)\<rparr>) = (Ret found, w1)"
    and rest: "(case found of
       None \<Rightarrow>
         andThen (ask (x_uuid_new E)) (\<lambda>i.
         wrap ''insert credentials'' (dao_CredentialsInsert E
           \<lparr>ci_ID = i, ci_Email = sa_Email rq, ci_Password = enc, ci_Role = RoleSuperAdmin, ci_Now = ?now\<rparr>))
     | Some row \<Rightarrow>
         andThen (wrap ''update password'' (dao_CredentialsUpdatePassword E
           \<lparr>up_ID = c_id row, up_Password = enc, up_Now = ?now\<rparr>)) (\<lambda>row.
         if c_role row \<noteq> RoleSuperAdmin
         then wrap ''update role'' (dao_CredentialsUpdateRole E
           \<lparr>ur_ID = c_id row, ur_Role = RoleSuperAdmin, ur_Now = ?now\<rparr>)
         else ret row)) w1 = (Ret row, w')"
    using assms(1) by (auto simp: super_admin_tx_def andThen_Ret ask_Ret simp del: ask_run)
  have found: "found = by_email (sa_Email rq) (credentials (db w))" and db1: "db w1 = db w"
    using find_account_Ret [OF fa] by simp_all
  have ok1: "credentials_ok (credentials (db w1))" using assms(2) db1 by (simp add: accounts_ok_def)
  show ?thesis
  proof (cases found)
    case None
    with rest obtain i w2 where ins: "dao_CredentialsInsert E \<lparr>ci_ID = i, ci_Email = sa_Email rq,
        ci_Password = enc, ci_Role = RoleSuperAdmin, ci_Now = ?now\<rparr> w2 = (Ret row, w')" "db w2 = db w1"
      by (auto simp: run_Ret ask_Ret simp del: ask_run)
    then obtain rs where r: "insert_row row (credentials (db w)) = Inr rs"
        "c_email row = sa_Email rq" "c_role row = RoleSuperAdmin" "c_password row = enc"
        "db w' = (db w)\<lparr>credentials := rs\<rparr>"
      using db1 by (auto elim!: inserted_Ret)
    with ok1 db1 found None assms(3) show ?thesis
      by (auto simp: provisioned_def accounts.insert_lookup_name)
  next
    case (Some old)
    then have old: "c_email old = sa_Email rq" "by_id (c_id old) (credentials (db w)) = Some old"
      using found ok1 db1 by (simp_all add: accounts.lookup_name_iff [OF ok1 [unfolded db1]])
    from rest Some obtain row1 w2 where p: "dao_CredentialsUpdatePassword E
        \<lparr>up_ID = c_id old, up_Password = enc, up_Now = ?now\<rparr> w1 = (Ret row1, w2)"
      and q: "(if c_role row1 \<noteq> RoleSuperAdmin
         then wrap ''update role'' (dao_CredentialsUpdateRole E
           \<lparr>ur_ID = c_id row1, ur_Role = RoleSuperAdmin, ur_Now = ?now\<rparr>)
         else ret row1) w2 = (Ret row, w')"
      by (auto simp: run_Ret)
    note up = dao_update_Ret [OF p [unfolded dao_updates] _ join_no_rows_opaque, simplified]
    have row1: "row1 = set_password enc ?now old"
      using up old db1 by (auto simp: account_updated_def)
    note em1 = account_updated_email [OF up(1), of old "sa_Email rq"]
    have ok2: "accounts_ok (db w2)" "by_email (sa_Email rq) (credentials (db w2)) = Some row1"
      using em1 old db1 assms(2) row1 by simp_all
    show ?thesis
    proof (cases "c_role row1 = RoleSuperAdmin")
      case True
      then have "row = row1" "w' = w2" using q by simp_all
      with True ok2 up row1 old db1 Some found assms(3) show ?thesis
        by (auto simp: provisioned_def account_updated_def)
    next
      case False
      then have d: "dao_CredentialsUpdateRole E
          \<lparr>ur_ID = c_id old, ur_Role = RoleSuperAdmin, ur_Now = ?now\<rparr> w2 = (Ret row, w')"
        using q row1 by (simp add: wrap_Ret)
      note ur = dao_update_Ret [OF d [unfolded dao_updates] _ join_no_rows_opaque, simplified]
      have row: "row = set_role RoleSuperAdmin ?now row1"
        using ur up(2) row1 by (auto simp: account_updated_def)
      have "by_email (sa_Email rq) (credentials (db w')) = Some row"
        using account_updated_email [OF ur(1) ok2(1) up(2)] row row1 old by simp
      with row row1 ur up old db1 Some found assms(3) show ?thesis
        by (auto simp: provisioned_def account_updated_def)
    qed
  qed
qed

lemma super_admin_result:
  assumes "core_CredentialsCreateSuperAdmin E rq w = (r, w')" "tx_contract (x_within_tx E)" "\<not> in_tx w"
    "accounts_ok (db w)"
  shows "(\<forall>c. r = Ret c \<longrightarrow> (\<exists>row. c = to_Credentials row \<and> provisioned E rq (db w) row (db w'))) \<and>
    (db w' = db w \<or> (\<exists>row. provisioned E rq (db w) row (db w')))"
  using assms(1-3) unfolding services
  by (rule hashed_service_result) (metis super_admin_tx_Ret assms(4))

section \<open>Changing a role\<close>

lemma role_guards_Ret: "role_guards rq n t c = Ret () \<longleftrightarrow>
    (n > t \<and> n \<le> c) \<or> (n < t \<and> t < c) \<or> (n = t \<and> n < c)"
  by (auto simp: role_guards_def)

text \<open>The ranks of the two accounts and of the asked role.\<close>

definition rank :: "string \<Rightarrow> int" where
  "rank role = (case Priority PermissionsConfigDefault role of Ret n \<Rightarrow> n | _ \<Rightarrow> 0)"

lemma rank_Ret: "Priority PermissionsConfigDefault r = Ret n \<Longrightarrow> rank r = n"
  by (simp add: rank_def)

lemma Priority_rank: "r \<in> set role_check_list \<Longrightarrow> Priority PermissionsConfigDefault r = Ret (rank r)"
  using known_role_priority [of r] by (auto simp: rank_def)

lemma rank_injective: "r \<in> set role_check_list \<Longrightarrow> s \<in> set role_check_list \<Longrightarrow> rank r = rank s \<longleftrightarrow> r = s"
  using priority_injective Priority_rank by metis

lemma update_role_Ret:
  assumes "core_CredentialsUpdateRole E rq w = (Ret c, w')" "accounts_ok (db w)"
  obtains target actor where
    "by_id (cur_TargetUserID rq) (credentials (db w)) = Some target"
    "by_id (cur_CurrentUserID rq) (credentials (db w)) = Some actor"
    "cur_CurrentUserID rq \<noteq> cur_TargetUserID rq" "cur_Role rq \<in> set role_check_list"
    "rank (c_role target) < rank (c_role actor) \<or>
       rank (c_role target) < rank (cur_Role rq)"
    "rank (cur_Role rq) \<le> rank (c_role actor)"
    "c_role target = cur_Role rq \<and> db w' = db w \<or>
     c_role target \<noteq> cur_Role rq \<and>
       (\<exists>now. account_updated (cur_TargetUserID rq) (set_role (cur_Role rq) now) (db w) (db w'))"
proof -
  obtain n w1 target w2 actor w3 tn cn where
    v: "tag_holds E TagRole (FStr (cur_Role rq))" and ne: "cur_CurrentUserID rq \<noteq> cur_TargetUserID rq"
    and n: "Priority PermissionsConfigDefault (cur_Role rq) = Ret n"
    and t: "dao_CredentialsSelect E (cur_TargetUserID rq) w = (Ret target, w2)"
    and a: "dao_CredentialsSelect E (cur_CurrentUserID rq) w2 = (Ret actor, w3)"
    and tn: "Priority PermissionsConfigDefault (c_role target) = Ret tn"
    and cn: "Priority PermissionsConfigDefault (c_role actor) = Ret cn"
    and g: "role_guards rq n tn cn = Ret ()"
    and fin: "(if n = tn then ret (to_Credentials target)
     else andThen (ask (x_now E)) (\<lambda>now.
     andThen (dao_CredentialsUpdateRole E
         \<lparr>ur_ID = cur_TargetUserID rq, ur_Role = cur_Role rq, ur_Now = now\<rparr>) (\<lambda>updated.
     ret (to_Credentials updated)))) w3 = (Ret c, w')"
    using assms(1) unfolding core_CredentialsUpdateRole_def
    by (auto simp: andThen_Ret wrap_Ret validate_Ret split: if_splits)
  have t': "by_id (cur_TargetUserID rq) (credentials (db w)) = Some target" "db w2 = db w"
    using t by (cases rule: select_cases [of E "cur_TargetUserID rq" w]; auto)+
  have a': "by_id (cur_CurrentUserID rq) (credentials (db w)) = Some actor" "db w3 = db w"
    using a t'(2) by (cases rule: select_cases [of E "cur_CurrentUserID rq" w2]; auto)+
  have role: "cur_Role rq \<in> set role_check_list" using v by (simp add: tag_simps)
  have ranks: "rank (cur_Role rq) = n" "rank (c_role target) = tn" "rank (c_role actor) = cn"
    using n tn cn by (simp_all add: rank_Ret)
  have known: "c_role target \<in> set role_check_list"
    using t'(1) assms(2) by (auto simp: accounts_ok_def credentials_ok_def by_id_Some row_checks_def)
  have g': "(n > tn \<and> n \<le> cn) \<or> (n < tn \<and> tn < cn) \<or> (n = tn \<and> n < cn)"
    using g by (simp add: role_guards_Ret)
  have last: "c_role target = cur_Role rq \<and> db w' = db w \<or>
     c_role target \<noteq> cur_Role rq \<and>
       (\<exists>now. account_updated (cur_TargetUserID rq) (set_role (cur_Role rq) now) (db w) (db w'))"
  proof (cases "n = tn")
    case True
    then have "c_role target = cur_Role rq" using ranks rank_injective [OF known role] by simp
    with True fin a'(2) show ?thesis by simp
  next
    case False
    then obtain upd where "dao_CredentialsUpdateRole E \<lparr>ur_ID = cur_TargetUserID rq, ur_Role = cur_Role rq,
        ur_Now = x_now E (tick w3)\<rparr> (w3\<lparr>tick := Suc (tick w3)\<rparr>) = (Ret upd, w')"
      using fin by (auto simp: run_Ret)
    from dao_update_Ret(1) [OF this [unfolded dao_updates] _ join_no_rows_opaque]
    have "account_updated (cur_TargetUserID rq) (set_role (cur_Role rq) (x_now E (tick w3))) (db w) (db w')"
      using a'(2) by simp
    moreover have "c_role target \<noteq> cur_Role rq" using False ranks by auto
    ultimately show ?thesis by blast
  qed
  show thesis
    using g' ranks by (intro that [OF t'(1) a'(1) ne role _ _ last]) auto
qed

section \<open>The tables stay consistent\<close>

text \<open>The constraints of both tables.\<close>

definition service_ok :: "db \<Rightarrow> bool" where
  "service_ok d \<longleftrightarrow> accounts_ok d \<and> short_codes_ok d"

lemma sql_keeps_conj: "sql_keeps I q \<Longrightarrow> sql_keeps J q \<Longrightarrow> sql_keeps (\<lambda>d. I d \<and> J d) q"
  by (simp add: sql_keeps_def)

lemma service_statements [keeps_intros]:
  "sql_keeps service_ok (sql_shortCodeSelect t u)" "sql_keeps service_ok (sql_shortCodeDelete at c u1)"
  "sql_keeps service_ok (sql_discardConflict at c t u)" "sql_keeps service_ok (sql_discardExpired at c t u)"
  "sql_keeps service_ok (sql_checkConflict t u)"
  "sql_keeps service_ok (sql_shortCodeInsert i code u t data cr ex)"
  "sql_keeps service_ok (sql_credentialsSelect i)" "sql_keeps service_ok (sql_credentialsSelectByEmail m)"
  "sql_keeps service_ok (sql_credentialsExist m)" "sql_keeps service_ok (sql_credentialsList l k roles)"
  "sql_keeps service_ok (sql_credentialsInsert i m p cc uu r)"
  "sql_keeps service_ok (sql_credentialsUpdateEmail m now i)"
  "sql_keeps service_ok (sql_credentialsUpdatePassword p now i)"
  "sql_keeps service_ok (sql_credentialsUpdateRole r now i)"
proof -
  have c: "sql_keeps service_ok q" if "sql_keeps short_codes_ok q" "\<And>cs. sql_keeps (\<lambda>d. credentials d = cs) q" for q :: "'r sql"
    using that by (auto simp: sql_keeps_def service_ok_def accounts_ok_def)
  have a: "sql_keeps service_ok q" if "sql_keeps accounts_ok q" "\<And>cs. sql_keeps (\<lambda>d. short_codes d = cs) q" for q :: "'r sql"
    using that by (auto simp: sql_keeps_def service_ok_def short_codes_ok_def)
  note a' = account_statements_keep_codes [of "\<lambda>c. c = cs" for cs]
  show "sql_keeps service_ok (sql_shortCodeSelect t u)" "sql_keeps service_ok (sql_shortCodeDelete at c u1)"
    "sql_keeps service_ok (sql_shortCodeInsert i code u t data cr ex)"
    "sql_keeps service_ok (sql_discardConflict at c t u)" "sql_keeps service_ok (sql_discardExpired at c t u)"
    "sql_keeps service_ok (sql_checkConflict t u)"
    by (intro c code_statements_keep statements_keep_other_table)+
  show "sql_keeps service_ok (sql_credentialsSelect i)" "sql_keeps service_ok (sql_credentialsSelectByEmail m)"
    "sql_keeps service_ok (sql_credentialsExist m)"
    "sql_keeps service_ok (sql_credentialsList l k roles)" "sql_keeps service_ok (sql_credentialsInsert i m p cc uu r)"
    by (intro a read_keeps insert_keeps_ok a')+
  show "sql_keeps service_ok (sql_credentialsUpdateEmail m now i)"
    "sql_keeps service_ok (sql_credentialsUpdatePassword p now i)"
    "sql_keeps service_ok (sql_credentialsUpdateRole r now i)"
    using a' (6) by (auto simp: sql_credentialsUpdateEmail_def sql_credentialsUpdatePassword_def
        sql_credentialsUpdateRole_def intro!: a update_keeps_ok)
qed

text \<open>Every operation of the core keeps them, whatever fails, in a transaction of the caller's or in
  its own.\<close>

lemma keeps_service_dao [keeps_intros]:
  "keeps_db service_ok P (dao_CredentialsInsert E a)" "keeps_db service_ok P (dao_CredentialsExist E b)"
  "keeps_db service_ok P (dao_CredentialsSelect E c)"
  "keeps_db service_ok P (dao_CredentialsSelectByEmail E d)"
  "keeps_db service_ok P (dao_CredentialsList E e)"
  "keeps_db service_ok P (dao_CredentialsUpdateEmail E f)"
  "keeps_db service_ok P (dao_CredentialsUpdatePassword E g)"
  "keeps_db service_ok P (dao_CredentialsUpdateRole E h)"
  "keeps_db service_ok P (dao_ShortCodeSelect E ss)" "keeps_db service_ok P (dao_ShortCodeDelete E sd)"
  unfolding dao_credentials_defs dao_ShortCodeSelect_def dao_ShortCodeDelete_def by (intro keeps_intros)+

lemma keeps_consume_ok [keeps_intros]: "keeps_db service_ok P (core_ShortCodeConsume E rq)"
  unfolding core_ShortCodeConsume_def by (intro keeps_intros validate_rules(1))

lemma keeps_bodies:
  "keeps_db service_ok P (register_tx E rc enc)" "keeps_db service_ok P (super_admin_tx E rs enc)"
  "keeps_db service_ok P (update_email_tx E re)" "keeps_db service_ok P (update_password_tx E rp enc)"
proof -
  show "keeps_db service_ok P (register_tx E rc enc)"
    unfolding register_tx_def by (intro keeps_intros)
  show "keeps_db service_ok P (super_admin_tx E rs enc)"
    unfolding super_admin_tx_def find_account_def by (intro keeps_intros)
  show "keeps_db service_ok P (update_email_tx E re)"
    unfolding update_email_tx_def by (intro keeps_intros)
  show "keeps_db service_ok P (update_password_tx E rp enc)"
    unfolding update_password_tx_def password_proof_def by (intro keeps_intros)
qed

lemma keeps_account_services:
  assumes "tx_contract (x_within_tx E)"
  shows "keeps_db service_ok Not (core_CredentialsCreate E a)"
    "keeps_db service_ok Not (core_CredentialsCreateSuperAdmin E b)"
    "keeps_db service_ok Not (core_CredentialsUpdateEmail E c)"
    "keeps_db service_ok Not (core_CredentialsUpdatePassword E d)"
    "keeps_db service_ok P (core_CredentialsUpdateRole E e)"
    "keeps_db service_ok P (core_CredentialsExist E f)" "keeps_db service_ok P (core_CredentialsGet E g)"
    "keeps_db service_ok P (core_CredentialsList E h)"
    "keeps_db service_ok P (core_TokenCreate E i)" "keeps_db service_ok P (core_TokenRefresh E j)"
    "keeps_db service_ok P (core_TokenCreateAnon E)"
proof -
  note body = keeps_tx [OF assms keeps_bodies(1)] keeps_tx [OF assms keeps_bodies(2)]
    keeps_tx [OF assms keeps_bodies(3)] keeps_tx [OF assms keeps_bodies(4)]
  show "keeps_db service_ok Not (core_CredentialsCreate E a)"
    unfolding core_CredentialsCreate_def by (intro keeps_intros validate_rules(1) sign_pair_rules body)
  show "keeps_db service_ok Not (core_CredentialsCreateSuperAdmin E b)"
    unfolding core_CredentialsCreateSuperAdmin_def by (intro keeps_intros validate_rules(1) body)
  show "keeps_db service_ok Not (core_CredentialsUpdateEmail E c)"
    unfolding core_CredentialsUpdateEmail_def by (intro keeps_intros validate_rules(1) body)
  show "keeps_db service_ok Not (core_CredentialsUpdatePassword E d)"
    unfolding core_CredentialsUpdatePassword_def by (intro keeps_intros validate_rules(1) body)
  show "keeps_db service_ok P (core_CredentialsUpdateRole E e)"
    unfolding core_CredentialsUpdateRole_def by (intro keeps_intros validate_rules(1))
  show "keeps_db service_ok P (core_CredentialsExist E f)"
    unfolding core_CredentialsExist_def by (intro keeps_intros validate_rules(1))
  show "keeps_db service_ok P (core_CredentialsGet E g)"
    unfolding core_CredentialsGet_def by (intro keeps_intros)
  show "keeps_db service_ok P (core_CredentialsList E h)"
    unfolding core_CredentialsList_def by (intro keeps_intros validate_rules(1))
  show "keeps_db service_ok P (core_TokenCreate E i)"
    unfolding core_TokenCreate_def by (intro keeps_intros validate_rules(1) sign_pair_rules)
  show "keeps_db service_ok P (core_TokenRefresh E j)"
    unfolding core_TokenRefresh_def marshal_any_def claims_sign_def by (intro keeps_intros validate_rules(1))
  show "keeps_db service_ok P (core_TokenCreateAnon E)"
    unfolding core_TokenCreateAnon_def claims_sign_def by (intro keeps_intros)
qed

lemma keeps_code_services:
  assumes "tx_contract (x_within_tx_code E)"
  shows "keeps_db service_ok Not (core_ShortCodeCreateEmailUpdate E cfg urls a)"
    "keeps_db service_ok Not (core_ShortCodeCreatePasswordReset E cfg urls b)"
    "keeps_db service_ok Not (core_ShortCodeCreateRegister E cfg urls c)"
proof -
  have ins: "keeps_db service_ok Not (dao_ShortCodeInsert E rq)" for rq
    by (intro keeps_code_insert keeps_code_body service_statements assms) simp
  have send: "keeps_db service_ok Not (go_send j)" for j by (simp add: keeps_def)
  have create: "keeps_db service_ok Not (core_ShortCodeCreate E cfg rq)" for rq
    unfolding core_ShortCodeCreate_def by (intro keeps_intros validate_rules(1) marshal_rules(1) ins)
  show "keeps_db service_ok Not (core_ShortCodeCreateEmailUpdate E cfg urls a)"
    "keeps_db service_ok Not (core_ShortCodeCreateRegister E cfg urls c)"
    unfolding flow_defs by (intro keeps_intros validate_rules(1) create send)+
  show "keeps_db service_ok Not (core_ShortCodeCreatePasswordReset E cfg urls b)"
    unfolding core_ShortCodeCreatePasswordReset_def
    by (intro keeps_intros validate_rules(1) create send)
qed

section \<open>The sentinels of the account services\<close>

definition account_create_errors :: "sentinel set" where
  "account_create_errors = consume_errors \<union> {ErrCredentialsInsertAlreadyExists}"

definition update_email_errors :: "sentinel set" where
  "update_email_errors = consume_errors \<union>
     {ErrCredentialsUpdateEmailAlreadyExists, ErrCredentialsUpdateEmailNotFound}"

definition update_password_errors :: "sentinel set" where
  "update_password_errors = consume_errors \<union>
     {ErrCredentialsSelectNotFound, ErrCredentialsUpdatePasswordNotFound}"

definition update_role_errors :: "sentinel set" where
  "update_role_errors = {ErrInvalidRequest, ErrNoRows, ErrCredentialsUpdateRoleSelfUpdate, ErrUnknownRole,
     ErrCredentialsSelectNotFound, ErrCredentialsUpdateRoleToHigher,
     ErrCredentialsUpdateRoleDowngradeSuperior, ErrCredentialsUpdateRoleNotFound}"

lemmas raises_consume_sub [raises_intros] = raises_mono [OF raises_consume]

lemma keeps_flags [keeps_intros]:
  "keeps_db (\<lambda>_. True) P (core_ShortCodeConsume E rq)" "keeps_db (\<lambda>_. True) P (validate E fs)"
  unfolding core_ShortCodeConsume_def by (intro keeps_intros validate_rules(1))+

lemma raises_priority [raises_intros]: "ErrUnknownRole \<in> S \<Longrightarrow> raises P S (lift (Priority p role))"
  by (auto simp: raises_def dest: Priority_Fail)

lemma raises_guards [raises_intros]:
  "{ErrCredentialsUpdateRoleToHigher, ErrCredentialsUpdateRoleDowngradeSuperior} \<subseteq> S \<Longrightarrow>
   raises P S (lift (role_guards rq n t c))"
  by (auto simp: raises_def role_guards_def split: if_splits)

lemma keeps_lift_any [keeps_intros]: "keeps I (lift r)"
  by (simp add: keeps_def)

lemma raises_exist: "raises P {} (dao_CredentialsExist E m)"
  unfolding dao_CredentialsExist_def
  by (intro raises_intros keeps_intros raises_run_stmt) (auto simp: sql_credentialsExist_def sql_keeps_def)

lemma raises_list: "raises P {} (dao_CredentialsList E rq)"
proof -
  have l: "raises P {} (lift (Panic m))" for m by (simp add: raises_def)
  show ?thesis
    unfolding dao_CredentialsList_def
    by (intro raises_intros keeps_intros raises_run_stmt l)
      (auto simp: sql_credentialsList_def Let_def split: if_splits)
qed

lemma raises_account_services:
  assumes "tx_contract (x_within_tx E)"
  shows "raises Not account_create_errors (core_CredentialsCreate E a)"
    "raises Not update_email_errors (core_CredentialsUpdateEmail E b)"
    "raises Not update_password_errors (core_CredentialsUpdatePassword E c)"
    "raises P update_role_errors (core_CredentialsUpdateRole E d)"
    "raises P {ErrInvalidRequest} (core_CredentialsExist E e)"
    "raises P {ErrNoRows, ErrCredentialsSelectNotFound} (core_CredentialsGet E f)"
    "raises P {ErrInvalidRequest} (core_CredentialsList E g)"
proof -
  have flag: "keeps_db (\<lambda>_. True) Not (x_within_tx E body)" if "keeps_db (\<lambda>_. True) (\<lambda>_. True) body" for body
    by (rule keeps_tx [OF assms that])
  have triv: "keeps_db (\<lambda>_. True) (\<lambda>_. True) m" for m :: "'a io" by (simp add: keeps_def)
  have r1: "raises (\<lambda>_. True) account_create_errors (register_tx E a enc)" for enc
    unfolding register_tx_def
    by (intro raises_intros keeps_intros) (auto simp: account_create_errors_def consume_errors_def)
  have r2: "raises (\<lambda>_. True) update_email_errors (update_email_tx E b)"
    unfolding update_email_tx_def
    by (intro raises_intros keeps_intros) (auto simp: update_email_errors_def consume_errors_def)
  have r3: "raises (\<lambda>_. True) update_password_errors (update_password_tx E c enc)" for enc
    unfolding update_password_tx_def password_proof_def
    by (intro raises_intros keeps_intros) (auto simp: update_password_errors_def consume_errors_def)
  show "raises Not account_create_errors (core_CredentialsCreate E a)"
    unfolding core_CredentialsCreate_def
    by (intro raises_intros keeps_intros sign_pair_rules raises_tx [OF assms r1] flag triv)
      (auto simp: account_create_errors_def consume_errors_def)
  show "raises Not update_email_errors (core_CredentialsUpdateEmail E b)"
    unfolding core_CredentialsUpdateEmail_def
    by (intro raises_intros keeps_intros raises_tx [OF assms r2] flag)
      (auto simp: update_email_errors_def consume_errors_def keeps_def)
  show "raises Not update_password_errors (core_CredentialsUpdatePassword E c)"
    unfolding core_CredentialsUpdatePassword_def
    by (intro raises_intros keeps_intros raises_tx [OF assms r3] flag)
      (auto simp: update_password_errors_def consume_errors_def keeps_def)
  show "raises P update_role_errors (core_CredentialsUpdateRole E d)"
    unfolding core_CredentialsUpdateRole_def
    by (intro raises_intros keeps_intros) (auto simp: update_role_errors_def)
  show "raises P {ErrInvalidRequest} (core_CredentialsExist E e)"
    unfolding core_CredentialsExist_def
    by (intro raises_intros keeps_intros raises_mono [OF raises_exist]) auto
  show "raises P {ErrNoRows, ErrCredentialsSelectNotFound} (core_CredentialsGet E f)"
    unfolding core_CredentialsGet_def by (intro raises_intros keeps_intros) auto
  show "raises P {ErrInvalidRequest} (core_CredentialsList E g)"
    unfolding core_CredentialsList_def
    by (intro raises_intros keeps_intros raises_mono [OF raises_list] frames_flag [OF frames_accounts(5)]) auto
qed

section \<open>Role changes, whatever way the call ends\<close>

text \<open>Which stage of a program changed the tables.\<close>

lemma andThen_changed:
  assumes "andThen m f w = (r, w')" "keeps_db (\<lambda>d. d = db w) (\<lambda>_. True) m" "db w' \<noteq> db w"
  obtains a w1 where "m w = (Ret a, w1)" "db w1 = db w" "f a w1 = (r, w')"
proof -
  obtain r1 w1 where m: "m w = (r1, w1)" by (cases "m w")
  have "db w1 = db w" using keepsD [OF assms(2), of w] m by simp
  with assms(1,3) m that show thesis by (cases r1) (auto simp: andThen_def)
qed

lemma update_row_absent: "by_id i rs = None \<Longrightarrow> update_row i f rs = rs"
  by (auto simp: by_id_None update_row_def image_iff intro!: map_idI)

lemma update_applied:
  assumes u: "update_table i f (credentials d) = Inr rs" and f: "\<And>r. c_id (f r) = c_id r"
  shows "d\<lparr>credentials := rs\<rparr> = d \<or> account_updated i f d (d\<lparr>credentials := rs\<rparr>)"
proof (cases "by_id i (credentials d)")
  case None
  then have "rs = credentials d" using u update_row_absent by (simp add: update_table_Inr)
  then show ?thesis by simp
next
  case (Some old)
  note look = accounts.update_lookup [of f i "credentials d" rs, OF f u]
  show ?thesis
    unfolding account_updated_def using Some look f u accounts.update_invar [OF _ f u]
    by (auto simp: accounts_ok_def)
qed

lemma dao_update_any:
  assumes r: "dao_query E (sql_update i f) c w = (r, w')" and f: "\<And>r. c_id (f r) = c_id r" and c: "opaque_ok c"
  shows "db w' = db w \<or> account_updated i f (db w) (db w')"
  using f c
proof (cases rule: update_cases [of f c E i w])
  case (infra e v)
  then show ?thesis using r update_applied [OF _ f, of i "db w"] by auto
next
  case (updated row rs v)
  then show ?thesis using r update_applied [OF _ f, of i "db w" rs] by auto
qed (use r in auto)

lemma keeps_same_db:
  "keeps_db (\<lambda>d. d = d0) P (dao_CredentialsSelect E i)"
  unfolding dao_CredentialsSelect_def by (intro keeps_intros)

text \<open>What a role change needs, whatever way the call ends.\<close>

definition role_change :: "CoreUpdateRoleRequest \<Rightarrow> db \<Rightarrow> db \<Rightarrow> bool" where
  "role_change rq d d' \<longleftrightarrow>
     cur_CurrentUserID rq \<noteq> cur_TargetUserID rq \<and> cur_Role rq \<in> set role_check_list \<and>
     (\<exists>target actor now.
        by_id (cur_TargetUserID rq) (credentials d) = Some target \<and>
        by_id (cur_CurrentUserID rq) (credentials d) = Some actor \<and>
        (rank (c_role target) < rank (c_role actor) \<or> rank (c_role target) < rank (cur_Role rq)) \<and>
        rank (cur_Role rq) \<le> rank (c_role actor) \<and>
        account_updated (cur_TargetUserID rq) (set_role (cur_Role rq) now) d d')"

text \<open>The part of the operation after both rows are read.\<close>

definition role_finish ::
    "ext \<Rightarrow> CoreUpdateRoleRequest \<Rightarrow> int \<Rightarrow> dao_credentials \<Rightarrow> dao_credentials \<Rightarrow> Credentials io" where
  "role_finish E rq n target actor =
     andThen (wrap ''rank target role'' (lift (Priority PermissionsConfigDefault (c_role target)))) (\<lambda>tn.
     andThen (wrap ''rank current user role'' (lift (Priority PermissionsConfigDefault (c_role actor)))) (\<lambda>cn.
     andThen (lift (role_guards rq n tn cn)) (\<lambda>_.
     if n = tn then ret (to_Credentials target)
     else
     andThen (ask (x_now E)) (\<lambda>now.
     andThen (dao_CredentialsUpdateRole E
         \<lparr>ur_ID = cur_TargetUserID rq, ur_Role = cur_Role rq, ur_Now = now\<rparr>) (\<lambda>updated.
     ret (to_Credentials updated))))))"

lemma update_role_split:
  "core_CredentialsUpdateRole E rq =
     andThen (validate E [(FStr (cur_Role rq), [Required, TagRole])]) (\<lambda>_.
     if cur_CurrentUserID rq = cur_TargetUserID rq
     then fail (Sentinel ErrCredentialsUpdateRoleSelfUpdate)
     else
     andThen (lift (Priority PermissionsConfigDefault (cur_Role rq))) (\<lambda>n.
     andThen (wrap ''select target credentials'' (dao_CredentialsSelect E (cur_TargetUserID rq))) (\<lambda>target.
     andThen (wrap ''select current user credentials'' (dao_CredentialsSelect E (cur_CurrentUserID rq))) (\<lambda>actor.
     role_finish E rq n target actor))))"
  by (simp add: core_CredentialsUpdateRole_def role_finish_def)

lemma role_finish_changed:
  assumes "role_finish E rq n target actor w = (r, w')" "db w' \<noteq> db w"
  obtains tn cn now where "Priority PermissionsConfigDefault (c_role target) = Ret tn"
    "Priority PermissionsConfigDefault (c_role actor) = Ret cn" "role_guards rq n tn cn = Ret ()"
    "account_updated (cur_TargetUserID rq) (set_role (cur_Role rq) now) (db w) (db w')"
proof -
  let ?w = "w\<lparr>tick := Suc (tick w)\<rparr>"
  obtain tn cn where p: "Priority PermissionsConfigDefault (c_role target) = Ret tn"
      "Priority PermissionsConfigDefault (c_role actor) = Ret cn" "role_guards rq n tn cn = Ret ()"
    and u: "andThen (dao_CredentialsUpdateRole E
         \<lparr>ur_ID = cur_TargetUserID rq, ur_Role = cur_Role rq, ur_Now = x_now E (tick w)\<rparr>) (\<lambda>updated.
       ret (to_Credentials updated)) ?w = (r, w')"
    using assms
    by (cases "Priority PermissionsConfigDefault (c_role target)";
        cases "Priority PermissionsConfigDefault (c_role actor)")
      (auto simp: role_finish_def andThen_def wrap_def split: if_splits outcome.splits)
  obtain r1 w1 where q: "dao_CredentialsUpdateRole E \<lparr>ur_ID = cur_TargetUserID rq, ur_Role = cur_Role rq,
      ur_Now = x_now E (tick w)\<rparr> ?w = (r1, w1)"
    by (cases "dao_CredentialsUpdateRole E \<lparr>ur_ID = cur_TargetUserID rq, ur_Role = cur_Role rq,
      ur_Now = x_now E (tick w)\<rparr> ?w")
  have "db w1 = db w'" using u q by (cases r1) (auto simp: andThen_def)
  with dao_update_any [OF q [unfolded dao_updates] _ join_no_rows_opaque] assms(2)
  show thesis by (intro that [OF p]) simp
qed

lemma update_role_result:
  assumes "core_CredentialsUpdateRole E rq w = (r, w')"
  shows "db w' = db w \<or> role_change rq (db w) (db w')"
proof (cases "db w' = db w")
  case ch: False
  have v: "tag_holds E TagRole (FStr (cur_Role rq))" and ne: "cur_CurrentUserID rq \<noteq> cur_TargetUserID rq"
    and "\<exists>n. Priority PermissionsConfigDefault (cur_Role rq) = Ret n"
    using assms ch unfolding update_role_split
    by (auto simp: andThen_def [of "validate _ _"] andThen_def [of "lift _"] validate_run
        split: if_splits outcome.splits)
  then obtain n where n: "Priority PermissionsConfigDefault (cur_Role rq) = Ret n" by blast
  have s: "andThen (wrap ''select target credentials'' (dao_CredentialsSelect E (cur_TargetUserID rq))) (\<lambda>target.
     andThen (wrap ''select current user credentials'' (dao_CredentialsSelect E (cur_CurrentUserID rq))) (\<lambda>actor.
     role_finish E rq n target actor)) w = (r, w')"
    using assms ch n ne unfolding update_role_split
    by (auto simp: andThen_def [of "validate _ _"] andThen_def [of "lift _"] validate_run split: if_splits)
  obtain target w1 where t: "wrap ''select target credentials'' (dao_CredentialsSelect E (cur_TargetUserID rq)) w = (Ret target, w1)"
    and d1: "db w1 = db w" and s1: "andThen (wrap ''select current user credentials''
       (dao_CredentialsSelect E (cur_CurrentUserID rq))) (role_finish E rq n target) w1 = (r, w')"
    by (rule andThen_changed [OF s keeps_wrap [OF keeps_same_db] ch])
  have ch1: "db w' \<noteq> db w1" using ch d1 by simp
  obtain actor w2 where a: "wrap ''select current user credentials'' (dao_CredentialsSelect E (cur_CurrentUserID rq)) w1 = (Ret actor, w2)"
    and d2: "db w2 = db w1" and s2: "role_finish E rq n target actor w2 = (r, w')"
    by (rule andThen_changed [OF s1 keeps_wrap [OF keeps_same_db] ch1])
  have t': "by_id (cur_TargetUserID rq) (credentials (db w)) = Some target"
    using t by (cases rule: select_cases [of E "cur_TargetUserID rq" w]; auto simp: wrap_Ret)
  have a': "by_id (cur_CurrentUserID rq) (credentials (db w)) = Some actor"
    using a d1 by (cases rule: select_cases [of E "cur_CurrentUserID rq" w1]; auto simp: wrap_Ret)
  obtain tn cn now where p: "Priority PermissionsConfigDefault (c_role target) = Ret tn"
    "Priority PermissionsConfigDefault (c_role actor) = Ret cn" "role_guards rq n tn cn = Ret ()"
    and upd: "account_updated (cur_TargetUserID rq) (set_role (cur_Role rq) now) (db w2) (db w')"
    using ch d1 d2 by (metis role_finish_changed [OF s2])
  have "role_change rq (db w) (db w')"
    unfolding role_change_def
    using ne v t' a' upd d1 d2 p(3) rank_Ret [OF n] rank_Ret [OF p(1)] rank_Ret [OF p(2)]
    by (auto simp: tag_simps role_guards_Ret)
  then show ?thesis by blast
qed simp

text \<open>A role of the configuration grants the permissions introduced at its priority or below.\<close>

lemma default_permission_rank:
  assumes "flattened default_mods default_deps (set role_check_list) perms" "role \<in> set role_check_list"
    and "granted_from p = Some n"
  shows "\<exists>ps. perms role = Some ps \<and> (p \<in> set ps \<longleftrightarrow> n \<le> rank role)"
proof -
  have g: "p \<in> set (entry default_mods ''auth:anon'') \<and> n = 0 \<or>
     p \<in> set (entry default_mods ''auth:user'') \<and> n = 1 \<or>
     p \<in> set (entry default_mods ''auth:admin'') \<and> n = 2 \<or>
     p \<in> set (entry default_mods ''auth:superadmin'') \<and> n = 3"
    using assms(3)
    by (auto simp: granted_from_def PermissionsConfigDefault_def entry_def default_mods_def split: if_splits)
  have disjoint: "set (entry default_mods ''auth:anon'') \<inter> set (entry default_mods ''auth:user'') = {}"
    "set (entry default_mods ''auth:anon'') \<inter> set (entry default_mods ''auth:admin'') = {}"
    "set (entry default_mods ''auth:anon'') \<inter> set (entry default_mods ''auth:superadmin'') = {}"
    "set (entry default_mods ''auth:user'') \<inter> set (entry default_mods ''auth:admin'') = {}"
    "set (entry default_mods ''auth:user'') \<inter> set (entry default_mods ''auth:superadmin'') = {}"
    "set (entry default_mods ''auth:admin'') \<inter> set (entry default_mods ''auth:superadmin'') = {}"
    by (simp_all add: entry_def default_mods_def PermissionsConfigDefault_def)
  have ranks: "rank ''auth:anon'' = 0" "rank ''auth:user'' = 1" "rank ''auth:admin'' = 2" "rank ''auth:superadmin'' = 3"
    by (simp_all add: rank_def Priority_def PermissionsConfigDefault_def)
  have "role = ''auth:anon'' \<or> role = ''auth:user'' \<or> role = ''auth:admin'' \<or> role = ''auth:superadmin''"
    using assms(2) by (simp add: role_check_list_def)
  then show ?thesis
    using g disjoint default_granted_lists [OF assms(1)] ranks by (elim disjE) auto
qed

end
