(* ===== verification/Http.thy ===== *)
theory Http
  imports Accounts
begin

text \<open>
  The HTTP side of the service: replies, the claims stored in a request's context, and the
  authentication middleware of \<open>internal/handlers/middlewares/rest.auth.go\<close> with the permission map
  \<open>NewAuthHandler\<close> (\<open>pkg/go/auth.go\<close>) resolves at startup. \<open>httpf.HandleError\<close>, which picks the status of
  an error from a map of sentinels, is a parameter with the contract of its documentation.
\<close>

section \<open>Replies\<close>

text \<open>\<open>None\<close> as a key is the map's \<open>nil\<close> entry, the default.\<close>

type_synonym err_map = "(sentinel option \<times> nat) list"

record http =
  h_status :: "err_map \<Rightarrow> go_error \<Rightarrow> nat"
  h_order :: "nat \<Rightarrow> string list \<Rightarrow> string list"

text \<open>The JSON the endpoints answer with: \<open>handlers.Token\<close>, \<open>handlers.Credentials\<close>, \<open>handlers.Claims\<close>
  and \<open>handlers.RestHealthStatus\<close>.\<close>

record RestToken =
  rt_AccessToken :: string
  rt_RefreshToken :: string

definition loadToken :: "Token \<Rightarrow> RestToken" where
  "loadToken s = \<lparr>rt_AccessToken = AccessToken s, rt_RefreshToken = RefreshToken s\<rparr>"

record RestCredentials =
  rc_ID :: uuid
  rc_Email :: string
  rc_Role :: string
  rc_CreatedAt :: time
  rc_UpdatedAt :: time

definition loadCredentials :: "Credentials \<Rightarrow> RestCredentials" where
  "loadCredentials s =
     \<lparr>rc_ID = cr_ID s, rc_Email = cr_Email s, rc_Role = cr_Role s,
      rc_CreatedAt = cr_CreatedAt s, rc_UpdatedAt = cr_UpdatedAt s\<rparr>"

record RestClaims =
  rcl_UserID :: "uuid option"
  rcl_Roles :: "string list"
  rcl_RefreshTokenID :: string

datatype health_status = RestHealthStatusUp | RestHealthStatusDown

datatype body =
    NoBody | TextBody string | ErrorBody
  | TokenBody RestToken | CredentialsBody RestCredentials | ListBody "RestCredentials list"
  | ClaimsBody RestClaims | HealthBody "(string \<times> health_status) list"

datatype reply = Reply (reply_status: nat) (reply_body: body)

definition error_reply :: "http \<Rightarrow> err_map \<Rightarrow> go_error \<Rightarrow> reply" where
  "error_reply H m e = Reply (h_status H m e) ErrorBody"

definition handle_error :: "http \<Rightarrow> err_map \<Rightarrow> go_error \<Rightarrow> reply io" where
  "handle_error H m e = ret (error_reply H m e)"

text \<open>A service call followed by its error map, or by its reply.\<close>

definition respond :: "http \<Rightarrow> err_map \<Rightarrow> 'a io \<Rightarrow> ('a \<Rightarrow> reply) \<Rightarrow> reply io" where
  "respond H m svc f = onError (andThen svc (\<lambda>a. ret (f a))) (\<lambda>e. handle_error H m e)"

text \<open>\<open>HandleError\<close>: the status of an entry whose sentinel the error matches, else the default, else
  500.\<close>

definition status_contract :: "http \<Rightarrow> bool" where
  "status_contract H \<longleftrightarrow> (\<forall>m e.
     (let hits = {n. \<exists>s. (Some s, n) \<in> set m \<and> errors_is e s} in
      if hits \<noteq> {} then h_status H m e \<in> hits
      else if \<exists>n. (None, n) \<in> set m then (None, h_status H m e) \<in> set m
      else h_status H m e = 500))"

definition hits :: "err_map \<Rightarrow> go_error \<Rightarrow> nat set" where
  "hits m e = {n. \<exists>s. (Some s, n) \<in> set m \<and> s \<in> sentinels_of e}"

lemma status_cases:
  assumes "status_contract H"
  shows "hits m e \<noteq> {} \<Longrightarrow> h_status H m e \<in> hits m e"
    and "hits m e = {} \<Longrightarrow> (None, n) \<in> set m \<Longrightarrow> (None, h_status H m e) \<in> set m"
    and "hits m e = {} \<Longrightarrow> (\<And>n. (None, n) \<notin> set m) \<Longrightarrow> h_status H m e = 500"
proof -
  have h: "{n. \<exists>s. (Some s, n) \<in> set m \<and> errors_is e s} = hits m e"
    by (simp add: hits_def errors_is_sentinels)
  have c: "if hits m e \<noteq> {} then h_status H m e \<in> hits m e
      else if \<exists>n. (None, n) \<in> set m then (None, h_status H m e) \<in> set m
      else h_status H m e = 500"
    using assms [unfolded status_contract_def Let_def, rule_format, of m e] unfolding h .
  show "hits m e \<noteq> {} \<Longrightarrow> h_status H m e \<in> hits m e" using c by argo
  show "hits m e = {} \<Longrightarrow> (None, n) \<in> set m \<Longrightarrow> (None, h_status H m e) \<in> set m" using c by metis
  show "hits m e = {} \<Longrightarrow> (\<And>n. (None, n) \<notin> set m) \<Longrightarrow> h_status H m e = 500" using c by metis
qed

lemma status_default:
  assumes "status_contract H"
  shows "h_status H [(None, n)] e = n"
  using status_cases(2) [OF assms, of "[(None, n)]" e n] by (simp add: hits_def)

lemma status_hit:
  assumes "status_contract H" "(Some s, n) \<in> set m" "s \<in> sentinels_of e"
    "\<And>s' n'. (Some s', n') \<in> set m \<Longrightarrow> s' \<in> sentinels_of e \<Longrightarrow> n' = n"
  shows "h_status H m e = n"
proof -
  have "hits m e = {n}" using assms(2-4) unfolding hits_def by blast
  then show ?thesis using status_cases(1) [OF assms(1), of m e] by simp
qed

lemma status_miss:
  assumes "status_contract H" "\<And>s n. (Some s, n) \<in> set m \<Longrightarrow> s \<notin> sentinels_of e"
    "\<And>n. (None, n) \<notin> set m"
  shows "h_status H m e = 500"
proof -
  have "hits m e = {}" using assms(2) unfolding hits_def by blast
  then show ?thesis using status_cases(3) [OF assms(1)] assms(3) by blast
qed

lemma respond_run: "respond H m svc f w =
    (case svc w of (Ret a, w') \<Rightarrow> (Ret (f a), w') | (Fail e, w') \<Rightarrow> (Ret (error_reply H m e), w')
     | (Panic p, w') \<Rightarrow> (Panic p, w'))"
  by (auto simp: respond_def handle_error_def prog_simps split: prod.split outcome.split)

section \<open>Claims in the context\<close>

text \<open>\<open>ctx.Value(ClaimsContextKey{})\<close>: nothing, a typed nil pointer, claims, or a value of another type.\<close>

datatype ctx_value = NoValue | NilClaims | SomeClaims AccessTokenClaims | ForeignValue

definition GetClaimsContext :: "ctx_value \<Rightarrow> AccessTokenClaims option outcome" where
  "GetClaimsContext raw =
     (case raw of
        NoValue \<Rightarrow> Ret None
      | NilClaims \<Rightarrow> Ret None
      | SomeClaims c \<Rightarrow> Ret (Some c)
      | ForeignValue \<Rightarrow> Fail (Wrap ''unexpected claims'' (Sentinel ErrUnexpectedClaims)))"

definition MustGetClaimsContext :: "ctx_value \<Rightarrow> AccessTokenClaims outcome" where
  "MustGetClaimsContext raw =
     map_outcome_ret (\<lambda>c. case c of None \<Rightarrow> Fail (Sentinel ErrMissingAuth) | Some claims \<Rightarrow> Ret claims)
       (GetClaimsContext raw)"

definition SetClaimsContext :: "ctx_value \<Rightarrow> AccessTokenClaims \<Rightarrow> ctx_value" where
  "SetClaimsContext ctx claims = SomeClaims claims"

section \<open>The middleware\<close>

type_synonym role_permissions = "string \<Rightarrow> string list option"

datatype role_check = Allowed | Denied | UnknownRole string

text \<open>The loop over the roles of the token, which stops at the first that grants a permission.\<close>

fun check_roles :: "role_permissions \<Rightarrow> string list \<Rightarrow> string list \<Rightarrow> role_check" where
  "check_roles permissionsByRole required [] = Denied"
| "check_roles permissionsByRole required (role # roles) =
     (case permissionsByRole role of
        None \<Rightarrow> UnknownRole role
      | Some permissions \<Rightarrow>
          if list_ex (\<lambda>item. item \<in> set required) permissions then Allowed
          else check_roles permissionsByRole required roles)"

definition invalid_auth :: go_error where
  "invalid_auth = Wrap ''invalid authentication'' (Sentinel ErrInvalidAuth)"

type_synonym handler = "ctx_value \<Rightarrow> reply io"

definition Middleware ::
    "ext \<Rightarrow> http \<Rightarrow> role_permissions \<Rightarrow> string list \<Rightarrow> handler \<Rightarrow> string \<Rightarrow> handler" where
  "Middleware E H permissionsByRole required next token ctx =
     (if token = '''' \<and> required = [] then next ctx
      else if token = '''' then handle_error H [(None, 401)] invalid_auth
      else case split_on (CHR '' '') token of
        [scheme, accessToken] \<Rightarrow>
          if scheme \<noteq> ''Bearer'' then handle_error H [(None, 401)] invalid_auth
          else andThen (ask (\<lambda>t. x_verify_access E t False accessToken)) (\<lambda>verified. case verified of
            Inl err \<Rightarrow> handle_error H [(Some ErrInvalidSignature, 401)] err
          | Inr claims \<Rightarrow>
              if required = [] then next (SetClaimsContext ctx claims)
              else (case check_roles permissionsByRole required (Roles claims) of
                 UnknownRole role \<Rightarrow> handle_error H [(None, 500)] (Wrap ''in token'' (Sentinel ErrUnknownRole))
               | Denied \<Rightarrow> handle_error H [(None, 403)] invalid_auth
               | Allowed \<Rightarrow> next (SetClaimsContext ctx claims)))
      | _ \<Rightarrow> handle_error H [(None, 401)] invalid_auth)"

section \<open>What the middleware lets through\<close>

text \<open>A permission granted by one of the roles.\<close>

definition grants :: "role_permissions \<Rightarrow> string list \<Rightarrow> string list \<Rightarrow> bool" where
  "grants perms required roles \<longleftrightarrow>
     (\<exists>role\<in>set roles. \<exists>ps. perms role = Some ps \<and> set ps \<inter> set required \<noteq> {})"

lemma check_roles_Allowed: "check_roles perms required roles = Allowed \<Longrightarrow> grants perms required roles"
  by (induction roles) (auto simp: grants_def list_ex_iff split: option.splits if_splits)

lemma check_roles_known:
  assumes "\<forall>role\<in>set roles. perms role \<noteq> None"
  shows "check_roles perms required roles = (if grants perms required roles then Allowed else Denied)"
  using assms
proof (induction roles)
  case (Cons role roles)
  then obtain ps where ps: "perms role = Some ps" by auto
  show ?case
  proof (cases "set ps \<inter> set required = {}")
    case True
    then have "\<not> list_ex (\<lambda>item. item \<in> set required) ps" by (auto simp: list_ex_iff)
    moreover have "grants perms required (role # roles) = grants perms required roles"
      using True ps by (auto simp: grants_def)
    ultimately show ?thesis using Cons ps by simp
  next
    case False
    then have "list_ex (\<lambda>item. item \<in> set required) ps" by (auto simp: list_ex_iff)
    moreover have "grants perms required (role # roles)" using False ps by (auto simp: grants_def)
    ultimately show ?thesis using ps by simp
  qed
qed (simp add: grants_def)

lemma check_roles_unknown:
  "check_roles perms required roles = UnknownRole r \<Longrightarrow> r \<in> set roles \<and> perms r = None"
  by (induction roles) (auto split: option.splits if_splits)

definition bearer :: "string \<Rightarrow> string \<Rightarrow> bool" where
  "bearer token tok \<longleftrightarrow> token = ''Bearer '' @ tok \<and> CHR '' '' \<notin> set tok"

lemma split_bearer: "split_on (CHR '' '') token = [''Bearer'', tok] \<longleftrightarrow> bearer token tok"
proof
  assume s: "split_on (CHR '' '') token = [''Bearer'', tok]"
  have "token = join_with (CHR '' '') (split_on (CHR '' '') token)" by (simp add: join_split_on)
  moreover have "CHR '' '' \<notin> set tok" using s split_on_parts_free [of tok "CHR '' ''" token] by simp
  ultimately show "bearer token tok" using s by (simp add: bearer_def)
next
  assume "bearer token tok"
  then show "split_on (CHR '' '') token = [''Bearer'', tok]"
    using split_on_append [of "CHR '' ''" "''Bearer''" tok] by (simp add: bearer_def split_on_free)
qed

text \<open>The ways a request ends at the middleware. The verifier is asked once, for a bearer token only.\<close>

lemma Middleware_cases:
  obtains (anonymous) "token = ''''" "required = []"
      "Middleware E H perms required next token ctx w = next ctx w"
  | (missing) "token = ''''" "required \<noteq> []"
      "Middleware E H perms required next token ctx w = handle_error H [(None, 401)] invalid_auth w"
  | (malformed) "token \<noteq> ''''" "\<nexists>tok. bearer token tok"
      "Middleware E H perms required next token ctx w = handle_error H [(None, 401)] invalid_auth w"
  | (unverified) tok e where "bearer token tok" "x_verify_access E (tick w) False tok = Inl e"
      "Middleware E H perms required next token ctx w =
         handle_error H [(Some ErrInvalidSignature, 401)] e (w\<lparr>tick := Suc (tick w)\<rparr>)"
  | (verified) tok c where "bearer token tok" "x_verify_access E (tick w) False tok = Inr c"
      "required = []"
      "Middleware E H perms required next token ctx w = next (SomeClaims c) (w\<lparr>tick := Suc (tick w)\<rparr>)"
  | (checked) tok c where "bearer token tok" "x_verify_access E (tick w) False tok = Inr c"
      "required \<noteq> []"
      "Middleware E H perms required next token ctx w =
         (case check_roles perms required (Roles c) of
            UnknownRole role \<Rightarrow> handle_error H [(None, 500)] (Wrap ''in token'' (Sentinel ErrUnknownRole))
          | Denied \<Rightarrow> handle_error H [(None, 403)] invalid_auth
          | Allowed \<Rightarrow> next (SomeClaims c)) (w\<lparr>tick := Suc (tick w)\<rparr>)"
proof (cases "token = ''''")
  case True
  then show ?thesis using that(1,2) by (cases "required = []") (simp_all add: Middleware_def)
next
  case False
  show ?thesis
  proof (cases "\<exists>tok. bearer token tok")
    case True
    then obtain tok where b: "bearer token tok" by blast
    have s: "split_on (CHR '' '') token = [''Bearer'', tok]" using b by (simp add: split_bearer)
    show ?thesis
    proof (cases "x_verify_access E (tick w) False tok")
      case (Inl e)
      then show ?thesis using that(4) b s False by (simp add: Middleware_def andThen_def)
    next
      case (Inr c)
      show ?thesis
      proof (cases "required = []")
        case True
        with Inr b s False show ?thesis
          by (intro that(5) [of tok c]) (simp_all add: Middleware_def andThen_def SetClaimsContext_def)
      next
        case req: False
        show ?thesis
        proof (rule that(6) [OF b Inr req])
          show "Middleware E H perms required next token ctx w =
            (case check_roles perms required (Roles c) of
               UnknownRole role \<Rightarrow> handle_error H [(None, 500)] (Wrap ''in token'' (Sentinel ErrUnknownRole))
             | Denied \<Rightarrow> handle_error H [(None, 403)] invalid_auth
             | Allowed \<Rightarrow> next (SomeClaims c)) (w\<lparr>tick := Suc (tick w)\<rparr>)"
            using Inr s req False
            by (cases "check_roles perms required (Roles c)")
              (simp_all add: Middleware_def andThen_def SetClaimsContext_def)
        qed
      qed
    qed
  next
    case no: False
    have "Middleware E H perms required next token ctx w = handle_error H [(None, 401)] invalid_auth w"
    proof (cases "\<exists>scheme tok. split_on (CHR '' '') token = [scheme, tok]")
      case True
      then obtain scheme tok where s: "split_on (CHR '' '') token = [scheme, tok]" by blast
      with no have "scheme \<noteq> ''Bearer''" using split_bearer by blast
      with s False show ?thesis by (simp add: Middleware_def)
    next
      case other: False
      then show ?thesis using False by (auto simp: Middleware_def split: list.split)
    qed
    with that(3) no False show ?thesis by blast
  qed
qed

end
