(* ===== verification/Handlers.thy ===== *)
theory Handlers
  imports Http
begin

text \<open>
  The REST handlers (\<open>internal/handlers/rest.*.go\<close>), one definition per \<open>ServeHTTP\<close>, with the error map
  of each. The request decoders (\<open>encoding/json\<close>, \<open>gorilla/schema\<close>) and the probes of the health check
  are parameters: a handler takes the result of decoding, an error or the request.
\<close>

section \<open>Requests\<close>

record RestCredentialsCreateRequest =
  hcc_Email :: string
  hcc_Password :: string
  hcc_ShortCode :: string

record RestCredentialsListRequest =
  hl_Limit :: int
  hl_Offset :: int
  hl_Roles :: "string list"

record RestResetPasswordRequest =
  hrp_Password :: string
  hrp_ShortCode :: string
  hrp_UserID :: uuid

record RestUpdateEmailRequest =
  hue_UserID :: uuid
  hue_ShortCode :: string

record RestUpdatePasswordRequest =
  hup_Password :: string
  hup_CurrentPassword :: string

record RestUpdateRoleRequest =
  hur_UserID :: uuid
  hur_Role :: string

record RestMailRequest =
  hm_Email :: string
  hm_Lang :: string

record RestTokenCreateRequest =
  ht_Email :: string
  ht_Password :: string

record RestTokenRefreshRequest =
  htr_AccessToken :: string
  htr_RefreshToken :: string

text \<open>Decoding comes first in every handler that has a request, and its error is a 400.\<close>

definition with_request :: "http \<Rightarrow> string + 'r \<Rightarrow> ('r \<Rightarrow> reply io) \<Rightarrow> reply io" where
  "with_request H decoded f =
     (case decoded of
        Inl m \<Rightarrow> handle_error H [(None, 400)] (Opaque m)
      | Inr request \<Rightarrow> f request)"

text \<open>\<open>MustGetClaimsContext\<close>, whose error is handled with the given map.\<close>

definition with_claims :: "http \<Rightarrow> err_map \<Rightarrow> ctx_value \<Rightarrow> (AccessTokenClaims \<Rightarrow> reply io) \<Rightarrow> reply io" where
  "with_claims H m ctx f =
     (case MustGetClaimsContext ctx of
        Ret claims \<Rightarrow> f claims
      | Fail e \<Rightarrow> handle_error H m e
      | Panic p \<Rightarrow> lift (Panic p))"

section \<open>Session\<close>

definition rest_Ping :: "reply io" where
  "rest_Ping = ret (Reply 200 (TextBody ''pong''))"

definition NewRestHealthStatus :: "string option \<Rightarrow> health_status" where
  "NewRestHealthStatus err = (if err = None then RestHealthStatusUp else RestHealthStatusDown)"

text \<open>\<open>reportPostgres\<close>: inside a transaction the handle is no \<open>*bun.DB\<close> and nothing is probed.\<close>

definition reportPostgres :: "ext \<Rightarrow> (nat \<Rightarrow> string option) \<Rightarrow> string option io" where
  "reportPostgres E ping = (\<lambda>w.
     andThen (ask (x_conn E)) (\<lambda>r. case r of
       Some err \<Rightarrow> ret (Some err)
     | None \<Rightarrow> if in_tx w then ret None else ask ping) w)"

definition reportSmtp :: "(nat \<Rightarrow> string option) \<Rightarrow> string option io" where
  "reportSmtp ping = ask ping"

definition reportJsonKeys :: "(nat \<Rightarrow> string option) \<Rightarrow> string option io" where
  "reportJsonKeys status = ask status"

definition rest_Health ::
    "ext \<Rightarrow> (nat \<Rightarrow> string option) \<Rightarrow> (nat \<Rightarrow> string option) \<Rightarrow> (nat \<Rightarrow> string option) \<Rightarrow> reply io" where
  "rest_Health E pgPing smtpPing jsonKeysStatus =
     andThen (reportPostgres E pgPing) (\<lambda>postgres.
     andThen (reportSmtp smtpPing) (\<lambda>smtp.
     andThen (reportJsonKeys jsonKeysStatus) (\<lambda>jsonKeys.
     ret (Reply 200 (HealthBody
       [(''client:postgres'', NewRestHealthStatus postgres),
        (''client:smtp'', NewRestHealthStatus smtp),
        (''api:jsonKeys'', NewRestHealthStatus jsonKeys)])))))"

definition rest_ClaimsGet :: "http \<Rightarrow> handler" where
  "rest_ClaimsGet H ctx =
     with_claims H [(None, 403)] ctx (\<lambda>claims.
       ret (Reply 200 (ClaimsBody
         \<lparr>rcl_UserID = UserID claims, rcl_Roles = Roles claims,
          rcl_RefreshTokenID = RefreshTokenID claims\<rparr>)))"

definition token_create_map :: err_map where
  "token_create_map =
     [(Some ErrCredentialsSelectByEmailNotFound, 401), (Some ErrInvalidPassword, 401),
      (Some ErrInvalidRequest, 422)]"

definition rest_TokenCreate :: "ext \<Rightarrow> http \<Rightarrow> string + RestTokenCreateRequest \<Rightarrow> reply io" where
  "rest_TokenCreate E H decoded =
     with_request H decoded (\<lambda>request.
       respond H token_create_map
         (core_TokenCreate E \<lparr>tc_Email = ht_Email request, tc_Password = ht_Password request\<rparr>)
         (\<lambda>res. Reply 200 (TokenBody (loadToken res))))"

definition rest_TokenCreateAnon :: "ext \<Rightarrow> http \<Rightarrow> reply io" where
  "rest_TokenCreateAnon E H =
     respond H [] (core_TokenCreateAnon E) (\<lambda>res. Reply 200 (TokenBody (loadToken res)))"

definition token_refresh_map :: err_map where
  "token_refresh_map =
     [(Some ErrTokenRefreshInvalidAccessToken, 403), (Some ErrTokenRefreshInvalidRefreshToken, 403),
      (Some ErrTokenRefreshMismatchClaims, 403), (Some ErrTokenRefreshMismatchSource, 403),
      (Some ErrCredentialsSelectNotFound, 401), (Some ErrInvalidRequest, 422)]"

definition rest_TokenRefresh :: "ext \<Rightarrow> http \<Rightarrow> string + RestTokenRefreshRequest \<Rightarrow> reply io" where
  "rest_TokenRefresh E H decoded =
     with_request H decoded (\<lambda>request.
       respond H token_refresh_map
         (core_TokenRefresh E \<lparr>tr_AccessToken = htr_AccessToken request,
                               tr_RefreshToken = htr_RefreshToken request\<rparr>)
         (\<lambda>res. Reply 200 (TokenBody (loadToken res))))"

section \<open>Credentials\<close>

definition credentials_create_map :: err_map where
  "credentials_create_map =
     [(Some ErrCredentialsInsertAlreadyExists, 409), (Some ErrShortCodeSelectNotFound, 403),
      (Some ErrShortCodeConsumeInvalid, 403), (Some ErrInvalidRequest, 422)]"

definition rest_CredentialsCreate :: "ext \<Rightarrow> http \<Rightarrow> string + RestCredentialsCreateRequest \<Rightarrow> reply io" where
  "rest_CredentialsCreate E H decoded =
     with_request H decoded (\<lambda>request.
       respond H credentials_create_map
         (core_CredentialsCreate E \<lparr>cc_Email = hcc_Email request, cc_Password = hcc_Password request,
                                    cc_ShortCode = hcc_ShortCode request\<rparr>)
         (\<lambda>res. Reply 200 (TokenBody (loadToken res))))"

definition rest_CredentialsExist :: "ext \<Rightarrow> http \<Rightarrow> string + string \<Rightarrow> reply io" where
  "rest_CredentialsExist E H decoded =
     with_request H decoded (\<lambda>email.
       respond H [(Some ErrInvalidRequest, 422)] (core_CredentialsExist E email)
         (\<lambda>ok. if ok then Reply 204 NoBody else Reply 404 (TextBody ''Not Found'')))"

definition credentials_get_map :: err_map where
  "credentials_get_map = [(Some ErrCredentialsSelectNotFound, 404), (Some ErrInvalidRequest, 422)]"

definition rest_CredentialsGet :: "ext \<Rightarrow> http \<Rightarrow> string + uuid \<Rightarrow> reply io" where
  "rest_CredentialsGet E H decoded =
     with_request H decoded (\<lambda>i.
       respond H credentials_get_map (core_CredentialsGet E i)
         (\<lambda>res. Reply 200 (CredentialsBody (loadCredentials res))))"

definition rest_CredentialsList :: "ext \<Rightarrow> http \<Rightarrow> string + RestCredentialsListRequest \<Rightarrow> reply io" where
  "rest_CredentialsList E H decoded =
     with_request H decoded (\<lambda>request.
       respond H [(Some ErrInvalidRequest, 422)]
         (core_CredentialsList E \<lparr>lr_Limit = hl_Limit request, lr_Offset = hl_Offset request,
                                  lr_Roles = hl_Roles request\<rparr>)
         (\<lambda>res. Reply 200 (ListBody (map loadCredentials res))))"

definition reset_password_map :: err_map where
  "reset_password_map =
     [(Some ErrCredentialsUpdatePasswordNotFound, 403), (Some ErrShortCodeSelectNotFound, 403),
      (Some ErrShortCodeConsumeInvalid, 403), (Some ErrShortCodeConsumeExpired, 403),
      (Some ErrInvalidRequest, 422)]"

definition rest_CredentialsResetPassword ::
    "ext \<Rightarrow> http \<Rightarrow> string + RestResetPasswordRequest \<Rightarrow> reply io" where
  "rest_CredentialsResetPassword E H decoded =
     with_request H decoded (\<lambda>request.
       respond H reset_password_map
         (core_CredentialsUpdatePassword E
            \<lparr>cup_Password = hrp_Password request, cup_CurrentPassword = '''',
             cup_ShortCode = hrp_ShortCode request, cup_UserID = hrp_UserID request\<rparr>)
         (\<lambda>res. Reply 200 (CredentialsBody (loadCredentials res))))"

definition update_email_map :: err_map where
  "update_email_map =
     [(Some ErrCredentialsUpdateEmailNotFound, 404), (Some ErrCredentialsUpdateEmailAlreadyExists, 409),
      (Some ErrShortCodeSelectNotFound, 403), (Some ErrShortCodeConsumeInvalid, 403),
      (Some ErrInvalidRequest, 422)]"

definition rest_CredentialsUpdateEmail ::
    "ext \<Rightarrow> http \<Rightarrow> string + RestUpdateEmailRequest \<Rightarrow> reply io" where
  "rest_CredentialsUpdateEmail E H decoded =
     with_request H decoded (\<lambda>request.
       respond H update_email_map
         (core_CredentialsUpdateEmail E
            \<lparr>cue_UserID = hue_UserID request, cue_ShortCode = hue_ShortCode request\<rparr>)
         (\<lambda>res. Reply 200 (CredentialsBody (loadCredentials res))))"

definition update_password_map :: err_map where
  "update_password_map =
     [(Some ErrCredentialsUpdatePasswordNotFound, 404), (Some ErrInvalidPassword, 403),
      (Some ErrInvalidRequest, 422)]"

definition rest_CredentialsUpdatePassword ::
    "ext \<Rightarrow> http \<Rightarrow> string + RestUpdatePasswordRequest \<Rightarrow> handler" where
  "rest_CredentialsUpdatePassword E H decoded ctx =
     with_request H decoded (\<lambda>request.
     with_claims H [] ctx (\<lambda>claims.
       respond H update_password_map
         (core_CredentialsUpdatePassword E
            \<lparr>cup_Password = hup_Password request, cup_CurrentPassword = hup_CurrentPassword request,
             cup_ShortCode = '''', cup_UserID = from_ptr (UserID claims)\<rparr>)
         (\<lambda>res. Reply 200 (CredentialsBody (loadCredentials res)))))"

definition update_role_map :: err_map where
  "update_role_map =
     [(Some ErrCredentialsUpdateRoleNotFound, 404), (Some ErrCredentialsSelectNotFound, 404),
      (Some ErrCredentialsUpdateRoleToHigher, 403),
      (Some ErrCredentialsUpdateRoleDowngradeSuperior, 403),
      (Some ErrCredentialsUpdateRoleSelfUpdate, 403), (Some ErrInvalidRequest, 422)]"

definition rest_CredentialsUpdateRole ::
    "ext \<Rightarrow> http \<Rightarrow> string + RestUpdateRoleRequest \<Rightarrow> handler" where
  "rest_CredentialsUpdateRole E H decoded ctx =
     with_request H decoded (\<lambda>request.
     with_claims H [] ctx (\<lambda>claims.
       respond H update_role_map
         (core_CredentialsUpdateRole E
            \<lparr>cur_TargetUserID = hur_UserID request, cur_CurrentUserID = from_ptr (UserID claims),
             cur_Role = hur_Role request\<rparr>)
         (\<lambda>res. Reply 200 (CredentialsBody (loadCredentials res)))))"

section \<open>Short codes\<close>

text \<open>The three flows answer 202 to success and to the one error that would tell whether the address
  has an account.\<close>

definition accepted :: reply where
  "accepted = Reply 202 NoBody"

definition accept_silently :: "http \<Rightarrow> sentinel \<Rightarrow> ShortCode io \<Rightarrow> reply io" where
  "accept_silently H hidden svc =
     onError (andThen svc (\<lambda>_. ret accepted)) (\<lambda>err.
       if \<not> errors_is err hidden then handle_error H [(Some ErrInvalidRequest, 422)] err
       else ret accepted)"

definition rest_ShortCodeCreateEmailUpdate ::
    "ext \<Rightarrow> ShortCodes \<Rightarrow> SmtpUrls \<Rightarrow> http \<Rightarrow> string + RestMailRequest \<Rightarrow> handler" where
  "rest_ShortCodeCreateEmailUpdate E cfg urls H decoded ctx =
     with_request H decoded (\<lambda>request.
     with_claims H [] ctx (\<lambda>claims.
       accept_silently H ErrCredentialsUpdateEmailAlreadyExists
         (core_ShortCodeCreateEmailUpdate E cfg urls
            \<lparr>sceu_ID = from_ptr (UserID claims), sceu_Email = hm_Email request,
             sceu_Lang = hm_Lang request\<rparr>)))"

definition rest_ShortCodeCreatePasswordReset ::
    "ext \<Rightarrow> ShortCodes \<Rightarrow> SmtpUrls \<Rightarrow> http \<Rightarrow> string + RestMailRequest \<Rightarrow> reply io" where
  "rest_ShortCodeCreatePasswordReset E cfg urls H decoded =
     with_request H decoded (\<lambda>request.
       accept_silently H ErrCredentialsSelectByEmailNotFound
         (core_ShortCodeCreatePasswordReset E cfg urls
            \<lparr>scpr_Email = hm_Email request, scpr_Lang = hm_Lang request\<rparr>))"

definition rest_ShortCodeCreateRegister ::
    "ext \<Rightarrow> ShortCodes \<Rightarrow> SmtpUrls \<Rightarrow> http \<Rightarrow> string + RestMailRequest \<Rightarrow> reply io" where
  "rest_ShortCodeCreateRegister E cfg urls H decoded =
     with_request H decoded (\<lambda>request.
       accept_silently H ErrCredentialsInsertAlreadyExists
         (core_ShortCodeCreateRegister E cfg urls
            \<lparr>scr_Email = hm_Email request, scr_Lang = hm_Lang request\<rparr>))"

end
