(* ===== verification/Router.thy ===== *)
theory Router
  imports Handlers
begin

text \<open>
  The HTTP server of \<open>cmd/rest/main.go\<close>: the route table with the permissions each route requires,
  the wiring of handlers to services, the recovery of panics, and the server as a transition system
  over requests. Decoders of bodies and queries and the probes of the health check are parameters
  (record \<open>codecs\<close>). Of the transport middleware only the answer to a preflight is modelled; timeouts, body
  size, headers and tracing are left out.
\<close>

section \<open>Routes\<close>

datatype http_method = GET | HEAD | PUT | PATCH | POST | DELETE | OPTIONS | CONNECT | TRACE | OtherMethod string

datatype endpoint =
    Ping | Health | TokenCreate | TokenCreateAnon | ClaimsGet | TokenRefresh
  | CredentialsGet | CredentialsExist | CredentialsList | CredentialsCreate | CredentialsUpdateEmail
  | CredentialsUpdatePassword | CredentialsResetPassword | CredentialsUpdateRole
  | ShortCodeCreateRegister | ShortCodeCreateEmailUpdate | ShortCodeCreatePasswordReset

text \<open>
  The routes as \<open>main\<close> declares them: \<open>Handle m p None e\<close> is a handler mounted as it is, \<open>Handle m p (Some ps) e\<close>
  one mounted with \<open>withAuth(r, ps...)\<close>, and \<open>Route p rs\<close> a router of its own mounted under a pattern.
\<close>

datatype routing =
    Handle http_method string "string list option" endpoint
  | Route string "routing list"

definition router :: "routing list" where
  "router =
    [Route ''/v2''
      [Handle GET ''/ping'' None Ping,
       Handle GET ''/healthcheck'' None Health,
       Route ''/session''
        [Handle PUT ''/'' None TokenCreate,
         Handle PUT ''/anon'' None TokenCreateAnon,
         Handle GET ''/'' (Some []) ClaimsGet,
         Handle PATCH ''/'' None TokenRefresh],
       Route ''/credentials''
        [Handle GET ''/'' (Some [''credentials:get'']) CredentialsGet,
         Handle HEAD ''/'' (Some [''credentials:exist'']) CredentialsExist,
         Handle GET ''/all'' (Some [''credentials:list'']) CredentialsList,
         Handle PUT ''/'' (Some [''credentials:create'']) CredentialsCreate,
         Handle PATCH ''/email'' (Some [''credentials:email:patch'']) CredentialsUpdateEmail,
         Handle PATCH ''/password'' (Some [''credentials:password:patch'']) CredentialsUpdatePassword,
         Handle PUT ''/password'' (Some [''credentials:password:reset'']) CredentialsResetPassword,
         Handle PATCH ''/role'' (Some [''credentials:role:patch'']) CredentialsUpdateRole],
       Route ''/short-code''
        [Handle PUT ''/register'' (Some [''shortCode:register'']) ShortCodeCreateRegister,
         Handle PUT ''/update-email'' (Some [''shortCode:email:update'']) ShortCodeCreateEmailUpdate,
         Handle PUT ''/update-password'' (Some [''shortCode:password:reset'']) ShortCodeCreatePasswordReset]]]"

text \<open>
  How a path descends: a mounted router serves its pattern itself and everything below it, and reads what is
  left as a path of its own, which is \<open>/\<close> at the mount with or without a slash at its end. No two patterns of
  one router serve the same path, so the order of the routes plays no role.
\<close>

definition below :: "string \<Rightarrow> string \<Rightarrow> string option" where
  "below p path =
     (if path = p then Some ''/''
      else if take (Suc (length p)) path = p @ ''/'' then Some (drop (length p) path)
      else None)"

fun served :: "string \<Rightarrow> routing \<Rightarrow> (http_method \<times> string list option \<times> endpoint) list" where
  "served path (Handle m p required e) = (if path = p then [(m, required, e)] else [])"
| "served path (Route p rs) =
     (case below p path of None \<Rightarrow> [] | Some rest \<Rightarrow> concat (map (served rest) rs))"

definition served_at :: "string \<Rightarrow> (http_method \<times> string list option \<times> endpoint) list" where
  "served_at path = concat (map (served path) router)"

definition find_route :: "http_method \<Rightarrow> string \<Rightarrow> (string list option \<times> endpoint) option" where
  "find_route m path = map_of (served_at path) m"

text \<open>The same as a table of full paths: a mount has two, its inner \<open>/\<close> being served with and without the slash.\<close>

fun mounted :: "string \<Rightarrow> (http_method \<times> string) \<times> 'a \<Rightarrow> ((http_method \<times> string) \<times> 'a) list" where
  "mounted p ((m, q), x) = (if q = ''/'' then [((m, p), x), ((m, p @ ''/''), x)] else [((m, p @ q), x)])"

fun table :: "routing \<Rightarrow> ((http_method \<times> string) \<times> string list option \<times> endpoint) list" where
  "table (Handle m p required e) = [((m, p), required, e)]"
| "table (Route p rs) = concat (map (mounted p) (concat (map table rs)))"

definition routes :: "((http_method \<times> string) \<times> string list option \<times> endpoint) list" where
  "routes = concat (map table router)"

definition slashed :: "string \<Rightarrow> bool" where
  "slashed p \<longleftrightarrow> (\<exists>q. p = CHR ''/'' # q)"

fun rooted :: "routing \<Rightarrow> bool" where
  "rooted (Handle m p required e) \<longleftrightarrow> slashed p"
| "rooted (Route p rs) \<longleftrightarrow> slashed p \<and> (\<forall>r\<in>set rs. rooted r)"

lemma slashed_simps [simp]: "\<not> slashed ''''" "slashed (c # q) \<longleftrightarrow> c = CHR ''/''" "slashed p \<Longrightarrow> slashed (p @ q)"
  by (auto simp: slashed_def)

lemma below_Some: "below p path = Some rest \<longleftrightarrow> path = p \<and> rest = ''/'' \<or> path = p @ rest \<and> slashed rest"
proof -
  have "take (Suc (length p)) path = p @ ''/'' \<longleftrightarrow> (\<exists>q. path = p @ CHR ''/'' # q)"
    by (metis append_take_drop_id append.assoc append_Cons append_Nil append_eq_conv_conj length_append_singleton)
  then show ?thesis by (auto simp: below_def slashed_def)
qed

lemma in_mounted: "((m, path), x) \<in> set (mounted p ((n, q), y)) \<longleftrightarrow>
    m = n \<and> x = y \<and> (if q = ''/'' then path \<in> {p, p @ ''/''} else path = p @ q)"
  by (cases "q = ''/''") auto

lemma in_table: "((m, path), x) \<in> set (table (Route p rs)) \<longleftrightarrow>
    (\<exists>q. (\<exists>t\<in>set rs. ((m, q), x) \<in> set (table t)) \<and>
       (if q = ''/'' then path \<in> {p, p @ ''/''} else path = p @ q))"
proof -
  have "((m, path), x) \<in> set (table (Route p rs)) \<longleftrightarrow>
      (\<exists>t\<in>set rs. \<exists>n q y. ((n, q), y) \<in> set (table t) \<and> ((m, path), x) \<in> set (mounted p ((n, q), y)))"
    by (simp del: mounted.simps split_paired_Ex) (metis surj_pair)
  then show ?thesis unfolding in_mounted by blast
qed

lemma table_rooted: "rooted t \<Longrightarrow> ((m, q), x) \<in> set (table t) \<Longrightarrow> slashed q"
proof (induction t arbitrary: q x rule: table.induct)
  case (2 p rs)
  then show ?case unfolding in_table by (auto split: if_splits)
qed simp

lemma served_table: "rooted t \<Longrightarrow> (m, x) \<in> set (served path t) \<longleftrightarrow> ((m, path), x) \<in> set (table t)"
proof (induction path t arbitrary: m x rule: served.induct)
  case (2 path p rs)
  have inner: "(\<exists>t\<in>set rs. (m, x) \<in> set (served rest t)) \<longleftrightarrow> (\<exists>t\<in>set rs. ((m, rest), x) \<in> set (table t))"
    if "below p path = Some rest" for rest
    using "2.IH" [OF that] "2.prems" by simp
  have root: "slashed q" if "t \<in> set rs" "((m, q), x) \<in> set (table t)" for q t
    using that "2.prems" table_rooted [of t m q x] by simp
  have "((m, path), x) \<in> set (table (Route p rs)) \<longleftrightarrow>
      (\<exists>q. (\<exists>t\<in>set rs. ((m, q), x) \<in> set (table t)) \<and> below p path = Some q)"
    unfolding in_table below_Some by (intro ex_cong conj_cong refl) (use root in auto)
  also have "\<dots> \<longleftrightarrow> (m, x) \<in> set (served path (Route p rs))"
    using inner by (cases "below p path") auto
  finally show ?case by blast
qed auto

lemma router_rooted: "\<forall>t\<in>set router. rooted t"
  by (simp add: router_def)

lemma served_at_routes: "(m, x) \<in> set (served_at path) \<longleftrightarrow> ((m, path), x) \<in> set routes"
  using router_rooted served_table [of _ m x path] by (simp add: served_at_def routes_def)

lemma find_route_entry: "find_route m path = Some x \<Longrightarrow> ((m, path), x) \<in> set routes"
  unfolding find_route_def served_at_routes [symmetric] by (rule map_of_SomeD)

lemma path_served: "served_at path = [] \<longleftrightarrow> (\<forall>m. find_route m path = None)"
  unfolding find_route_def map_of_eq_None_iff by (cases "served_at path") auto

lemma routes_listed: "routes =
    [((GET, ''/v2/ping''), None, Ping),
     ((GET, ''/v2/healthcheck''), None, Health),
     ((PUT, ''/v2/session''), None, TokenCreate), ((PUT, ''/v2/session/''), None, TokenCreate),
     ((PUT, ''/v2/session/anon''), None, TokenCreateAnon),
     ((GET, ''/v2/session''), Some [], ClaimsGet), ((GET, ''/v2/session/''), Some [], ClaimsGet),
     ((PATCH, ''/v2/session''), None, TokenRefresh), ((PATCH, ''/v2/session/''), None, TokenRefresh),
     ((GET, ''/v2/credentials''), Some [''credentials:get''], CredentialsGet),
     ((GET, ''/v2/credentials/''), Some [''credentials:get''], CredentialsGet),
     ((HEAD, ''/v2/credentials''), Some [''credentials:exist''], CredentialsExist),
     ((HEAD, ''/v2/credentials/''), Some [''credentials:exist''], CredentialsExist),
     ((GET, ''/v2/credentials/all''), Some [''credentials:list''], CredentialsList),
     ((PUT, ''/v2/credentials''), Some [''credentials:create''], CredentialsCreate),
     ((PUT, ''/v2/credentials/''), Some [''credentials:create''], CredentialsCreate),
     ((PATCH, ''/v2/credentials/email''), Some [''credentials:email:patch''], CredentialsUpdateEmail),
     ((PATCH, ''/v2/credentials/password''), Some [''credentials:password:patch''], CredentialsUpdatePassword),
     ((PUT, ''/v2/credentials/password''), Some [''credentials:password:reset''], CredentialsResetPassword),
     ((PATCH, ''/v2/credentials/role''), Some [''credentials:role:patch''], CredentialsUpdateRole),
     ((PUT, ''/v2/short-code/register''), Some [''shortCode:register''], ShortCodeCreateRegister),
     ((PUT, ''/v2/short-code/update-email''), Some [''shortCode:email:update''], ShortCodeCreateEmailUpdate),
     ((PUT, ''/v2/short-code/update-password''), Some [''shortCode:password:reset''], ShortCodeCreatePasswordReset)]"
  by (simp add: routes_def router_def)

section \<open>Wiring\<close>

record codecs =
  d_tokenCreate :: "string \<Rightarrow> string + RestTokenCreateRequest"
  d_tokenRefresh :: "string \<Rightarrow> string + RestTokenRefreshRequest"
  d_get :: "string \<Rightarrow> string + uuid"
  d_exist :: "string \<Rightarrow> string + string"
  d_list :: "string \<Rightarrow> string + RestCredentialsListRequest"
  d_create :: "string \<Rightarrow> string + RestCredentialsCreateRequest"
  d_updateEmail :: "string \<Rightarrow> string + RestUpdateEmailRequest"
  d_updatePassword :: "string \<Rightarrow> string + RestUpdatePasswordRequest"
  d_resetPassword :: "string \<Rightarrow> string + RestResetPasswordRequest"
  d_updateRole :: "string \<Rightarrow> string + RestUpdateRoleRequest"
  d_mail :: "string \<Rightarrow> string + RestMailRequest"

text \<open>A request as the router sees it: \<open>rq_path\<close> is the path it matches, \<open>rq_requested_method\<close> the header
  \<open>Access-Control-Request-Method\<close>. \<open>app_methods\<close> are the methods the router was told of besides the standard
  ones.\<close>

record request =
  rq_method :: http_method
  rq_path :: string
  rq_requested_method :: string
  rq_authorization :: string
  rq_query :: string
  rq_body :: string

record app =
  app_env :: ext
  app_http :: http
  app_codes :: ShortCodes
  app_urls :: SmtpUrls
  app_codecs :: codecs
  app_pg_ping :: "nat \<Rightarrow> string option"
  app_smtp_ping :: "nat \<Rightarrow> string option"
  app_keys_status :: "nat \<Rightarrow> string option"
  app_methods :: "string \<Rightarrow> bool"

fun serve_endpoint :: "app \<Rightarrow> request \<Rightarrow> endpoint \<Rightarrow> handler" where
  "serve_endpoint A rq Ping ctx = rest_Ping"
| "serve_endpoint A rq Health ctx =
     rest_Health (app_env A) (app_pg_ping A) (app_smtp_ping A) (app_keys_status A)"
| "serve_endpoint A rq TokenCreate ctx =
     rest_TokenCreate (app_env A) (app_http A) (d_tokenCreate (app_codecs A) (rq_body rq))"
| "serve_endpoint A rq TokenCreateAnon ctx = rest_TokenCreateAnon (app_env A) (app_http A)"
| "serve_endpoint A rq ClaimsGet ctx = rest_ClaimsGet (app_http A) ctx"
| "serve_endpoint A rq TokenRefresh ctx =
     rest_TokenRefresh (app_env A) (app_http A) (d_tokenRefresh (app_codecs A) (rq_body rq))"
| "serve_endpoint A rq CredentialsGet ctx =
     rest_CredentialsGet (app_env A) (app_http A) (d_get (app_codecs A) (rq_query rq))"
| "serve_endpoint A rq CredentialsExist ctx =
     rest_CredentialsExist (app_env A) (app_http A) (d_exist (app_codecs A) (rq_query rq))"
| "serve_endpoint A rq CredentialsList ctx =
     rest_CredentialsList (app_env A) (app_http A) (d_list (app_codecs A) (rq_query rq))"
| "serve_endpoint A rq CredentialsCreate ctx =
     rest_CredentialsCreate (app_env A) (app_http A) (d_create (app_codecs A) (rq_body rq))"
| "serve_endpoint A rq CredentialsUpdateEmail ctx =
     rest_CredentialsUpdateEmail (app_env A) (app_http A) (d_updateEmail (app_codecs A) (rq_body rq))"
| "serve_endpoint A rq CredentialsUpdatePassword ctx =
     rest_CredentialsUpdatePassword (app_env A) (app_http A)
       (d_updatePassword (app_codecs A) (rq_body rq)) ctx"
| "serve_endpoint A rq CredentialsResetPassword ctx =
     rest_CredentialsResetPassword (app_env A) (app_http A) (d_resetPassword (app_codecs A) (rq_body rq))"
| "serve_endpoint A rq CredentialsUpdateRole ctx =
     rest_CredentialsUpdateRole (app_env A) (app_http A) (d_updateRole (app_codecs A) (rq_body rq)) ctx"
| "serve_endpoint A rq ShortCodeCreateRegister ctx =
     rest_ShortCodeCreateRegister (app_env A) (app_codes A) (app_urls A) (app_http A)
       (d_mail (app_codecs A) (rq_body rq))"
| "serve_endpoint A rq ShortCodeCreateEmailUpdate ctx =
     rest_ShortCodeCreateEmailUpdate (app_env A) (app_codes A) (app_urls A) (app_http A)
       (d_mail (app_codecs A) (rq_body rq)) ctx"
| "serve_endpoint A rq ShortCodeCreatePasswordReset ctx =
     rest_ShortCodeCreatePasswordReset (app_env A) (app_codes A) (app_urls A) (app_http A)
       (d_mail (app_codecs A) (rq_body rq))"

section \<open>Dispatch\<close>

text \<open>\<open>withAuth(r, permissions...)\<close> around a handler, for the routes that have it.\<close>

definition guarded :: "app \<Rightarrow> role_permissions \<Rightarrow> request \<Rightarrow> string list option \<Rightarrow> handler \<Rightarrow> handler" where
  "guarded A perms rq required next =
     (case required of
        None \<Rightarrow> next
      | Some ps \<Rightarrow> Middleware (app_env A) (app_http A) perms ps next (rq_authorization rq))"

text \<open>\<open>middleware.Recoverer\<close>: a panic of a handler is answered with 500.\<close>

definition Recoverer :: "reply io \<Rightarrow> reply io" where
  "Recoverer m = (\<lambda>w. case m w of (Panic p, w') \<Rightarrow> (Ret (Reply 500 NoBody), w') | r \<Rightarrow> r)"

text \<open>\<open>cors.Handler\<close> stands before the router and answers a preflight itself: \<open>OPTIONS\<close> with the header
  \<open>Access-Control-Request-Method\<close>.\<close>

definition preflight :: "request \<Rightarrow> bool" where
  "preflight rq \<longleftrightarrow> rq_method rq = OPTIONS \<and> rq_requested_method rq \<noteq> ''''"

text \<open>The router refuses a method it has no name for on every path; the standard ones it knows.\<close>

fun known_method :: "app \<Rightarrow> http_method \<Rightarrow> bool" where
  "known_method A (OtherMethod name) \<longleftrightarrow> app_methods A name"
| "known_method A _ \<longleftrightarrow> True"

definition dispatch :: "app \<Rightarrow> role_permissions \<Rightarrow> request \<Rightarrow> reply io" where
  "dispatch A perms rq =
     Recoverer
       (if preflight rq then ret (Reply 200 NoBody)
        else if \<not> known_method A (rq_method rq) then ret (Reply 405 NoBody)
        else case find_route (rq_method rq) (rq_path rq) of
          None \<Rightarrow>
            if served_at (rq_path rq) \<noteq> [] then ret (Reply 405 NoBody)
            else ret (Reply 404 (TextBody ''404 page not found''))
        | Some (required, e) \<Rightarrow> guarded A perms rq required (serve_endpoint A rq e) NoValue)"

lemma routed_methods: "find_route m path = Some x \<Longrightarrow> m \<in> {GET, HEAD, PUT, PATCH}"
  by (drule find_route_entry) (auto simp: routes_listed)

lemma dispatch_guarded:
  assumes "find_route (rq_method rq) (rq_path rq) = Some (required, e)"
  shows "dispatch A perms rq = Recoverer (guarded A perms rq required (serve_endpoint A rq e) NoValue)"
  using routed_methods [OF assms] assms by (auto simp: dispatch_def preflight_def)

lemma dispatch_unrouted:
  assumes "find_route (rq_method rq) (rq_path rq) = None"
  shows "dispatch A perms rq w =
    (Ret (if preflight rq then Reply 200 NoBody
          else if known_method A (rq_method rq) \<and> (\<forall>m. find_route m (rq_path rq) = None)
            then Reply 404 (TextBody ''404 page not found'')
          else Reply 405 NoBody), w)"
proof -
  define P where "P \<longleftrightarrow> (\<forall>m. find_route m (rq_path rq) = None)"
  show ?thesis
    unfolding dispatch_def path_served P_def [symmetric] assms by (simp add: Recoverer_def ret_def)
qed

text \<open>\<open>main\<close> resolves the permissions of the roles before it mounts a route.\<close>

definition startup :: "app \<Rightarrow> role_permissions outcome" where
  "startup A = granted_permissions (h_order (app_http A)) PermissionsConfigDefault"

end
