(* ===== verification/Server.thy ===== *)
theory Server
  imports Router
begin

text \<open>
  The server as a transition system over requests: what each endpoint may do to the tables, what the
  middleware demands first, and the abstract specification of the accounts that every request refines.
\<close>

section \<open>What a request may do to the tables\<close>

text \<open>
  \<open>moves R m\<close>: from consistent tables and outside a transaction, \<open>m\<close> takes the tables along \<open>R\<close>,
  whatever way it ends.
\<close>

named_theorems moves_intros "structural rules: the table changes of a handler"

definition moves :: "(db \<Rightarrow> db \<Rightarrow> bool) \<Rightarrow> 'a io \<Rightarrow> bool" where
  "moves R m \<longleftrightarrow> (\<forall>w. service_ok (db w) \<and> \<not> in_tx w \<longrightarrow> R (db w) (db (snd (m w))))"

lemma movesI: "(\<And>w r w'. service_ok (db w) \<Longrightarrow> \<not> in_tx w \<Longrightarrow> m w = (r, w') \<Longrightarrow> R (db w) (db w')) \<Longrightarrow> moves R m"
  unfolding moves_def by (metis prod.collapse)

lemma moves_pure [moves_intros]: "reflp R \<Longrightarrow> moves R (ret a)" "reflp R \<Longrightarrow> moves R (lift r)"
  "reflp R \<Longrightarrow> moves R (handle_error H m e)"
  by (simp_all add: moves_def reflp_def handle_error_def)

lemma moves_unchanged: "reflp R \<Longrightarrow> (\<And>d. keeps_db (\<lambda>d'. d' = d) Not m) \<Longrightarrow> moves R m"
proof (rule movesI)
  fix w r w' assume R: "reflp R" and k: "\<And>d. keeps_db (\<lambda>d'. d' = d) Not m" and "\<not> in_tx w" "m w = (r, w')"
  then have "db w' = db w" using keepsD [OF k, of w "db w"] by simp
  with R show "R (db w) (db w')" by (simp add: reflp_def)
qed

lemma snd_respond: "snd (respond H m svc f w) = snd (svc w)"
  by (cases "svc w"; cases "fst (svc w)") (auto simp: respond_run)

lemma snd_accept: "snd (accept_silently H s svc w) = snd (svc w)"
  by (cases "svc w"; cases "fst (svc w)")
    (auto simp: accept_silently_def prog_simps handle_error_def split: outcome.splits prod.splits)

lemma moves_respond [moves_intros]: "moves R svc \<Longrightarrow> moves R (respond H m svc f)"
  by (simp add: moves_def snd_respond)

lemma moves_accept [moves_intros]: "moves R svc \<Longrightarrow> moves R (accept_silently H s svc)"
  by (simp add: moves_def snd_accept)

lemma moves_with_request [moves_intros]:
  "reflp R \<Longrightarrow> (\<And>r. moves R (f r)) \<Longrightarrow> moves R (with_request H decoded f)"
  by (cases decoded) (auto simp: with_request_def intro: moves_pure)

lemma claims_from_context: "MustGetClaimsContext ctx = Ret c \<longleftrightarrow> ctx = SomeClaims c"
  by (cases ctx) (simp_all add: MustGetClaimsContext_def GetClaimsContext_def)

lemma must_claims [simp]: "MustGetClaimsContext (SomeClaims c) = Ret c"
  by (simp add: claims_from_context)

lemma moves_with_claims [moves_intros]:
  "reflp R \<Longrightarrow> (\<And>c. ctx = SomeClaims c \<Longrightarrow> moves R (f c)) \<Longrightarrow> moves R (with_claims H m ctx f)"
  by (cases "MustGetClaimsContext ctx")
    (simp_all add: with_claims_def claims_from_context moves_pure)

lemma moves_Recoverer: "moves R m \<Longrightarrow> moves R (Recoverer m)"
proof -
  have "snd (Recoverer m w) = snd (m w)" for w
    by (cases "m w"; cases "fst (m w)") (auto simp: Recoverer_def)
  then show "moves R m \<Longrightarrow> moves R (Recoverer m)" by (simp add: moves_def)
qed

text \<open>The changes each endpoint may make, for a request with the given claims in its context.\<close>

fun allowed :: "ext \<Rightarrow> endpoint \<Rightarrow> ctx_value \<Rightarrow> db \<Rightarrow> db \<Rightarrow> bool" where
  "allowed E CredentialsCreate ctx d d' \<longleftrightarrow> d' = d \<or> (\<exists>rq row. registered E rq d row d')"
| "allowed E CredentialsUpdateEmail ctx d d' \<longleftrightarrow> d' = d \<or> (\<exists>rq row. email_changed E rq d row d')"
| "allowed E CredentialsUpdatePassword ctx d d' \<longleftrightarrow> d' = d \<or> (\<exists>c rq row. ctx = SomeClaims c \<and>
     cup_UserID rq = from_ptr (UserID c) \<and> cup_ShortCode rq = '''' \<and> password_changed E rq d row d')"
| "allowed E CredentialsResetPassword ctx d d' \<longleftrightarrow> d' = d \<or> (\<exists>rq row.
     cup_CurrentPassword rq = '''' \<and> password_changed E rq d row d')"
| "allowed E CredentialsUpdateRole ctx d d' \<longleftrightarrow> d' = d \<or> (\<exists>c rq. ctx = SomeClaims c \<and>
     cur_CurrentUserID rq = from_ptr (UserID c) \<and> role_change rq d d')"
| "allowed E ShortCodeCreateRegister ctx d d' \<longleftrightarrow> credentials d' = credentials d"
| "allowed E ShortCodeCreateEmailUpdate ctx d d' \<longleftrightarrow> credentials d' = credentials d"
| "allowed E ShortCodeCreatePasswordReset ctx d d' \<longleftrightarrow> credentials d' = credentials d"
| "allowed E _ ctx d d' \<longleftrightarrow> d' = d"

lemma allowed_refl: "reflp (allowed E e ctx)"
  by (cases e) (simp_all add: reflp_def)

definition environment_ok :: "ext \<Rightarrow> bool" where
  "environment_ok E \<longleftrightarrow> tx_contract (x_within_tx E) \<and> tx_contract (x_within_tx_code E) \<and>
     validator_contract E \<and> rand_contract E \<and> password_contract E \<and> json_keys_contract E"

lemma environment_okD:
  assumes "environment_ok E"
  shows "tx_contract (x_within_tx E)" "tx_contract (x_within_tx_code E)" "validator_contract E"
    "rand_contract E" "password_contract E" "json_keys_contract E"
  using assms by (simp_all add: environment_ok_def)

lemma reads_keep:
  "keeps_db (\<lambda>d. d = d0) P (core_TokenCreate E a)" "keeps_db (\<lambda>d. d = d0) P (core_TokenCreateAnon E)"
  "keeps_db (\<lambda>d. d = d0) P (core_TokenRefresh E b)" "keeps_db (\<lambda>d. d = d0) P (core_CredentialsGet E c)"
  "keeps_db (\<lambda>d. d = d0) P (core_CredentialsExist E m)" "keeps_db (\<lambda>d. d = d0) P (core_CredentialsList E l)"
proof -
  show "keeps_db (\<lambda>d. d = d0) P (core_TokenCreate E a)" by (rule token_create_keeps)
  show "keeps_db (\<lambda>d. d = d0) P (core_TokenCreateAnon E)"
    unfolding core_TokenCreateAnon_def claims_sign_def by (intro keeps_intros)
  show "keeps_db (\<lambda>d. d = d0) P (core_TokenRefresh E b)"
    unfolding core_TokenRefresh_def claims_sign_def marshal_any_def dao_credentials_defs by (intro keeps_intros)
  show "keeps_db (\<lambda>d. d = d0) P (core_CredentialsGet E c)"
    unfolding core_CredentialsGet_def dao_credentials_defs by (intro keeps_intros)
  show "keeps_db (\<lambda>d. d = d0) P (core_CredentialsExist E m)"
    unfolding core_CredentialsExist_def dao_credentials_defs by (intro keeps_intros)
  show "keeps_db (\<lambda>d. d = d0) P (core_CredentialsList E l)"
    unfolding core_CredentialsList_def dao_credentials_defs by (intro keeps_intros)
qed

lemma keeps_deliver:
  "tx_contract (x_within_tx_code E) \<Longrightarrow> keeps_db (\<lambda>d. credentials d = cs) Not (deliver E cfg rq mail)"
  by (rule deliver_rules(3))

lemma flows_keep:
  assumes "tx_contract (x_within_tx_code E)"
  shows "keeps_db (\<lambda>d. credentials d = cs) Not (core_ShortCodeCreateEmailUpdate E cfg urls a)"
    "keeps_db (\<lambda>d. credentials d = cs) Not (core_ShortCodeCreatePasswordReset E cfg urls b)"
    "keeps_db (\<lambda>d. credentials d = cs) Not (core_ShortCodeCreateRegister E cfg urls c)"
proof -
  have x: "keeps_db (\<lambda>d. credentials d = cs) Not (exists_check E m)" for m
    unfolding exists_check_def dao_credentials_defs by (intro keeps_intros)
  have y: "keeps_db (\<lambda>d. credentials d = cs) Not (dao_CredentialsSelectByEmail E m)" for m
    unfolding dao_credentials_defs by (intro keeps_intros)
  note k = x y keeps_deliver [OF assms]
  show "keeps_db (\<lambda>d. credentials d = cs) Not (core_ShortCodeCreateEmailUpdate E cfg urls a)"
    "keeps_db (\<lambda>d. credentials d = cs) Not (core_ShortCodeCreatePasswordReset E cfg urls b)"
    "keeps_db (\<lambda>d. credentials d = cs) Not (core_ShortCodeCreateRegister E cfg urls c)"
    unfolding flow_deliver by (intro keeps_intros k)+
qed

lemma moves_credentials: "(\<And>cs. keeps_db (\<lambda>d. credentials d = cs) Not m) \<Longrightarrow>
    moves (\<lambda>d d'. credentials d' = credentials d) m"
  unfolding moves_def keeps_def by blast

lemma service_okD: "service_ok d \<Longrightarrow> accounts_ok d" "service_ok d \<Longrightarrow> short_codes_ok d"
  by (simp_all add: service_ok_def)

lemma service_moves:
  assumes "environment_ok E"
  shows "moves (\<lambda>d d'. d' = d \<or> (\<exists>row. registered E a d row d')) (core_CredentialsCreate E a)"
    "moves (\<lambda>d d'. d' = d \<or> (\<exists>row. email_changed E b d row d')) (core_CredentialsUpdateEmail E b)"
    "moves (\<lambda>d d'. d' = d \<or> (\<exists>row. password_changed E c d row d')) (core_CredentialsUpdatePassword E c)"
    "moves (\<lambda>d d'. d' = d \<or> role_change e d d') (core_CredentialsUpdateRole E e)"
proof -
  note env = environment_okD [OF assms]
  show "moves (\<lambda>d d'. d' = d \<or> (\<exists>row. registered E a d row d')) (core_CredentialsCreate E a)"
    by (rule movesI) (use account_create_result(1) env service_okD in blast)
  show "moves (\<lambda>d d'. d' = d \<or> (\<exists>row. email_changed E b d row d')) (core_CredentialsUpdateEmail E b)"
    by (rule movesI) (use update_email_result env service_okD in blast)
  show "moves (\<lambda>d d'. d' = d \<or> (\<exists>row. password_changed E c d row d')) (core_CredentialsUpdatePassword E c)"
    by (rule movesI) (use update_password_result env service_okD in blast)
  show "moves (\<lambda>d d'. d' = d \<or> role_change e d d') (core_CredentialsUpdateRole E e)"
    by (rule movesI) (use update_role_result in blast)
qed

lemma moves_mono: "moves R m \<Longrightarrow> (\<And>d d'. R d d' \<Longrightarrow> S d d') \<Longrightarrow> moves S m"
  by (simp add: moves_def)

lemma rest_Health_keeps: "keeps_db (\<lambda>d. d = d0) P (rest_Health E p s j)"
proof -
  have "keeps_db (\<lambda>d. d = d0) P (reportPostgres E p)"
    by (auto simp: keeps_def reportPostgres_def reportSmtp_def reportJsonKeys_def andThen_def split: option.splits)
  then show ?thesis unfolding rest_Health_def reportSmtp_def reportJsonKeys_def by (intro keeps_intros)
qed

lemma moves_read:
  "reflp R \<Longrightarrow> (\<And>a d. keeps_db (\<lambda>d'. d' = d) Not (svc a)) \<Longrightarrow>
   moves R (with_request H decoded (\<lambda>a. respond H m (svc a) f))"
  by (intro moves_with_request moves_respond moves_unchanged)

lemma endpoint_moves:
  assumes env: "environment_ok (app_env A)"
  shows "moves (allowed (app_env A) e ctx) (serve_endpoint A rq e ctx)"
proof -
  note codes = environment_okD(2) [OF env]
  note call = service_moves [OF env, THEN moves_mono] flows_keep [OF codes, THEN moves_credentials, THEN moves_mono]
  note rules = moves_with_request moves_respond moves_with_claims moves_accept allowed_refl
  show ?thesis
  proof (cases e)
    case Ping
    then show ?thesis by (simp add: rest_Ping_def moves_pure reflp_def)
  next
    case Health
    then show ?thesis by (simp, intro moves_unchanged rest_Health_keeps) (simp add: reflp_def)
  next
    case TokenCreate
    then show ?thesis
      by (simp only: serve_endpoint.simps rest_TokenCreate_def, intro moves_read allowed_refl reads_keep)
  next
    case TokenCreateAnon
    then show ?thesis
      by (simp only: serve_endpoint.simps rest_TokenCreateAnon_def,
          intro moves_respond moves_unchanged allowed_refl reads_keep)
  next
    case ClaimsGet
    then show ?thesis
      by (simp only: serve_endpoint.simps rest_ClaimsGet_def, intro rules moves_pure)
  next
    case TokenRefresh
    then show ?thesis
      by (simp only: serve_endpoint.simps rest_TokenRefresh_def, intro moves_read allowed_refl reads_keep)
  next
    case CredentialsGet
    then show ?thesis
      by (simp only: serve_endpoint.simps rest_CredentialsGet_def, intro moves_read allowed_refl reads_keep)
  next
    case CredentialsExist
    then show ?thesis
      by (simp only: serve_endpoint.simps rest_CredentialsExist_def, intro moves_read allowed_refl reads_keep)
  next
    case CredentialsList
    then show ?thesis
      by (simp only: serve_endpoint.simps rest_CredentialsList_def, intro moves_read allowed_refl reads_keep)
  next
    case CredentialsCreate
    then show ?thesis
      by (simp only: serve_endpoint.simps rest_CredentialsCreate_def, intro rules call(1); fastforce)
  next
    case CredentialsUpdateEmail
    then show ?thesis
      by (simp only: serve_endpoint.simps rest_CredentialsUpdateEmail_def, intro rules call(2); fastforce)
  next
    case CredentialsUpdatePassword
    then show ?thesis
      by (simp only: serve_endpoint.simps rest_CredentialsUpdatePassword_def, intro rules call(3); fastforce)
  next
    case CredentialsResetPassword
    then show ?thesis
      by (simp only: serve_endpoint.simps rest_CredentialsResetPassword_def, intro rules call(3); fastforce)
  next
    case CredentialsUpdateRole
    then show ?thesis
      by (simp only: serve_endpoint.simps rest_CredentialsUpdateRole_def, intro rules call(4); fastforce)
  next
    case ShortCodeCreateRegister
    then show ?thesis
      by (simp only: serve_endpoint.simps rest_ShortCodeCreateRegister_def, intro rules call(7)) simp
  next
    case ShortCodeCreateEmailUpdate
    then show ?thesis
      by (simp only: serve_endpoint.simps rest_ShortCodeCreateEmailUpdate_def, intro rules call(5)) simp
  next
    case ShortCodeCreatePasswordReset
    then show ?thesis
      by (simp only: serve_endpoint.simps rest_ShortCodeCreatePasswordReset_def, intro rules call(6)) simp
  qed
qed

section \<open>Requests\<close>

text \<open>A bearer token that verifies, whose claims carry a role granting one of the permissions.\<close>

definition admitted :: "app \<Rightarrow> role_permissions \<Rightarrow> request \<Rightarrow> nat \<Rightarrow> string list \<Rightarrow> AccessTokenClaims \<Rightarrow> bool" where
  "admitted A perms rq t ps c \<longleftrightarrow>
     (\<exists>tok. bearer (rq_authorization rq) tok \<and> x_verify_access (app_env A) t False tok = Inr c) \<and>
     grants perms ps (Roles c)"

definition open_endpoint :: "endpoint \<Rightarrow> bool" where
  "open_endpoint e \<longleftrightarrow> e \<in> {Ping, Health, TokenCreate, TokenCreateAnon, ClaimsGet, TokenRefresh}"

lemma route_entries: "list_all (\<lambda>(k, required, e).
    (case required of Some [p] \<Rightarrow> True | _ \<Rightarrow> open_endpoint e)) routes"
  by (simp add: routes_listed open_endpoint_def)

lemma open_routes:
  assumes "find_route m path = Some (required, e)" "\<nexists>p. required = Some [p]"
  shows "open_endpoint e"
proof -
  have "((m, path), required, e) \<in> set routes"
    using assms(1) by (rule find_route_entry)
  then have "case required of Some [p] \<Rightarrow> True | _ \<Rightarrow> open_endpoint e"
    using route_entries unfolding list_all_iff by fast
  with assms(2) show ?thesis by (simp split: option.splits list.splits)
qed

lemma open_keeps: "open_endpoint e \<Longrightarrow> allowed E e ctx d d' \<Longrightarrow> d' = d"
  by (auto simp: open_endpoint_def)

lemma moves_guarded:
  assumes "reflp R" "\<And>ctx. moves R (next ctx)"
  shows "moves R (guarded A perms rq required next ctx)"
proof (rule movesI)
  fix w r w' assume w: "service_ok (db w)" "\<not> in_tx w" and g: "guarded A perms rq required next ctx w = (r, w')"
  have n: "R (db v) (db (snd (next c v)))" if "service_ok (db v)" "\<not> in_tx v" for c v
    using assms(2) [of c] that by (simp add: moves_def)
  have refl: "R d d" for d using assms(1) by (simp add: reflp_def)
  show "R (db w) (db w')"
  proof (cases required)
    case None
    then show ?thesis using g n [OF w, of ctx] by (simp add: guarded_def)
  next
    case (Some ps)
    let ?M = "Middleware (app_env A) (app_http A) perms ps next (rq_authorization rq) ctx w"
    have M: "?M = (r, w')" using g Some by (simp add: guarded_def)
    show ?thesis
    proof (cases rule: Middleware_cases [of "rq_authorization rq" ps "app_env A" "app_http A" perms "next" ctx w])
      case anonymous
      then show ?thesis using M n [OF w, of ctx] by simp
    next
      case (verified tok c)
      then show ?thesis using M w n [of "w\<lparr>tick := Suc (tick w)\<rparr>" "SomeClaims c"] by simp
    next
      case (checked tok c)
      show ?thesis
      proof (cases "check_roles perms ps (Roles c)")
        case Allowed
        then have "next (SomeClaims c) (w\<lparr>tick := Suc (tick w)\<rparr>) = (r, w')" using M checked by simp
        then show ?thesis using w n [of "w\<lparr>tick := Suc (tick w)\<rparr>" "SomeClaims c"] by simp
      qed (use M checked refl in \<open>auto simp: handle_error_def\<close>)
    qed (use M refl in \<open>auto simp: handle_error_def\<close>)
  qed
qed

text \<open>A request for a route that needs a permission is answered without its handler running, or the
  handler runs with claims the verifier vouched for.\<close>

lemma guarded_permission:
  assumes "guarded A perms rq (Some [p]) next NoValue w = (r, w')"
  obtains (rejected) m e where "r = Ret (error_reply (app_http A) m e)" "db w' = db w" "in_tx w' = in_tx w"
      "jobs w' = jobs w"
  | (admitted) c where "admitted A perms rq (tick w) [p] c"
      "next (SomeClaims c) (w\<lparr>tick := Suc (tick w)\<rparr>) = (r, w')"
proof -
  have M: "Middleware (app_env A) (app_http A) perms [p] next (rq_authorization rq) NoValue w = (r, w')"
    using assms by (simp add: guarded_def)
  show thesis
  proof (cases rule: Middleware_cases
      [of "rq_authorization rq" "[p]" "app_env A" "app_http A" perms "next" NoValue w])
    case (checked tok c)
    show thesis
    proof (cases "check_roles perms [p] (Roles c)")
      case Allowed
      with checked M have "next (SomeClaims c) (w\<lparr>tick := Suc (tick w)\<rparr>) = (r, w')" by simp
      moreover have "admitted A perms rq (tick w) [p] c"
        using checked check_roles_Allowed [OF Allowed] by (auto simp: admitted_def)
      ultimately show thesis by (rule that(2) [rotated])
    qed (use checked M that(1) in \<open>auto simp: handle_error_def\<close>)
  qed (use M that(1) in \<open>auto simp: handle_error_def\<close>)
qed

lemma Recoverer_run: "Recoverer m w = (case m w of
    (Panic p, w') \<Rightarrow> (Ret (Reply 500 NoBody), w') | r \<Rightarrow> r)"
  by (simp add: Recoverer_def)

lemma snd_Recoverer [simp]: "snd (Recoverer m w) = snd (m w)"
  by (cases "m w"; cases "fst (m w)") (auto simp: Recoverer_def)

text \<open>A request changes the tables only on a route that needs a permission, with verified claims that
  grant it, and only along the contract of its endpoint.\<close>

definition authorised :: "app \<Rightarrow> role_permissions \<Rightarrow> request \<Rightarrow> nat \<Rightarrow> db \<Rightarrow> db \<Rightarrow> bool" where
  "authorised A perms rq t d d' \<longleftrightarrow>
     (\<exists>p e c. find_route (rq_method rq) (rq_path rq) = Some (Some [p], e) \<and>
        admitted A perms rq t [p] c \<and> allowed (app_env A) e (SomeClaims c) d d')"

lemma dispatch_result:
  assumes "environment_ok (app_env A)" "service_ok (db w)" "\<not> in_tx w" "dispatch A perms rq w = (r, w')"
  shows "db w' = db w \<or> authorised A perms rq (tick w) (db w) (db w')"
proof (cases "find_route (rq_method rq) (rq_path rq)")
  case None
  then show ?thesis using assms(4) by (simp add: dispatch_unrouted)
next
  case (Some route)
  obtain required e where route: "route = (required, e)" by (cases route)
  let ?g = "guarded A perms rq required (serve_endpoint A rq e) NoValue"
  obtain r1 where g: "?g w = (r1, w')"
  proof -
    have "dispatch A perms rq = Recoverer ?g" using Some route by (simp add: dispatch_guarded)
    with assms(4) have "snd (?g w) = w'" by (metis snd_Recoverer snd_conv)
    then show thesis using that [of "fst (?g w)"] by (simp add: prod_eq_iff)
  qed
  show ?thesis
  proof (cases "\<exists>p. required = Some [p]")
    case True
    then obtain p where p: "required = Some [p]" by blast
    from g [unfolded p] show ?thesis
    proof (cases rule: guarded_permission)
      case (admitted c)
      let ?w = "w\<lparr>tick := Suc (tick w)\<rparr>"
      have "allowed (app_env A) e (SomeClaims c) (db ?w) (db (snd (serve_endpoint A rq e (SomeClaims c) ?w)))"
        using endpoint_moves [OF assms(1), of e "SomeClaims c" rq, unfolded moves_def, rule_format, of ?w]
          assms(2,3) by simp
      then have "allowed (app_env A) e (SomeClaims c) (db w) (db w')" using admitted(2) by simp
      then show ?thesis using Some route p admitted(1) by (auto simp: authorised_def)
    qed simp
  next
    case False
    have o: "open_endpoint e"
      using open_routes [OF Some [unfolded route]] False by blast
    have "moves (\<lambda>d d'. d' = d) ?g"
      by (rule moves_guarded [OF _ moves_mono [OF endpoint_moves [OF assms(1)] open_keeps [OF o]]])
        (simp add: reflp_def)
    then have "db (snd (?g w)) = db w" using assms(2,3) unfolding moves_def by blast
    with g show ?thesis by simp
  qed
qed

text \<open>The same for one endpoint with what is asked of it: a change under a required permission is the handler's,
  run with claims the verifier vouched for.\<close>

lemma dispatch_moves:
  assumes "find_route (rq_method rq) (rq_path rq) = Some (Some [p], e)" "service_ok (db w)" "\<not> in_tx w"
    and "dispatch A perms rq w = (r, w')" "\<And>c. moves (R (SomeClaims c)) (serve_endpoint A rq e (SomeClaims c))"
  shows "db w' = db w \<or> (\<exists>c. admitted A perms rq (tick w) [p] c \<and> R (SomeClaims c) (db w) (db w'))"
proof -
  let ?g = "guarded A perms rq (Some [p]) (serve_endpoint A rq e) NoValue"
  have "snd (?g w) = w'" using assms(4) unfolding dispatch_guarded [OF assms(1)] by (metis snd_Recoverer snd_conv)
  then obtain r1 where g: "?g w = (r1, w')" by (cases "?g w") simp
  from g show ?thesis
  proof (cases rule: guarded_permission)
    case (admitted c)
    let ?w = "w\<lparr>tick := Suc (tick w)\<rparr>"
    have "R (SomeClaims c) (db ?w) (db (snd (serve_endpoint A rq e (SomeClaims c) ?w)))"
      using assms(5) [of c, unfolded moves_def, rule_format, of ?w] assms(2,3) by simp
    then show ?thesis using admitted by auto
  qed simp
qed

end
