(* ===== verification/Sample.thy ===== *)
theory Sample
  imports Server
begin

text \<open>
  A concrete environment: every parameter of the model instantiated by a function that computes, with
  the proof that it meets every contract. The properties that rest on a contract are applied to it.
\<close>

section \<open>Strings that decode\<close>

definition enc_str :: "string \<Rightarrow> string" where
  "enc_str s = replicate (length s) (CHR ''a'') @ CHR ''b'' # s"

definition dec_str :: "string \<Rightarrow> string \<times> string" where
  "dec_str s = (let n = length (takeWhile (\<lambda>c. c = CHR ''a'') s); r = drop (Suc n) s
     in (take n r, drop n r))"

lemma dec_enc_str [simp]: "dec_str (enc_str s @ r) = (s, r)"
proof -
  have "takeWhile (\<lambda>c. c = CHR ''a'') (enc_str s @ r) = replicate (length s) (CHR ''a'')"
    by (simp add: enc_str_def takeWhile_append)
  then show ?thesis by (simp add: dec_str_def Let_def enc_str_def)
qed

fun enc_list :: "string list \<Rightarrow> string" where
  "enc_list [] = ''''"
| "enc_list (s # ss) = enc_str s @ enc_list ss"

fun dec_list :: "nat \<Rightarrow> string \<Rightarrow> string list" where
  "dec_list 0 s = []"
| "dec_list (Suc n) s = (case dec_str s of (x, r) \<Rightarrow> x # dec_list n r)"

lemma dec_enc_list [simp]: "dec_list (length ss) (enc_list ss) = ss"
  by (induction ss) simp_all

definition enc_uuid :: "uuid \<Rightarrow> string" where
  "enc_uuid u = show_nat (unat u)"

definition dec_uuid :: "string \<Rightarrow> uuid" where
  "dec_uuid s = word_of_nat (digits_value s)"

lemma dec_enc_uuid [simp]: "dec_uuid (enc_uuid u) = u"
  by (simp add: dec_uuid_def enc_uuid_def digits_value_show_nat)

definition enc_claims :: "AccessTokenClaims \<Rightarrow> string" where
  "enc_claims c = enc_list
     ([(case UserID c of None \<Rightarrow> '''' | Some u \<Rightarrow> CHR ''u'' # enc_uuid u), RefreshTokenID c,
       replicate (length (Roles c)) (CHR ''a'')] @ Roles c)"

definition dec_claims :: "string \<Rightarrow> AccessTokenClaims" where
  "dec_claims s =
     (case dec_str s of (u, s1) \<Rightarrow> case dec_str s1 of (j, s2) \<Rightarrow> case dec_str s2 of (n, s3) \<Rightarrow>
      \<lparr>UserID = (case u of [] \<Rightarrow> None | _ # d \<Rightarrow> Some (dec_uuid d)), Roles = dec_list (length n) s3,
       RefreshTokenID = j\<rparr>)"

lemma dec_enc_claims [simp]: "dec_claims (enc_claims c) = c"
  by (cases c) (simp add: dec_claims_def enc_claims_def split: option.split)

section \<open>The environment\<close>

fun sample_tag :: "tag \<Rightarrow> field \<Rightarrow> bool" where
  "sample_tag Required (FStr s) \<longleftrightarrow> s \<noteq> ''''"
| "sample_tag Required (FNum n) \<longleftrightarrow> n \<noteq> 0"
| "sample_tag Email (FStr s) \<longleftrightarrow> CHR ''@'' \<in> set s"
| "sample_tag (Min n) (FStr s) \<longleftrightarrow> n \<le> int (rune_count s)"
| "sample_tag (Max n) (FStr s) \<longleftrightarrow> int (rune_count s) \<le> n"
| "sample_tag (Min n) (FNum m) \<longleftrightarrow> n \<le> m"
| "sample_tag (Max n) (FNum m) \<longleftrightarrow> m \<le> n"
| "sample_tag (Min n) (FLen k) \<longleftrightarrow> n \<le> int k"
| "sample_tag (Max n) (FLen k) \<longleftrightarrow> int k \<le> n"
| "sample_tag (RequiredWithout v) (FStr s) \<longleftrightarrow> v \<noteq> '''' \<or> s \<noteq> ''''"
| "sample_tag _ _ \<longleftrightarrow> True"

text \<open>A transaction that always reaches its database.\<close>

definition seq_tx :: "'a io \<Rightarrow> 'a io" where
  "seq_tx f = (\<lambda>w. case f (w\<lparr>in_tx := True\<rparr>) of (r, v) \<Rightarrow>
     (r, v\<lparr>in_tx := False, jobs := jobs w, db := (if returned r then db v else db w)\<rparr>))"

lemma seq_tx_contract: "tx_contract seq_tx"
  unfolding tx_contract_def
proof (intro allI impI)
  fix f :: "'a io" and w :: world
  assume "\<not> in_tx w"
  obtain r v where f: "f (w\<lparr>in_tx := True\<rparr>) = (r, v)" by (cases "f (w\<lparr>in_tx := True\<rparr>)")
  show "\<exists>w0 r w1 r' v. same_but_tick w0 (w\<lparr>in_tx := True\<rparr>) \<and> f w0 = (r, w1) \<and> seq_tx f w = (r', v) \<and>
        \<not> in_tx v \<and> jobs v = jobs w \<and>
        ((r' = r \<and> (if returned r then db v = db w1 else db v = db w))
         \<or> (\<exists>e. r' = Fail e \<and> sentinels_of e = {} \<and> (db v = db w \<or> returned r \<and> db v = db w1)))"
    using f
    by (intro exI [of _ "w\<lparr>in_tx := True\<rparr>"] exI [of _ r] exI [of _ v] exI [of _ r]
        exI [of _ "snd (seq_tx f w)"]) (auto simp: same_but_tick_def seq_tx_def)
qed

definition sample_idkey :: idkey_fun where
  "sample_idkey pw salt t m l k = Some (take (unat k) (pw @ replicate (unat k) (CHR ''.'')))"

definition sample_marshal :: "payload \<Rightarrow> string + string" where
  "sample_marshal p = Inr (case p of AccessPayload c \<Rightarrow> enc_claims c
     | RefreshPayload f \<Rightarrow> enc_uuid (FormUserID f))"

definition sample_sign :: "nat \<Rightarrow> key_usage \<Rightarrow> string \<Rightarrow> string + string" where
  "sample_sign t u p = Inr (case u of KeyUsageAuth \<Rightarrow> CHR ''A'' # p
     | KeyUsageAuthRefresh \<Rightarrow> CHR ''R'' # enc_str (show_nat t) @ p)"

definition sample_verify_access :: "nat \<Rightarrow> bool \<Rightarrow> string \<Rightarrow> go_error + AccessTokenClaims" where
  "sample_verify_access t b tok =
     (let c = dec_claims (tl tok) in
      if tok = CHR ''A'' # enc_claims c then Inr c else Inl (Sentinel ErrInvalidSignature))"

definition sample_decode :: "string \<Rightarrow> string + RefreshTokenClaims" where
  "sample_decode tok = (case dec_str (tl tok) of (t, u) \<Rightarrow>
     Inr \<lparr>Jti = CHR ''j'' # t, RefreshUserID = dec_uuid u\<rparr>)"

definition sample_verify_refresh :: "nat \<Rightarrow> string \<Rightarrow> go_error + RefreshTokenClaims" where
  "sample_verify_refresh t tok =
     (case dec_str (tl tok) of (j, u) \<Rightarrow>
        if tok = CHR ''R'' # enc_str (show_nat (digits_value j)) @ enc_uuid (dec_uuid u)
        then Inr \<lparr>Jti = CHR ''j'' # j, RefreshUserID = dec_uuid u\<rparr>
        else Inl (Sentinel ErrInvalidSignature))"

definition sample :: ext where
  "sample =
     \<lparr>x_now = (\<lambda>t. 1000 * second), x_pg_now = (\<lambda>t. 1000 * second), x_conn = (\<lambda>t. None),
      x_fault = (\<lambda>t. NoFault), x_within_tx = seq_tx, x_within_tx_code = seq_tx,
      x_uuid_new = (\<lambda>t. 2 * word_of_nat t), x_uuid_string = enc_uuid,
      x_rand_read = (\<lambda>t n. Inr (replicate (unat n) (CHR ''s''))), x_rand_int = (\<lambda>t n. Inr (int t mod n)),
      x_num_cpu = 4, x_idkey = sample_idkey, x_argon_version = 19,
      x_init_salt = (\<lambda>n. Inr (replicate (unat n) (CHR ''i''))), x_tag = sample_tag,
      x_json_marshal = (\<lambda>s. Inr (CHR ''q'' # s)),
      x_json_unmarshal = (\<lambda>d. case d of Some (_ # s) \<Rightarrow> Inr s | _ \<Rightarrow> Inl ''unexpected end of JSON input''),
      x_marshal_any = sample_marshal, x_sign = sample_sign, x_decode_unverified = sample_decode,
      x_verify_access = sample_verify_access, x_verify_refresh = sample_verify_refresh,
      x_banner = ''banner''\<rparr>"

lemma sample_simps [simp]:
  "x_now sample t = 1000 * second" "x_pg_now sample t = 1000 * second" "x_conn sample t = None"
  "x_fault sample t = NoFault" "x_within_tx sample = seq_tx" "x_within_tx_code sample = seq_tx"
  "x_idkey sample = sample_idkey" "x_argon_version sample = 19" "x_tag sample = sample_tag"
  "x_marshal_any sample = sample_marshal" "x_sign sample = sample_sign"
  "x_verify_access sample = sample_verify_access" "x_verify_refresh sample = sample_verify_refresh"
  "x_decode_unverified sample = sample_decode" "x_uuid_string sample = enc_uuid"
  by (simp_all add: sample_def)

lemma sample_healthy: "healthy sample"
  by (simp add: healthy_def)

lemma sample_passwords: "password_contract sample"
  by (auto simp: password_contract_def sample_def idkey_contract_def sample_idkey_def min_def)

lemma sample_rand: "rand_contract sample"
  by (simp add: rand_contract_def sample_def)

lemma sample_validator: "validator_contract sample"
  by (simp add: validator_contract_def)

lemma sample_issued_access: "issued_access sample tok c \<longleftrightarrow> tok = CHR ''A'' # enc_claims c"
  by (auto simp: issued_access_def sample_marshal_def sample_sign_def)

lemma sample_keys: "json_keys_contract sample"
proof -
  have a: "sample_verify_access t b tok = Inr c \<Longrightarrow> tok = CHR ''A'' # enc_claims c" for t b tok c
    by (auto simp: sample_verify_access_def Let_def split: if_splits)
  have r: "sample_verify_refresh t tok = Inr c \<Longrightarrow> issued_refresh sample tok c" for t tok c
    unfolding sample_verify_refresh_def
    by (auto simp: issued_refresh_def sample_marshal_def sample_sign_def sample_decode_def
        split: prod.splits if_splits intro!: exI [of _ "digits_value (fst (dec_str (tl tok)))"])
  have d: "sample_decode (CHR ''R'' # enc_str s @ enc_uuid u) = Inr c \<Longrightarrow> RefreshUserID c = u" for s u c
    by (auto simp: sample_decode_def)
  have j: "sample_decode tok = Inr c \<Longrightarrow> Jti c \<noteq> ''''" for tok c
    by (auto simp: sample_decode_def split: prod.splits)
  have e: "sample_verify_access t b tok = Inl e \<Longrightarrow> e = Sentinel ErrInvalidSignature"
    "sample_verify_refresh t tok = Inl e \<Longrightarrow> e = Sentinel ErrInvalidSignature" for t b tok e
    by (auto simp: sample_verify_access_def sample_verify_refresh_def Let_def split: if_splits prod.splits)
  have inj: "enc_claims c = enc_claims c' \<Longrightarrow> c = c'" for c c' by (metis dec_enc_claims)
  show ?thesis
    unfolding json_keys_contract_def
    using a r d j e inj
    by (auto simp: sample_issued_access issued_refresh_def sample_marshal_def sample_sign_def; fastforce)
qed

lemma sample_keys_available: "keys_available sample"
  by (simp add: keys_available_def sample_issued_access sample_marshal_def sample_sign_def
      sample_verify_access_def)

lemma sample_ok: "environment_ok sample"
  by (simp add: environment_ok_def seq_tx_contract sample_passwords sample_rand sample_validator sample_keys)

section \<open>A server\<close>

definition sample_status :: "err_map \<Rightarrow> go_error \<Rightarrow> nat" where
  "sample_status m e =
     (case find (\<lambda>(k, n). case k of None \<Rightarrow> False | Some s \<Rightarrow> errors_is e s) m of
        Some (k, n) \<Rightarrow> n
      | None \<Rightarrow> (case find (\<lambda>(k, n). k = None) m of Some (k, n) \<Rightarrow> n | None \<Rightarrow> 500))"

definition sample_http :: http where
  "sample_http = \<lparr>h_status = sample_status, h_order = (\<lambda>n ks. ks)\<rparr>"

lemma sample_http_status: "status_contract sample_http"
  unfolding status_contract_def Let_def
proof (intro allI)
  fix m :: err_map and e
  let ?hits = "{n. \<exists>s. (Some s, n) \<in> set m \<and> errors_is e s}"
  show "if ?hits \<noteq> {} then h_status sample_http m e \<in> ?hits
      else if \<exists>n. (None, n) \<in> set m then (None, h_status sample_http m e) \<in> set m
      else h_status sample_http m e = 500"
  proof (cases "find (\<lambda>(k, n). case k of None \<Rightarrow> False | Some s \<Rightarrow> errors_is e s) m")
    case None
    then have h: "?hits = {}" by (force simp: find_None_iff)
    show ?thesis
    proof (cases "find (\<lambda>(k, n). k = None) m")
      case none: None
      then have "\<nexists>n. (None, n) \<in> set m" by (force simp: find_None_iff)
      then show ?thesis using h None none by (simp add: sample_http_def sample_status_def)
    next
      case (Some kn)
      then have "(None, snd kn) \<in> set m" by (auto simp: find_Some_iff in_set_conv_nth)
      then show ?thesis using h None Some by (auto simp: sample_http_def sample_status_def split: prod.split)
    qed
  next
    case (Some kn)
    obtain k n where kn: "kn = (k, n)" by (cases kn)
    have "(k, n) \<in> set m" using Some kn by (auto simp: find_Some_iff in_set_conv_nth)
    moreover obtain s where "k = Some s" "errors_is e s"
      using Some kn by (cases k) (auto simp: find_Some_iff)
    ultimately have "(Some s, snd kn) \<in> set m" "errors_is e s" using kn by simp_all
    then show ?thesis using Some by (auto simp: sample_http_def sample_status_def split: prod.split)
  qed
qed

definition sample_codecs :: codecs where
  "sample_codecs =
     \<lparr>d_tokenCreate = (\<lambda>b. let f = dec_list 2 b in Inr \<lparr>ht_Email = f ! 0, ht_Password = f ! 1\<rparr>),
      d_tokenRefresh = (\<lambda>b. let f = dec_list 2 b in Inr \<lparr>htr_AccessToken = f ! 0, htr_RefreshToken = f ! 1\<rparr>),
      d_get = (\<lambda>q. Inr (dec_uuid q)), d_exist = Inr,
      d_list = (\<lambda>q. Inr \<lparr>hl_Limit = 10, hl_Offset = int (digits_value q), hl_Roles = []\<rparr>),
      d_create = (\<lambda>b. let f = dec_list 3 b in
        Inr \<lparr>hcc_Email = f ! 0, hcc_Password = f ! 1, hcc_ShortCode = f ! 2\<rparr>),
      d_updateEmail = (\<lambda>b. let f = dec_list 2 b in Inr \<lparr>hue_UserID = dec_uuid (f ! 0), hue_ShortCode = f ! 1\<rparr>),
      d_updatePassword = (\<lambda>b. let f = dec_list 2 b in Inr \<lparr>hup_Password = f ! 0, hup_CurrentPassword = f ! 1\<rparr>),
      d_resetPassword = (\<lambda>b. let f = dec_list 3 b in
        Inr \<lparr>hrp_Password = f ! 0, hrp_ShortCode = f ! 1, hrp_UserID = dec_uuid (f ! 2)\<rparr>),
      d_updateRole = (\<lambda>b. let f = dec_list 2 b in Inr \<lparr>hur_UserID = dec_uuid (f ! 0), hur_Role = f ! 1\<rparr>),
      d_mail = (\<lambda>b. let f = dec_list 2 b in Inr \<lparr>hm_Email = f ! 0, hm_Lang = f ! 1\<rparr>)\<rparr>"

definition sample_app :: app where
  "sample_app =
     \<lparr>app_env = sample, app_http = sample_http, app_codes = ShortCodesPresetDefault,
      app_urls = \<lparr>UpdateEmail = ''https://a/email'', UpdatePassword = ''https://a/password'',
                  Register = ''https://a/register''\<rparr>,
      app_codecs = sample_codecs, app_pg_ping = (\<lambda>t. None), app_smtp_ping = (\<lambda>t. None),
      app_keys_status = (\<lambda>t. None), app_methods = (\<lambda>_. False)\<rparr>"

text \<open>A database with one account per rank from user to superadmin, all with the password \<open>pass\<close>.\<close>

definition sample_hash :: "string \<Rightarrow> string" where
  "sample_hash pw = encode_hash 19 (resolved_params sample) (replicate 32 (CHR ''s''))
     (take 32 (pw @ replicate 32 (CHR ''.'')))"

lemma sample_generate: "GenerateArgon2 sample_idkey 19 (x_num_cpu sample) (x_rand_read sample t) pw Argon2ParamsDefault
    = Ret (sample_hash pw)"
  by (simp add: GenerateArgon2_def sample_def sample_idkey_def sample_hash_def resolved_params_def
      Argon2ParamsDefault_def)

lemma sample_hash_generated: "generated_hash sample pw (sample_hash pw)"
  unfolding generated_hash_def using sample_generate by (metis sample_simps(7,8))

definition sample_account :: "nat \<Rightarrow> string \<Rightarrow> string \<Rightarrow> dao_credentials" where
  "sample_account n email role =
     \<lparr>c_id = word_of_nat n, c_email = email, c_password = sample_hash ''pass'', c_role = role,
      c_created_at = 0, c_updated_at = 0\<rparr>"

definition sample_accounts :: "dao_credentials list" where
  "sample_accounts = [sample_account 11 ''root@a'' RoleSuperAdmin, sample_account 21 ''admin@a'' RoleAdmin,
     sample_account 13 ''user@a'' RoleUser]"

definition sample_world :: world where
  "sample_world = \<lparr>tick = 0, db = \<lparr>credentials = sample_accounts, short_codes = []\<rparr>, in_tx = False,
     work = [], jobs = []\<rparr>"

lemma sample_world_simps [simp]:
  "tick sample_world = 0" "in_tx sample_world = False" "jobs sample_world = []" "work sample_world = []"
  "credentials (db sample_world) = sample_accounts" "short_codes (db sample_world) = []"
  by (simp_all add: sample_world_def)

lemma sample_app_simps [simp]:
  "app_env sample_app = sample" "app_http sample_app = sample_http"
  "app_codes sample_app = ShortCodesPresetDefault" "app_codecs sample_app = sample_codecs"
  by (simp_all add: sample_app_def)

lemma sample_accounts_ok: "accounts_ok (db sample_world)"
  by (simp add: accounts_ok_def credentials_ok_def sample_accounts_def sample_account_def row_checks_def
      role_check_list_def role_names)

lemma sample_service_ok: "service_ok (db sample_world)"
  by (simp add: service_ok_def sample_accounts_ok short_codes_ok_def codes_ok_def)

text \<open>Identifiers are even, those of the accounts odd: a new one is never in use.\<close>

lemma sample_fresh: "x_uuid_new sample t \<notin> c_id ` set sample_accounts"
proof
  assume "x_uuid_new sample t \<in> c_id ` set sample_accounts"
  then have "2 * word_of_nat t = (11 :: uuid) \<or> 2 * word_of_nat t = (21 :: uuid) \<or> 2 * word_of_nat t = (13 :: uuid)"
    by (auto simp: sample_def sample_accounts_def sample_account_def)
  then have "even (11 :: uuid) \<or> even (21 :: uuid) \<or> even (13 :: uuid)" by (metis dvd_triv_left)
  then show False by simp
qed

abbreviation sample_urls :: SmtpUrls where
  "sample_urls \<equiv> app_urls sample_app"

lemma show_nat_length: "n < 10 ^ k \<Longrightarrow> 0 < k \<Longrightarrow> length (show_nat n) \<le> k"
proof (induction n arbitrary: k rule: show_nat.induct)
  case (1 n)
  show ?case
  proof (cases "n < 10")
    case True
    then show ?thesis using 1(3) by (subst show_nat.simps) simp
  next
    case False
    obtain j where k: "k = Suc j" using 1(3) by (cases k) auto
    with False 1(2) have "0 < j" by (cases j) auto
    with k have j: "k = Suc j" "0 < j" by blast+
    then have "n div 10 < 10 ^ j" using 1(2) by (simp add: less_mult_imp_div_less mult.commute)
    from 1(1) [OF False this j(2)] False j(1) show ?thesis by (subst show_nat.simps) simp
  qed
qed

lemma rune_count_le: "length s \<le> n \<Longrightarrow> rune_count s \<le> n"
  unfolding rune_count_def by (rule le_trans [OF length_filter_le])

lemma sample_uuid_string: "x_uuid_string sample i \<noteq> '''' \<and> rune_count (x_uuid_string sample i) \<le> 1024"
proof -
  have "unat i < 10 ^ 39" using unat_bound [of i] by simp
  then have "length (enc_uuid i) \<le> 39" unfolding enc_uuid_def by (rule show_nat_length) simp
  then have "rune_count (enc_uuid i) \<le> 1024" by (intro rune_count_le) simp
  then show ?thesis by (simp add: enc_uuid_def)
qed

lemma sample_ttl: "usage_ttl ShortCodesPresetDefault ShortCodeUsageRegister = 48 * hour"
  "usage_ttl ShortCodesPresetDefault ShortCodeUsageValidateEmail = 48 * hour"
  "usage_ttl ShortCodesPresetDefault ShortCodeUsageResetPassword = 2 * hour"
  by (simp_all add: usage_ttl_def ShortCodesPresetDefault_def usage_names)

lemma sample_size: "0 \<le> Size ShortCodesPresetDefault" by (simp add: ShortCodesPresetDefault_def)

end
