(* ===== verification/LibProperties.thy ===== *)
theory LibProperties
  imports Sample
begin

text \<open>
  Properties of \<open>internal/lib\<close> and of the configuration: password hashing, random codes, dependency
  resolution, the permissions of the default roles.
\<close>

section \<open>Password hashing\<close>

text \<open>C36: A hash made by \<open>GenerateArgon2\<close> decodes to the salt that was drawn, the derived key and the
  parameters it was made with; it verifies against the password it was made from, and against another
  password exactly when both derive the same key under the stored salt and parameters; any other password is
  refused with \<open>ErrInvalidPassword\<close>.\<close>

theorem generated_hash_verifies:
  assumes "idkey_contract idkey" "v < 2 ^ 63" "GenerateArgon2 idkey v ncpu rs pw params = Ret enc"
  shows "CompareArgon2 idkey v pw enc = Ret () \<and>
    (\<exists>salt hash. rs (SaltLength params) = Inr salt \<and>
       idkey pw salt (Iterations params) (Memory params)
         (resolve_parallelism ncpu (Parallelism params)) (KeyLength params) = Some hash \<and>
       decodeHash v enc = Ret (params\<lparr>Parallelism := resolve_parallelism ncpu (Parallelism params),
         SaltLength := word_of_nat (length salt)\<rparr>, salt, hash) \<and>
       (\<forall>pw'. CompareArgon2 idkey v pw' enc =
          (case idkey pw' salt (Iterations params) (Memory params)
                 (resolve_parallelism ncpu (Parallelism params)) (KeyLength params) of
             None \<Rightarrow> Panic ''argon2''
           | Some h \<Rightarrow> if hash = h then Ret () else Fail (Sentinel ErrInvalidPassword))))"
proof -
  obtain salt hash where s: "rs (SaltLength params) = Inr salt"
    "idkey pw salt (Iterations params) (Memory params)
       (resolve_parallelism ncpu (Parallelism params)) (KeyLength params) = Some hash"
    "decodeHash v enc = Ret (params\<lparr>Parallelism := resolve_parallelism ncpu (Parallelism params),
       SaltLength := word_of_nat (length salt)\<rparr>, salt, hash)"
    using decode_generated [OF assms] .
  have "CompareArgon2 idkey v pw' enc =
      (case idkey pw' salt (Iterations params) (Memory params)
             (resolve_parallelism ncpu (Parallelism params)) (KeyLength params) of
         None \<Rightarrow> Panic ''argon2''
       | Some h \<Rightarrow> if hash = h then Ret () else Fail (Sentinel ErrInvalidPassword))" for pw'
    using compare_generated [OF assms, of pw'] s by auto
  with s compare_own_password [OF assms] show ?thesis by blast
qed

lemma generated_hash_verifies_witness:
  "CompareArgon2 sample_idkey 19 ''pass'' (sample_hash ''pass'') = Ret () \<and>
   (\<exists>ps salt hash. decodeHash 19 (sample_hash ''pass'') = Ret (ps, salt, hash))"
  using generated_hash_verifies [of sample_idkey 19, OF _ _ sample_generate [of 0 "''pass''"]] sample_passwords
  by (auto simp: password_contract_def)

text \<open>Whatever the salt, the key and the parameters, the encoded form decodes to them, with the two lengths
  read off the decoded bytes.\<close>

lemma hash_round_trip:
  assumes "v < 2 ^ 63" "length hash < 2 ^ 32"
  shows "decodeHash v (encode_hash v params salt hash) =
    Ret (params\<lparr>SaltLength := word_of_nat (length salt), KeyLength := word_of_nat (length hash)\<rparr>, salt, hash)"
  using assms by (rule decode_encode)

lemma hash_round_trip_witness:
  "decodeHash 19 (encode_hash 19 Argon2ParamsDefault ''salt'' ''key$'') =
     Ret (Argon2ParamsDefault\<lparr>SaltLength := 4, KeyLength := 4\<rparr>, ''salt'', ''key$'')"
  using hash_round_trip [of 19 "''key$''" Argon2ParamsDefault "''salt''"] by simp

text \<open>C0: A comparison is decided by what the stored hash reads as. When it reads as parameters, salt and key of
  the current version, the password is accepted exactly when it derives that key, and refused with the error of
  a wrong password otherwise; a hash of another version and a malformed one are told by errors of their own.
  A failure carries one of the three errors and never two of them.\<close>

theorem compare_error_classes:
  "case CompareArgon2 idkey v pw enc of
     Ret _ \<Rightarrow> \<exists>ps salt hash. encodes v enc ps salt hash \<and>
       idkey pw salt (Iterations ps) (Memory ps) (Parallelism ps) (KeyLength ps) = Some hash
   | Panic _ \<Rightarrow> \<exists>ps salt hash. encodes v enc ps salt hash \<and>
       idkey pw salt (Iterations ps) (Memory ps) (Parallelism ps) (KeyLength ps) = None
   | Fail e \<Rightarrow>
       sentinels_of e = {ErrInvalidPassword} \<and> (\<exists>ps salt hash key. encodes v enc ps salt hash \<and>
         idkey pw salt (Iterations ps) (Memory ps) (Parallelism ps) (KeyLength ps) = Some key \<and> key \<noteq> hash) \<or>
       sentinels_of e = {ErrIncompatibleVersion} \<and> other_version v enc \<or>
       sentinels_of e = {ErrInvalidHash} \<and> \<not> other_version v enc \<and> (\<nexists>ps salt hash. encodes v enc ps salt hash)"
proof (cases rule: decodeHash_cases [of v enc])
  case (reads ps salt hash)
  then show ?thesis
    by (cases "idkey pw salt (Iterations ps) (Memory ps) (Parallelism ps) (KeyLength ps)") (auto simp: CompareArgon2_def)
qed (simp_all add: CompareArgon2_def)

lemma compare_error_classes_witness:
  "\<exists>e1 e2 e3. CompareArgon2 sample_idkey 19 ''pass'' ''no hash'' = Fail e1 \<and> sentinels_of e1 = {ErrInvalidHash} \<and>
     CompareArgon2 sample_idkey 18 ''pass'' (sample_hash ''pass'') = Fail e2 \<and> sentinels_of e2 = {ErrIncompatibleVersion} \<and>
     CompareArgon2 sample_idkey 19 ''word'' (sample_hash ''pass'') = Fail e3 \<and> sentinels_of e3 = {ErrInvalidPassword}"
proof -
  note c = compare_error_classes [where idkey = sample_idkey]
  have pc: "idkey_contract sample_idkey" using sample_passwords by (simp add: password_contract_def)
  have m: "\<not> other_version 19 ''no hash''" "\<not> encodes 19 ''no hash'' ps salt hash" for ps salt hash
    by (simp_all add: other_version_def encodes_def dollar_def)
  obtain e1 where e1: "CompareArgon2 sample_idkey 19 ''pass'' ''no hash'' = Fail e1" "sentinels_of e1 = {ErrInvalidHash}"
    using c [where v = 19 and pw = "''pass''" and enc = "''no hash''"] m by (auto split: outcome.splits)
  have o: "other_version 18 (sample_hash ''pass'')"
    using sscanf_version [of 19] by (simp add: other_version_def sample_hash_def split_encode_hash)
  then have "\<not> encodes 18 (sample_hash ''pass'') ps salt hash" for ps salt hash using encodes_version by blast
  then obtain e2 where e2: "CompareArgon2 sample_idkey 18 ''pass'' (sample_hash ''pass'') = Fail e2"
    "sentinels_of e2 = {ErrIncompatibleVersion}"
    using c [where v = 18 and pw = "''pass''" and enc = "sample_hash ''pass''"] o by (auto split: outcome.splits)
  obtain e3 where e3: "CompareArgon2 sample_idkey 19 ''word'' (sample_hash ''pass'') = Fail e3" "errors_is e3 ErrInvalidPassword"
    using compare_generated [OF pc _ sample_generate [of 0 "''pass''"], of "''word''"]
    by (auto simp: sample_idkey_def Argon2ParamsDefault_def errors_is_sentinels)
  then have "sentinels_of e3 = {ErrInvalidPassword}"
    using c [where v = 19 and pw = "''word''" and enc = "sample_hash ''pass''"] by (auto simp: errors_is_sentinels)
  with e1 e2 e3 show ?thesis by blast
qed

text \<open>C38: The number of lanes taken from the machine is the number of processors, capped at 255: it
  fits the 8 bits of the parameter and is never zero, which the key derivation refuses.\<close>

theorem lanes_in_range:
  assumes "1 \<le> ncpu"
  shows "unat (resolve_parallelism ncpu 0) = nat (min ncpu 255) \<and> 0 < unat (resolve_parallelism ncpu p) \<and>
    (p \<noteq> 0 \<longrightarrow> resolve_parallelism ncpu p = p)"
  using resolve_parallelism_bounds(1) [OF assms, of p] resolve_parallelism_bounds(3) [OF assms]
  by (simp add: resolve_parallelism_def)

lemma lanes_in_range_witness: "unat (resolve_parallelism 300 0) = 255"
  using lanes_in_range [of 300 0] by simp

section \<open>Random codes\<close>

text \<open>\<open>NewRandomURLString\<close> is a function of its draws: when every draw succeeds it returns the
  characters drawn, one per position, and when a draw fails it fails with an error no caller matches
  on. It never indexes outside the alphabet and leaves the tables alone.\<close>

lemma random_string_of_draws:
  assumes "rand_contract E" "0 \<le> n"
  shows "case fst (NewRandomURLString E n w) of
      Ret s \<Rightarrow> (\<forall>k<nat n. drawn E (tick w) k \<noteq> None) \<and>
        s = map (\<lambda>k. URLCharList ! nat (the (drawn E (tick w) k))) [0..<nat n] \<and>
        length s = nat n \<and> set s \<subseteq> set URLCharList
    | Fail e \<Rightarrow> (\<exists>k<nat n. drawn E (tick w) k = None) \<and> sentinels_of e = {}
    | Panic p \<Rightarrow> False"
proof (cases "\<forall>k<nat n. drawn E (tick w) k \<noteq> None")
  case True
  note r = random_chars_Ret [OF assms(1) True]
  show ?thesis
    using True r random_chars_length [OF assms(1) r] assms(2) by (simp add: NewRandomURLString_def)
next
  case False
  then obtain k where k: "k < nat n" "drawn E (tick w) k = None" by blast
  with random_chars_fails [OF assms(1) k] assms(2) show ?thesis
    by (fastforce simp: NewRandomURLString_def)
qed

lemma random_string_of_draws_witness: "fst (NewRandomURLString sample 3 sample_world) = Ret ''abc''"
proof -
  have d: "drawn sample 0 k = Some (int k mod 62)" for k
    by (simp add: drawn_def sample_def url_alphabet_facts)
  have "\<forall>k<3. drawn sample 0 k \<noteq> None" by (simp add: d)
  then show ?thesis
    using random_string_of_draws [OF sample_rand, of 3 sample_world]
    by (auto simp: d upt_rec URLCharList_def numeral_3_eq_3 split: outcome.splits)
qed

text \<open>Raw base64 in both alphabets: what is encoded decodes to itself, two inputs never share an
  encoding, and the output stays in the alphabet.\<close>

theorem base64_round_trip:
  "b64_decode std_alphabet (b64_encode std_alphabet s) = Some s \<and>
   b64_decode url_alphabet (b64_encode url_alphabet s) = Some s \<and>
   (b64_encode url_alphabet s = b64_encode url_alphabet t \<longleftrightarrow> s = t) \<and>
   set (b64_encode std_alphabet s) \<subseteq> set std_alphabet \<and> set (b64_encode url_alphabet s) \<subseteq> set url_alphabet"
  using std64.encode_chars url64.encode_chars
  by (auto simp: std64.encode_decode url64.encode_decode url64.encode_inj)

section \<open>Dependency resolution\<close>

text \<open>C39: \<open>ResolveDependants\<close> succeeds exactly when inheritance is well founded and every parent is a
  key of one of the two maps; otherwise it reports a circular dependency. It always terminates.\<close>

theorem resolve_succeeds_iff:
  assumes "iteration_order order" "distinct (map fst deps)"
  shows "(case ResolveDependants order mods deps of
      Inr r \<Rightarrow> wf {(d, m). d \<in> dep_set deps m} \<and> (\<forall>m. dep_set deps m \<subseteq> known mods deps)
    | Inl e \<Rightarrow> sentinels_of e = {ErrCircularDependency} \<and>
        \<not> (wf {(d, m). d \<in> dep_set deps m} \<and> (\<forall>m. dep_set deps m \<subseteq> known mods deps)))"
  using assms
proof (cases rule: ResolveDependants_cases [of order deps mods])
  case (circular e)
  then have "\<not> (wf {(d, m). d \<in> dep_set deps m} \<and> (\<forall>m. dep_set deps m \<subseteq> known mods deps))"
    using wf_resolvable [of "dep_set deps" "known mods deps"] by blast
  with circular show ?thesis by simp
next
  case (resolved r)
  have "m \<notin> known mods deps \<Longrightarrow> dep_set deps m = {}" for m
    by (cases "map_of deps m") (force simp: known_def dep_set_def entry_def dest: map_of_SomeD)+
  with resolved resolvable_wf [of "known mods deps" "dep_set deps"] show ?thesis by simp
qed

lemma resolve_succeeds_iff_witness:
  "\<exists>e. ResolveDependants (\<lambda>n ks. ks) [(''a'', [1 :: nat])] [(''a'', [''b'']), (''b'', [''a''])] = Inl e"
proof -
  let ?deps = "[(''a'', [''b'']), (''b'', [''a''])]"
  have d: "dep_set ?deps ''a'' = {''b''}" "dep_set ?deps ''b'' = {''a''}"
    by (simp_all add: dep_set_def entry_def)
  have "\<not> wf {(d, m). d \<in> dep_set ?deps m}"
  proof
    assume "wf {(d, m). d \<in> dep_set ?deps m}"
    then have "(''b'', ''a'') \<notin> {(d, m). d \<in> dep_set ?deps m} \<or> (''a'', ''b'') \<notin> {(d, m). d \<in> dep_set ?deps m}"
      by (metis wf_not_sym)
    with d show False by simp
  qed
  with resolve_succeeds_iff [of "\<lambda>n ks. ks" ?deps "[(''a'', [1 :: nat])]"] show ?thesis
    by (auto simp: iteration_order_def split: sum.splits)
qed

text \<open>The resolved map has an entry for every key, which lists the key's own values followed by those
  of its parents in order; as a set, the values of every key it inherits from, directly or not.\<close>

lemma resolved_values:
  assumes "iteration_order order" "distinct (map fst deps)" "ResolveDependants order mods deps = Inr r"
    and "m \<in> known mods deps"
  shows "\<exists>ds. r m = Some ds \<and> ds = entry mods m @ concat (map (looked_up r) (entry deps m)) \<and>
    set ds = {p. \<exists>s. (m, s) \<in> (inherits deps)\<^sup>* \<and> p \<in> set (entry mods s)}"
  using assms(1,2)
proof (cases rule: ResolveDependants_cases [of order deps mods])
  case (circular e)
  with assms(3) show ?thesis by simp
next
  case (resolved r')
  with assms(3) have f: "flattened mods deps (known mods deps) r" by simp
  then have r: "r m = Some (entry mods m @ concat (map (looked_up r) (entry deps m)))"
    using assms(4) by (simp add: flattened_def gathered_def)
  moreover obtain ds where "r m = Some ds"
    "set ds = {p. \<exists>s. (m, s) \<in> (inherits deps)\<^sup>* \<and> p \<in> set (entry mods s)}"
    using flattened_set [OF f] resolved(3) assms(4) by blast
  ultimately show ?thesis by simp
qed

lemma resolved_values_witness:
  "\<exists>r ds. ResolveDependants (\<lambda>n ks. ks) default_mods default_deps = Inr r \<and> r ''auth:user'' = Some ds \<and>
     ''credentials:create'' \<in> set ds"
proof -
  have o: "iteration_order (\<lambda>n ks. ks :: string list)" by (simp add: iteration_order_def)
  obtain r where r: "ResolveDependants (\<lambda>n ks. ks) default_mods default_deps = Inr r"
    by (rule default_granted [OF o])
      (auto simp: granted_permissions_def default_mods_def [symmetric] default_deps_def [symmetric] split: sum.splits)
  have d: "distinct (map fst default_deps)" "''auth:user'' \<in> known default_mods default_deps"
    by (simp add: default_deps_def PermissionsConfigDefault_def) (simp add: default_known role_check_list_def)
  have "(''auth:user'', ''auth:anon'') \<in> (inherits default_deps)\<^sup>*"
    by (rule r_into_rtrancl) (simp add: inherits_def default_dep_set)
  moreover have "''credentials:create'' \<in> set (entry default_mods ''auth:anon'')"
    by (simp add: entry_def default_mods_def PermissionsConfigDefault_def)
  ultimately show ?thesis using resolved_values [OF o d(1) r d(2)] r by blast
qed

text \<open>C40: The result does not depend on the order in which Go iterates over its maps, and it is the reference
  one: a resolved map has an entry for every key, which lists the key's own values followed by those of its
  parents in order, and so, as a set, the values of every key it inherits from, directly or not.\<close>

theorem resolve_order_irrelevant:
  assumes "iteration_order order" "iteration_order order'" "distinct (map fst deps)"
  shows "ResolveDependants order mods deps = ResolveDependants order' mods deps \<and>
    (\<forall>r m. ResolveDependants order mods deps = Inr r \<and> m \<in> known mods deps \<longrightarrow>
       (\<exists>ds. r m = Some ds \<and> ds = entry mods m @ concat (map (looked_up r) (entry deps m)) \<and>
         set ds = {p. \<exists>s. (m, s) \<in> (inherits deps)\<^sup>* \<and> p \<in> set (entry mods s)}))"
proof
  show "\<forall>r m. ResolveDependants order mods deps = Inr r \<and> m \<in> known mods deps \<longrightarrow>
       (\<exists>ds. r m = Some ds \<and> ds = entry mods m @ concat (map (looked_up r) (entry deps m)) \<and>
         set ds = {p. \<exists>s. (m, s) \<in> (inherits deps)\<^sup>* \<and> p \<in> set (entry mods s)})"
    using resolved_values [OF assms(1,3)] by blast
  show "ResolveDependants order mods deps = ResolveDependants order' mods deps"
    using assms(1,3)
  proof (cases rule: ResolveDependants_cases [of order deps mods])
    case (circular e)
    obtain e' where "ResolveDependants order' mods deps = Inl e'"
      using assms(2,3) circular(3) by (cases rule: ResolveDependants_cases [of order' deps mods]) auto
    then show ?thesis using circular(1) ResolveDependants_error assms by metis
  next
    case (resolved r)
    obtain r' where r': "ResolveDependants order' mods deps = Inr r'" "flattened mods deps (known mods deps) r'"
      using assms(2,3) resolved(3) by (cases rule: ResolveDependants_cases [of order' deps mods]) auto
    have "r = r'"
      by (rule flattened_unique [OF resolved(2) r'(2)]) (use resolved(3) in \<open>simp add: dep_set_def [abs_def]\<close>)
    with resolved(1) r'(1) show ?thesis by simp
  qed
qed

lemma resolve_order_irrelevant_witness:
  "\<exists>r. ResolveDependants (\<lambda>n. rev) default_mods default_deps = Inr r \<and>
     ResolveDependants (\<lambda>n ks. ks) default_mods default_deps = Inr r"
proof -
  have o: "iteration_order (\<lambda>n ks. ks :: string list)" "iteration_order (\<lambda>n. rev :: string list \<Rightarrow> _)"
    by (simp_all add: iteration_order_def)
  have "distinct (map fst default_deps)" by (simp add: default_deps_def PermissionsConfigDefault_def)
  from conjunct1 [OF resolve_order_irrelevant [OF o(2,1) this, of default_mods]]
  show ?thesis using resolved_values_witness by metis
qed

section \<open>The default roles\<close>

text \<open>At startup the default configuration resolves, whatever the iteration order, to one list per role
  of the schema, and a role grants a permission exactly when its priority is at least the priority of the
  role that introduces it: each role holds everything the roles below it hold.\<close>

lemma default_hierarchy:
  assumes "iteration_order order"
  shows "\<exists>perms. granted_permissions order PermissionsConfigDefault = Ret perms \<and>
    dom perms = set role_check_list \<and>
    (\<forall>role p n. perms role \<noteq> None \<longrightarrow> granted_from p = Some n \<longrightarrow>
       (p \<in> set (the (perms role)) \<longleftrightarrow> n \<le> rank role))"
proof (rule default_granted [OF assms])
  fix r assume r: "granted_permissions order PermissionsConfigDefault = Ret r"
    and f: "flattened default_mods default_deps (set role_check_list) r"
  have "dom r = set role_check_list" using f by (simp add: flattened_def)
  moreover have "p \<in> set (the (r role)) \<longleftrightarrow> n \<le> rank role"
    if "r role \<noteq> None" "granted_from p = Some n" for role p n
  proof -
    have "role \<in> dom r" using that(1) by blast
    then have "role \<in> set role_check_list" using \<open>dom r = _\<close> by simp
    from default_permission_rank [OF f this that(2)] show ?thesis by auto
  qed
  ultimately show ?thesis using r by blast
qed

lemma default_hierarchy_witness:
  "\<exists>perms. granted_permissions (\<lambda>n. rev) PermissionsConfigDefault = Ret perms \<and>
     ''credentials:role:patch'' \<in> set (the (perms ''auth:superadmin'')) \<and>
     ''credentials:role:patch'' \<notin> set (the (perms ''auth:admin''))"
proof -
  have g: "granted_from ''credentials:role:patch'' = Some 3"
    by (simp add: granted_from_def PermissionsConfigDefault_def)
  have k: "rank ''auth:superadmin'' = 3" "rank ''auth:admin'' = 2"
    by (simp_all add: rank_def Priority_def PermissionsConfigDefault_def)
  have d: "''auth:superadmin'' \<in> set role_check_list" "''auth:admin'' \<in> set role_check_list"
    by (simp_all add: role_check_list_def)
  have o: "iteration_order (\<lambda>n. rev :: string list \<Rightarrow> string list)" by (simp add: iteration_order_def)
  from default_hierarchy [OF o] obtain perms where
    p: "granted_permissions (\<lambda>n. rev) PermissionsConfigDefault = Ret perms"
    and dom: "dom perms = set role_check_list"
    and h: "\<forall>role p n. perms role \<noteq> None \<longrightarrow> granted_from p = Some n \<longrightarrow>
       (p \<in> set (the (perms role)) \<longleftrightarrow> n \<le> rank role)" by blast
  have "perms ''auth:superadmin'' \<noteq> None" "perms ''auth:admin'' \<noteq> None" using d dom by blast+
  then have "''credentials:role:patch'' \<in> set (the (perms ''auth:superadmin''))"
    "''credentials:role:patch'' \<notin> set (the (perms ''auth:admin''))"
    using h g k by simp_all
  with p show ?thesis by blast
qed

end
