(* ===== verification/Availability.thy ===== *)
theory Availability
  imports Sample
begin

text \<open>
  The services while nothing breaks: under the assumption \<open>reliable\<close> on the environment (statements
  succeed, transactions commit, randomness and keys are available) every operation is a function of its
  request and the tables. The lemmas run the operations; completeness and round trips rest on them.
\<close>

section \<open>When nothing breaks\<close>

text \<open>
  The infrastructure at its best: statements and connections succeed, transactions commit, randomness,
  serialisation and the key service answer. What the services then do is a function of the tables.
\<close>

definition reliable :: "ext \<Rightarrow> bool" where
  "reliable E \<longleftrightarrow> environment_ok E \<and> healthy E \<and> keys_available E \<and>
     x_within_tx E = seq_tx \<and> x_within_tx_code E = seq_tx \<and>
     (\<forall>t n. \<exists>s. x_rand_read E t n = Inr s) \<and> (\<forall>t n. 0 < n \<longrightarrow> (\<exists>v. x_rand_int E t n = Inr v)) \<and>
     (\<forall>t p tok. x_sign E t KeyUsageAuthRefresh p = Inr tok \<longrightarrow> (\<exists>c. x_decode_unverified E tok = Inr c)) \<and>
     (\<forall>t tok c. issued_refresh E tok c \<longrightarrow> x_verify_refresh E t tok = Inr c) \<and>
     (\<forall>pw salt t m l k. 0 < t \<longrightarrow> 0 < l \<longrightarrow> (\<exists>h. x_idkey E pw salt t m l k = Some h)) \<and>
     (\<forall>s. \<exists>d. x_json_marshal E s = Inr d \<and> x_json_unmarshal E (Some d) = Inr s)"

lemma reliableD:
  assumes "reliable E"
  shows "environment_ok E" "healthy E" "keys_available E" "x_within_tx E = seq_tx" "x_within_tx_code E = seq_tx"
    "\<exists>s. x_rand_read E t n = Inr s" "0 < m \<Longrightarrow> \<exists>v. x_rand_int E t m = Inr v"
    "\<exists>d. x_json_marshal E str = Inr d \<and> x_json_unmarshal E (Some d) = Inr str"
    "0 < rounds \<Longrightarrow> 0 < lanes \<Longrightarrow> \<exists>h. x_idkey E pw salt rounds mem lanes keylen = Some h"
    "x_sign E t KeyUsageAuthRefresh p = Inr tok \<Longrightarrow> \<exists>c. x_decode_unverified E tok = Inr c"
    "issued_refresh E tok rc \<Longrightarrow> x_verify_refresh E t tok = Inr rc"
  using assms by (auto simp: reliable_def)

lemma sample_reliable: "reliable sample"
proof -
  have "\<exists>s. x_rand_read sample t n = Inr s" "0 < m \<Longrightarrow> \<exists>v. x_rand_int sample t m = Inr v"
    "\<exists>d. x_json_marshal sample str = Inr d \<and> x_json_unmarshal sample (Some d) = Inr str" for t n m str
    by (simp_all add: sample_def)
  moreover have "x_verify_refresh sample t tok = Inr c" if "issued_refresh sample tok c" for t tok c
    using that
    by (auto simp: issued_refresh_def sample_marshal_def sample_sign_def sample_decode_def
        sample_verify_refresh_def digits_value_show_nat)
  moreover have "\<exists>c. x_decode_unverified sample tok = Inr c" for tok
    by (simp add: sample_decode_def split: prod.split)
  ultimately show ?thesis
    by (simp add: reliable_def sample_ok sample_healthy sample_keys_available sample_idkey_def)
qed

lemma seq_tx_run: "f (w\<lparr>in_tx := True\<rparr>) = (r, v) \<Longrightarrow>
    seq_tx f w = (r, v\<lparr>in_tx := False, jobs := jobs w, db := (if returned r then db v else db w)\<rparr>)"
  by (simp add: seq_tx_def)

lemma seq_tx_Ret:
  assumes "fst (f (w\<lparr>in_tx := True\<rparr>)) = Ret a"
  obtains v where "seq_tx f w = (Ret a, v)"
  using assms by (cases "f (w\<lparr>in_tx := True\<rparr>)") (simp add: seq_tx_run)

lemma get_context_healthy: "healthy E \<Longrightarrow> get_context E w = (Ret (), w\<lparr>tick := Suc (tick w)\<rparr>)"
  by (simp add: healthy_def get_context_run)

lemma run_stmt_healthy: "healthy E \<Longrightarrow> run_stmt E q w =
    (case q (x_pg_now E (tick w)) (db w) of
       (Inl e, d) \<Rightarrow> (Fail e, w\<lparr>tick := Suc (tick w), db := d\<rparr>)
     | (Inr r, d) \<Rightarrow> (Ret r, w\<lparr>tick := Suc (tick w), db := d\<rparr>))"
  by (auto simp: healthy_def run_stmt_def Let_def split: prod.splits sum.splits)

lemma dao_query_healthy:
  assumes "healthy E"
  shows "dao_query E q c w = (case q (x_pg_now E (Suc (tick w))) (db w) of
      (Inl e, d) \<Rightarrow> (Fail (Wrap ''execute query'' (c e)), w\<lparr>tick := Suc (Suc (tick w)), db := d\<rparr>)
    | (Inr [], d) \<Rightarrow> (Fail (Wrap ''execute query'' (c (Sentinel ErrNoRows))), w\<lparr>tick := Suc (Suc (tick w)), db := d\<rparr>)
    | (Inr (r # rs), d) \<Rightarrow> (Ret r, w\<lparr>tick := Suc (Suc (tick w)), db := d\<rparr>))"
  by (auto simp: dao_query_def query_one_def run_stmt_healthy [OF assms] get_context_healthy [OF assms]
      prog_simps scan_one_def split: prod.splits sum.splits list.splits)

lemma select_healthy:
  assumes "healthy E"
  shows "by_id i (credentials (db w)) = Some r \<Longrightarrow>
      dao_CredentialsSelect E i w = (Ret r, w\<lparr>tick := Suc (Suc (tick w))\<rparr>)"
    and "by_id i (credentials (db w)) = None \<Longrightarrow> \<exists>e. sentinels_of e = {ErrNoRows, ErrCredentialsSelectNotFound} \<and>
      dao_CredentialsSelect E i w = (Fail e, w\<lparr>tick := Suc (Suc (tick w))\<rparr>)"
  by (auto simp: select_read read_query_def dao_query_healthy [OF assms] by_id_def find_filter split: list.splits)

lemma select_email_healthy:
  assumes "healthy E"
  shows "by_email m (credentials (db w)) = Some r \<Longrightarrow>
      dao_CredentialsSelectByEmail E m w = (Ret r, w\<lparr>tick := Suc (Suc (tick w))\<rparr>)"
    and "by_email m (credentials (db w)) = None \<Longrightarrow>
      \<exists>e. sentinels_of e = {ErrNoRows, ErrCredentialsSelectByEmailNotFound} \<and>
      dao_CredentialsSelectByEmail E m w = (Fail e, w\<lparr>tick := Suc (Suc (tick w))\<rparr>)"
  by (auto simp: select_email_read read_query_def dao_query_healthy [OF assms] by_email_def find_filter
      split: list.splits)

lemma insert_healthy:
  assumes "healthy E" "insert_row (new_row rq) (credentials (db w)) = Inr rs"
  shows "dao_CredentialsInsert E rq w = (Ret (new_row rq), w\<lparr>tick := Suc (Suc (tick w)), db := (db w)\<lparr>credentials := rs\<rparr>\<rparr>)"
  using assms(2)
  by (simp add: dao_CredentialsInsert_def dao_query_healthy [OF assms(1)] sql_credentialsInsert_def Let_def
      new_row_def)

lemma update_healthy:
  assumes "healthy E" "\<And>r. c_id (f r) = c_id r" "by_id i (credentials (db w)) = Some old"
    "update_table i f (credentials (db w)) = Inr rs"
  shows "dao_query E (sql_update i f) c w = (Ret (f old), w\<lparr>tick := Suc (Suc (tick w)), db := (db w)\<lparr>credentials := rs\<rparr>\<rparr>)"
proof -
  have "find (\<lambda>r. c_id r = i) (credentials (db w)) = Some old" using assms(3) by (simp add: by_id_def)
  then obtain tail where "filter (\<lambda>r. c_id r = i) (credentials (db w)) = old # tail"
    by (auto simp: find_filter split: list.splits)
  then show ?thesis
    by (simp add: dao_query_healthy [OF assms(1)] sql_update_rows [OF assms(2)] assms(4))
qed

text \<open>Changes that keep the address and the role checks of a row are never refused.\<close>

lemma update_accepted:
  assumes "accounts_ok d" "\<And>r. c_id (f r) = c_id r" "\<And>r. c_email (f r) = c_email r"
    "\<And>r. row_checks r \<Longrightarrow> row_checks (f r)"
  shows "update_table i f (credentials d) = Inr (update_row i f (credentials d))"
proof -
  have "map c_email (update_row i f (credentials d)) = map c_email (credentials d)"
    by (simp add: update_row_def assms(3))
  then show ?thesis
    using assms(1,4) by (simp add: update_table_Inr accounts_ok_def credentials_ok_def)
qed


lemma update_present:
  assumes u: "update_table i f (credentials d) = Inr rs" and f: "\<And>r. c_id (f r) = c_id r"
    and old: "by_id i (credentials d) = Some old"
  shows "account_updated i f d (d\<lparr>credentials := rs\<rparr>)"
  unfolding account_updated_def
  using old accounts.update_lookup [of f i "credentials d" rs, OF f u] f u accounts.update_invar [OF _ f u]
  by (auto simp: accounts_ok_def)

section \<open>Roles\<close>

text \<open>What an update of a role comes to, as a function of the request and the table.\<close>

definition role_decision :: "CoreUpdateRoleRequest \<Rightarrow> dao_credentials list \<Rightarrow> sentinel + dao_credentials" where
  "role_decision rq cs =
     (if cur_Role rq \<notin> set role_check_list then Inl ErrInvalidRequest
      else if cur_CurrentUserID rq = cur_TargetUserID rq then Inl ErrCredentialsUpdateRoleSelfUpdate
      else case (by_id (cur_TargetUserID rq) cs, by_id (cur_CurrentUserID rq) cs) of
        (Some target, Some actor) \<Rightarrow>
          if rank (c_role target) \<le> rank (cur_Role rq) \<and> rank (c_role actor) < rank (cur_Role rq)
          then Inl ErrCredentialsUpdateRoleToHigher
          else if rank (cur_Role rq) \<le> rank (c_role target) \<and> rank (c_role actor) \<le> rank (c_role target)
          then Inl ErrCredentialsUpdateRoleDowngradeSuperior
          else Inr target
      | _ \<Rightarrow> Inl ErrCredentialsSelectNotFound)"

definition refused_with :: "'a io \<Rightarrow> sentinel \<Rightarrow> world \<Rightarrow> bool" where
  "refused_with m s w \<longleftrightarrow> (\<exists>e w'. m w = (Fail e, w') \<and> errors_is e s \<and> db w' = db w \<and> jobs w' = jobs w)"

lemma stored_roles: "accounts_ok d \<Longrightarrow> by_id i (credentials d) = Some r \<Longrightarrow> c_role r \<in> set role_check_list"
  by (simp add: accounts_ok_def credentials_ok_def row_checks_def by_id_Some)

lemma role_struct: "validator_contract E \<Longrightarrow>
    struct_valid E [(FStr role, [Required, TagRole])] \<longleftrightarrow> role \<in> set role_check_list"
  by (auto simp: tag_simps contract_tags role_check_list_def)

lemma update_role_run:
  assumes "healthy E" "validator_contract E" "accounts_ok (db w)"
  shows "case role_decision rq (credentials (db w)) of
      Inl s \<Rightarrow> refused_with (core_CredentialsUpdateRole E rq) s w
    | Inr target \<Rightarrow> \<exists>now w'. db w' = (if c_role target = cur_Role rq then db w
          else (db w)\<lparr>credentials := update_row (cur_TargetUserID rq) (set_role (cur_Role rq) now) (credentials (db w))\<rparr>) \<and>
        core_CredentialsUpdateRole E rq w = (Ret (to_Credentials
          (if c_role target = cur_Role rq then target else set_role (cur_Role rq) now target)), w') \<and>
        jobs w' = jobs w"
proof (cases "cur_Role rq \<in> set role_check_list \<and> cur_CurrentUserID rq \<noteq> cur_TargetUserID rq")
  case False
  then show ?thesis
    using role_struct [OF assms(2), of "cur_Role rq"]
    by (auto simp: role_decision_def refused_with_def core_CredentialsUpdateRole_def prog_simps validate_run
        errors_is_sentinels)
next
  case True
  note valid = True [THEN conjunct1] and other = True [THEN conjunct2]
  have v: "validate E [(FStr (cur_Role rq), [Required, TagRole])] u = (Ret (), u)" for u :: world
    using role_struct [OF assms(2)] valid by (simp add: validate_run)
  have p: "Priority PermissionsConfigDefault (cur_Role rq) = Ret (rank (cur_Role rq))"
    by (rule Priority_rank [OF valid])
  show ?thesis
  proof (cases "by_id (cur_TargetUserID rq) (credentials (db w))")
    case None
    then obtain e where "sentinels_of e = {ErrNoRows, ErrCredentialsSelectNotFound}"
      "dao_CredentialsSelect E (cur_TargetUserID rq) w = (Fail e, w\<lparr>tick := Suc (Suc (tick w))\<rparr>)"
      using select_healthy(2) [OF assms(1)] by blast
    then show ?thesis using None valid other
      by (simp add: role_decision_def refused_with_def update_role_split prog_simps v p errors_is_sentinels)
  next
    case target: (Some target)
    let ?w = "w\<lparr>tick := Suc (Suc (tick w))\<rparr>"
    note t = select_healthy(1) [OF assms(1) target]
    show ?thesis
    proof (cases "by_id (cur_CurrentUserID rq) (credentials (db w))")
      case None
      then have "by_id (cur_CurrentUserID rq) (credentials (db ?w)) = None" by simp
      then obtain e where "sentinels_of e = {ErrNoRows, ErrCredentialsSelectNotFound}"
        "dao_CredentialsSelect E (cur_CurrentUserID rq) ?w = (Fail e, ?w\<lparr>tick := Suc (Suc (tick ?w))\<rparr>)"
        using select_healthy(2) [OF assms(1)] by blast
      then show ?thesis using None target t valid other
        by (simp add: role_decision_def refused_with_def update_role_split prog_simps v p errors_is_sentinels)
    next
      case actor: (Some actor)
      then have "by_id (cur_CurrentUserID rq) (credentials (db ?w)) = Some actor" by simp
      note a = select_healthy(1) [OF assms(1) this]
      let ?v = "?w\<lparr>tick := Suc (Suc (tick ?w))\<rparr>"
      let ?n = "rank (cur_Role rq)" and ?t = "rank (c_role target)" and ?c = "rank (c_role actor)"
      have ranks: "Priority PermissionsConfigDefault (c_role target) = Ret ?t"
        "Priority PermissionsConfigDefault (c_role actor) = Ret ?c"
        using Priority_rank stored_roles [OF assms(3) target] stored_roles [OF assms(3) actor] by blast+
      have run: "core_CredentialsUpdateRole E rq w = role_finish E rq ?n target actor ?v"
        using other by (simp add: update_role_split prog_simps v p t a)
      have same: "c_role target = cur_Role rq \<longleftrightarrow> ?n = ?t"
        using rank_injective stored_roles [OF assms(3) target] valid by metis
      show ?thesis
      proof (cases "role_guards rq ?n ?t ?c = Ret ()")
        case False
        then obtain s e where "role_guards rq ?n ?t ?c = Fail e" "errors_is e s"
          "role_decision rq (credentials (db w)) = Inl s"
          using target actor valid other by (auto simp: role_guards_def role_decision_def split: if_splits)
        then show ?thesis
          by (simp add: refused_with_def run role_finish_def prog_simps ranks)
      next
        case guard: True
        then have dec: "role_decision rq (credentials (db w)) = Inr target"
          using target actor valid other by (auto simp: role_decision_def role_guards_def split: if_splits)
        have "update_table (cur_TargetUserID rq) (set_role (cur_Role rq) now) (credentials (db w)) =
            Inr (update_row (cur_TargetUserID rq) (set_role (cur_Role rq) now) (credentials (db w)))" for now
          using valid by (intro update_accepted [OF assms(3)]) (simp_all add: row_checks_def)
        then have upd: "dao_CredentialsUpdateRole E \<lparr>ur_ID = cur_TargetUserID rq, ur_Role = cur_Role rq, ur_Now = now\<rparr> u =
            (Ret (set_role (cur_Role rq) now target), u\<lparr>tick := Suc (Suc (tick u)), db := (db u)\<lparr>credentials :=
               update_row (cur_TargetUserID rq) (set_role (cur_Role rq) now) (credentials (db w))\<rparr>\<rparr>)"
          if "db u = db w" for now u
          unfolding dao_updates using that target by (intro update_healthy [OF assms(1)]) simp_all
        show ?thesis
        proof (cases "?n = ?t")
          case True
          then have e: "cur_Role rq = c_role target" using same by simp
          show ?thesis using dec guard
            by (simp add: run role_finish_def prog_simps ranks e)
        next
          case False
          then have "c_role target \<noteq> cur_Role rq" using same by simp
          then show ?thesis using dec False
            by (simp add: run role_finish_def prog_simps ranks guard upd) blast
        qed
      qed
    qed
  qed
qed

section \<open>Hashes and codes\<close>

lemma generate_run:
  assumes "reliable E"
  obtains enc w' where "io_GenerateArgon2 E pw w = (Ret enc, w')" "generated_hash E pw enc"
    "db w' = db w" "in_tx w' = in_tx w" "jobs w' = jobs w"
proof -
  obtain salt where s: "x_rand_read E (tick w) (SaltLength Argon2ParamsDefault) = Inr salt"
    using reliableD(6) [OF assms] by blast
  have "1 \<le> x_num_cpu E" using environment_okD(5) [OF reliableD(1) [OF assms]] by (simp add: password_contract_def)
  then have lanes: "0 < resolve_parallelism (x_num_cpu E) (Parallelism Argon2ParamsDefault)"
    using resolve_parallelism_bounds(1) by (simp add: word_less_nat_alt)
  have "0 < Iterations Argon2ParamsDefault" by (simp add: Argon2ParamsDefault_def)
  then obtain hash where "x_idkey E pw salt (Iterations Argon2ParamsDefault) (Memory Argon2ParamsDefault)
      (resolve_parallelism (x_num_cpu E) (Parallelism Argon2ParamsDefault)) (KeyLength Argon2ParamsDefault) = Some hash"
    using reliableD(9) [OF assms] lanes by blast
  with s have "\<exists>enc. fst (io_GenerateArgon2 E pw w) = Ret enc"
    by (simp add: io_GenerateArgon2_def Let_def GenerateArgon2_def)
  then obtain enc w' where "io_GenerateArgon2 E pw w = (Ret enc, w')" by (metis prod.collapse)
  with io_generated [OF this] io_Generate_Ret [OF this] that show thesis by blast
qed

lemma random_run:
  assumes "reliable E" "0 \<le> n"
  obtains s w' where "NewRandomURLString E n w = (Ret s, w')" "db w' = db w" "in_tx w' = in_tx w" "jobs w' = jobs w"
proof -
  have "drawn E (tick w) k \<noteq> None" for k
    using reliableD(7) [OF assms(1), of urlCharListLen "tick w + k"] url_alphabet_facts(3)
    by (auto simp: drawn_def)
  then have "NewRandomURLString E n w =
    (Ret (map (\<lambda>k. URLCharList ! nat (the (drawn E (tick w) k))) [0..<nat n]), w\<lparr>tick := tick w + nat n\<rparr>)"
    using assms(2) random_chars_Ret [OF environment_okD(4) [OF reliableD(1) [OF assms(1)]]]
    by (simp add: NewRandomURLString_def)
  with that show thesis by simp
qed

text \<open>An insertion that overrides is refused only for an identifier already in the table.\<close>

lemma code_insert_run:
  assumes "reliable E" "\<not> in_tx w" "si_Override rq" "si_ID rq \<notin> s_id ` set (short_codes (db w))"
  shows "fst (dao_ShortCodeInsert E rq w) = Ret (new_code rq)"
proof -
  note h = reliableD(2) [OF assms(1)]
  have "si_ID rq \<notin> set (map s_id (short_codes (db w)))" using assms(4) by simp
  then have ins: "insert_code (new_code rq) (cleared rq now (short_codes (db w))) =
      Inr (cleared rq now (short_codes (db w)) @ [new_code rq])" for now
    by (intro cleared_override [OF assms(3)]) simp
  have "fst (short_code_insert_body E rq (w\<lparr>in_tx := True\<rparr>)) = Ret (new_code rq)"
    using ins
    by (simp add: short_code_insert_body_def assms(3) discardConflicts_def prog_simps get_context_healthy [OF h]
        run_stmt_healthy [OF h] sql_discardConflict_def query_one_def sql_shortCodeInsert_def Let_def scan_one_def
        new_code_def cleared_def supersede_codes_def)
  then show ?thesis
    using assms(2) by (auto simp: dao_ShortCodeInsert_def reliableD(5) [OF assms(1)] seq_tx_def prog_simps split: prod.splits)
qed

lemma marshalled:
  assumes "reliable E"
  obtains d where "(case data of None \<Rightarrow> ret None
          | Some d \<Rightarrow> lift (map_outcome_ret (\<lambda>s. Ret (Some s)) (go_result (x_json_marshal E d)))) w = (Ret d, w)"
  using that reliableD(8) [OF assms]
  by (cases data) (simp, metis go_result.simps(2) map_outcome_ret.simps(1) lift_run option.case(2))

lemma create_run:
  assumes "reliable E" "\<not> in_tx w" "struct_valid E (create_struct rq)" "scc_Override rq" "0 \<le> Size cfg"
    "\<And>t. x_uuid_new E t \<notin> s_id ` set (short_codes (db w))"
  obtains sc w' where "core_ShortCodeCreate E cfg rq w = (Ret sc, w')"
proof -
  obtain plain w1 where r: "NewRandomURLString E (Size cfg) w = (Ret plain, w1)" "db w1 = db w" "in_tx w1 = in_tx w"
    by (rule random_run [OF assms(1,5)])
  obtain enc w2 where g: "io_GenerateArgon2 E plain w1 = (Ret enc, w2)" "db w2 = db w1" "in_tx w2 = in_tx w1"
    by (rule generate_run [OF assms(1)])
  obtain d where d: "(case scc_Data rq of None \<Rightarrow> ret None
          | Some d \<Rightarrow> lift (map_outcome_ret (\<lambda>s. Ret (Some s)) (go_result (x_json_marshal E d)))) w2 = (Ret d, w2)"
    by (rule marshalled [OF assms(1)])
  let ?w3 = "w2\<lparr>tick := Suc (Suc (tick w2))\<rparr>"
  let ?irq = "\<lparr>si_ID = x_uuid_new E (Suc (tick w2)), si_Code = enc, si_Usage = scc_Usage rq, si_Target = scc_Target rq,
      si_Data = d, si_Now = x_now E (tick w2), si_ExpiresAt = x_now E (tick w2) + scc_TTL rq, si_Override = scc_Override rq\<rparr>"
  have "fst (dao_ShortCodeInsert E ?irq ?w3) = Ret (new_code ?irq)"
    by (intro code_insert_run [OF assms(1)]) (use assms(2,4,6) r g in simp_all)
  then obtain w4 where i: "dao_ShortCodeInsert E ?irq ?w3 = (Ret (new_code ?irq), w4)" by (metis prod.collapse)
  have "core_ShortCodeCreate E cfg rq w = (Ret (to_ShortCode (new_code ?irq) plain), w4)"
    using assms(3) r(1) g(1) d i
    by (simp add: core_ShortCodeCreate_def prog_simps validate_run)
  then show thesis by (rule that)
qed

text \<open>A comparison against a generated hash ends with a verdict, and so does the dummy one.\<close>

lemma compare_verdict:
  assumes "reliable E" "generated_hash E pw enc"
  shows "CompareArgon2 (x_idkey E) (x_argon_version E) pw' enc \<in> {Ret (), Fail (Sentinel ErrInvalidPassword)}"
proof -
  have pc: "idkey_contract (x_idkey E)" "x_argon_version E < 2 ^ 63" "1 \<le> x_num_cpu E"
    using environment_okD(5) [OF reliableD(1) [OF assms(1)]] by (simp_all add: password_contract_def)
  obtain rs where g: "GenerateArgon2 (x_idkey E) (x_argon_version E) (x_num_cpu E) rs pw Argon2ParamsDefault = Ret enc"
    using assms(2) by (auto simp: generated_hash_def)
  have lanes: "0 < resolve_parallelism (x_num_cpu E) (Parallelism Argon2ParamsDefault)"
    using resolve_parallelism_bounds(1) [OF pc(3)] by (simp add: word_less_nat_alt)
  have "0 < Iterations Argon2ParamsDefault" by (simp add: Argon2ParamsDefault_def)
  note total = reliableD(9) [OF assms(1) this lanes]
  show ?thesis using compare_generated [OF pc(1,2) g, of pw'] total by (fastforce split: option.splits)
qed

lemma dummy_run:
  assumes "reliable E"
  obtains w' where "DummyCompareArgon2 E pw w = (Ret (), w')" "db w' = db w" "in_tx w' = in_tx w" "jobs w' = jobs w"
proof -
  have pc: "1 \<le> x_num_cpu E" "\<exists>s. x_init_salt E (SaltLength Argon2ParamsDefault) = Inr s"
    using environment_okD(5) [OF reliableD(1) [OF assms]] by (auto simp: password_contract_def)
  have lanes: "0 < resolve_parallelism (x_num_cpu E) (Parallelism Argon2ParamsDefault)"
    using resolve_parallelism_bounds(1) [OF pc(1)] by (simp add: word_less_nat_alt)
  have "0 < Iterations Argon2ParamsDefault" by (simp add: Argon2ParamsDefault_def)
  note total = reliableD(9) [OF assms this lanes]
  obtain s where s: "x_init_salt E (SaltLength Argon2ParamsDefault) = Inr s" using pc(2) ..
  obtain k where "x_idkey E ''not-a-real-password'' s (Iterations Argon2ParamsDefault) (Memory Argon2ParamsDefault)
      (resolve_parallelism (x_num_cpu E) (Parallelism Argon2ParamsDefault)) (KeyLength Argon2ParamsDefault) = Some k"
    using total by blast
  with s have "\<exists>h. dummy_hash E = Ret h"
    by (simp add: dummy_hash_def dummyArgon2Hash_def GenerateArgon2_def)
  then obtain h where h: "dummy_hash E = Ret h" ..
  have "CompareArgon2 (x_idkey E) (x_argon_version E) pw h \<in> {Ret (), Fail (Sentinel ErrInvalidPassword)}"
    by (rule compare_verdict [OF assms dummy_generated [OF h]])
  then have "\<exists>w'. DummyCompareArgon2 E pw w = (Ret (), w')"
    using h by (auto simp: DummyCompareArgon2_def io_CompareArgon2_def prog_simps)
  then obtain w' where "DummyCompareArgon2 E pw w = (Ret (), w')" ..
  with dummy_db [of E pw w] that show thesis by simp
qed

section \<open>Redeeming\<close>

text \<open>Without an active code for the pair, whatever the clock says, redeeming is refused.\<close>

lemma consume_absent:
  assumes "reliable E" "struct_valid E (consume_struct rq)"
    "\<And>now. find_active (sco_Target rq, sco_Usage rq) now (short_codes (db w)) = None"
  shows "refused_with (core_ShortCodeConsume E rq) ErrShortCodeSelectNotFound w"
proof (cases rule: select_code_cases [of E "\<lparr>ss_Usage = sco_Usage rq, ss_Target = sco_Target rq\<rparr>" w])
  case (infra e w')
  then show ?thesis using reliableD(2) [OF assms(1)] by simp
next
  case (missing now e w')
  obtain v where d: "DummyCompareArgon2 E (sco_Code rq) w' = (Ret (), v)" "db v = db w'" "jobs v = jobs w'"
    by (rule dummy_run [OF assms(1)])
  have j: "jobs w' = jobs w" using framesD [OF frames_codes(1) missing(1)] by (simp add: frame_def)
  have e: "errors_is e ErrShortCodeSelectNotFound" using missing(2) by (simp add: errors_is_sentinels)
  have "core_ShortCodeConsume E rq w = (Fail e, v)"
    using missing(1) d(1) e assms(2) by (simp add: core_ShortCodeConsume_def prog_simps validate_run)
  then show ?thesis using e missing(4) d j by (simp add: refused_with_def)
next
  case (found now r w')
  then show ?thesis using assms(3) by simp
qed

text \<open>With an active code that matches, redeeming gives the code and retires it.\<close>

lemma consume_run:
  assumes "reliable E" "struct_valid E (consume_struct rq)" "short_codes_ok (db w)"
    and "\<And>t. find_active (sco_Target rq, sco_Usage rq) (x_pg_now E t) (short_codes (db w)) = Some row"
    and "\<And>t. x_now E t \<le> s_expires_at row"
    and "CompareArgon2 (x_idkey E) (x_argon_version E) (sco_Code rq) (s_code row) = Ret ()"
  obtains w' where "core_ShortCodeConsume E rq w = (Ret (to_ShortCode row (sco_Code rq)), w')"
    "credentials (db w') = credentials (db w)" "short_codes_ok (db w')" "in_tx w' = in_tx w" "jobs w' = jobs w"
    "\<And>now. find_active (sco_Target rq, sco_Usage rq) now (short_codes (db w')) = None"
proof -
  have "fst (core_ShortCodeConsume E rq w) = Ret (to_ShortCode row (sco_Code rq))"
    using assms(4) by (intro consume_healthy [OF reliableD(2) [OF assms(1)] assms(2,3) _ assms(5,6)]) auto
  then obtain w' where c: "core_ShortCodeConsume E rq w = (Ret (to_ShortCode row (sco_Code rq)), w')"
    by (metis prod.collapse)
  have "in_tx w' = in_tx w" using keepsD [OF keeps_flags(1) [where P = "\<lambda>b. b = in_tx w"], of w E rq] c by simp
  moreover have "jobs w' = jobs w"
    using keepsD [OF consume_keeps_jobs [where js = "jobs w" and P = "\<lambda>_. True"], of w E rq] c by simp
  ultimately show thesis using that [OF c] consume_spent [OF c assms(3)] by blast
qed

section \<open>Signing in\<close>

lemma sign_run:
  assumes "reliable E"
  obtains tok w' where "signTokenPair E row w = (Ret tok, w')"
proof -
  note k = reliableD(3) [OF assms, unfolded keys_available_def]
  obtain p where p: "x_marshal_any E (RefreshPayload \<lparr>FormUserID = c_id row\<rparr>) = Inr p" using k by blast
  obtain rt where rt: "x_sign E (tick w) KeyUsageAuthRefresh p = Inr rt" using k by blast
  obtain c where c: "x_decode_unverified E rt = Inr c" using reliableD(10) [OF assms rt] by blast
  obtain q where q: "x_marshal_any E (AccessPayload \<lparr>UserID = Some (c_id row), Roles = [c_role row],
      RefreshTokenID = Jti c\<rparr>) = Inr q" using k by blast
  obtain a where a: "x_sign E (Suc (tick w)) KeyUsageAuth q = Inr a" using k by blast
  show thesis
    by (rule that) (simp add: signTokenPair_def marshal_any_def claims_sign_def prog_simps ask_err_run p rt c q a)
qed

lemma keys_contract: "reliable E \<Longrightarrow> json_keys_contract E"
  by (simp add: environment_okD(6) reliableD(1))

lemma sign_in_run:
  assumes "reliable E" "struct_valid E (token_create_struct rq)"
    "by_email (tc_Email rq) (credentials (db w)) = Some row" "generated_hash E (tc_Password rq) (c_password row)"
  obtains tok w' where "core_TokenCreate E rq w = (Ret tok, w')" "bound_pair E tok (c_id row) (c_role row)"
    "db w' = db w"
proof -
  note s = select_email_healthy(1) [OF reliableD(2) [OF assms(1)] assms(3)]
  note c = own_password_accepted [OF environment_okD(5) [OF reliableD(1) [OF assms(1)]] assms(4)]
  let ?v = "w\<lparr>tick := Suc (Suc (tick w)), work := work w @ [derivation (resolved_params E)]\<rparr>"
  obtain tok w' where t: "signTokenPair E row ?v = (Ret tok, w')" by (rule sign_run [OF assms(1)])
  have "core_TokenCreate E rq w = (Ret tok, w')"
    using assms(2) by (simp add: core_TokenCreate_def prog_simps validate_run s c t)
  then show thesis using signTokenPair_Ret [OF keys_contract [OF assms(1)] t] that by simp
qed

lemma sign_in_unknown:
  assumes "reliable E" "struct_valid E (token_create_struct rq)"
    "by_email (tc_Email rq) (credentials (db w)) = None"
  shows "\<exists>e w'. core_TokenCreate E rq w = (Fail e, w') \<and> db w' = db w \<and>
    sentinels_of e = {ErrNoRows, ErrCredentialsSelectByEmailNotFound} \<and>
    work w' = work w @ [derivation (resolved_params E)]"
proof -
  obtain e where e: "sentinels_of e = {ErrNoRows, ErrCredentialsSelectByEmailNotFound}"
    "dao_CredentialsSelectByEmail E (tc_Email rq) w = (Fail e, w\<lparr>tick := Suc (Suc (tick w))\<rparr>)"
    using select_email_healthy(2) [OF reliableD(2) [OF assms(1)] assms(3)] by blast
  let ?v = "w\<lparr>tick := Suc (Suc (tick w))\<rparr>"
  obtain w' where d: "DummyCompareArgon2 E (tc_Password rq) ?v = (Ret (), w')" "db w' = db ?v"
    by (rule dummy_run [OF assms(1)])
  have "\<exists>h. dummy_hash E = Ret h"
    using d(1) by (auto simp: DummyCompareArgon2_def split: outcome.splits)
  then have "work w' = work w @ [derivation (resolved_params E)]"
    using dummy_work(1) [OF environment_okD(5) [OF reliableD(1) [OF assms(1)]] _ d(1)] by auto
  moreover have "core_TokenCreate E rq w = (Fail e, w')"
    using assms(2) e d(1) by (simp add: core_TokenCreate_def prog_simps validate_run errors_is_sentinels)
  ultimately show ?thesis using e(1) d(2) by simp
qed

lemma sign_in_wrong:
  assumes "reliable E" "struct_valid E (token_create_struct rq)"
    "by_email (tc_Email rq) (credentials (db w)) = Some row" "generated_hash E pw (c_password row)"
    "CompareArgon2 (x_idkey E) (x_argon_version E) (tc_Password rq) (c_password row) \<noteq> Ret ()"
  shows "\<exists>e w'. core_TokenCreate E rq w = (Fail e, w') \<and> db w' = db w \<and> sentinels_of e = {ErrInvalidPassword} \<and>
    work w' = work w @ [derivation (resolved_params E)]"
proof -
  note s = select_email_healthy(1) [OF reliableD(2) [OF assms(1)] assms(3)]
  have "CompareArgon2 (x_idkey E) (x_argon_version E) (tc_Password rq) (c_password row) =
      Fail (Sentinel ErrInvalidPassword)"
    using compare_verdict [OF assms(1,4)] assms(5) by blast
  then show ?thesis
    using assms(2) generated_work [OF environment_okD(5) [OF reliableD(1) [OF assms(1)]] assms(4)]
    by (simp add: core_TokenCreate_def prog_simps validate_run s io_CompareArgon2_def)
qed

lemma refresh_run:
  assumes "reliable E" "struct_valid E (token_refresh_struct rq)"
    "bound_pair E \<lparr>AccessToken = tr_AccessToken rq, RefreshToken = tr_RefreshToken rq\<rparr> uid role"
    "by_id uid (credentials (db w)) = Some row"
  obtains tok w' where "core_TokenRefresh E rq w = (Ret tok, w')" "bound_pair E tok uid (c_role row)"
    "RefreshToken tok = tr_RefreshToken rq" "db w' = db w"
proof -
  obtain jti where b: "issued_refresh E (tr_RefreshToken rq) \<lparr>Jti = jti, RefreshUserID = uid\<rparr>"
    "issued_access E (tr_AccessToken rq) \<lparr>UserID = Some uid, Roles = [role], RefreshTokenID = jti\<rparr>"
    using assms(3) by (auto simp: bound_pair_def)
  note k = reliableD(3) [OF assms(1), unfolded keys_available_def]
  have va: "x_verify_access E t True (tr_AccessToken rq) =
      Inr \<lparr>UserID = Some uid, Roles = [role], RefreshTokenID = jti\<rparr>" for t
    using k b(2) by blast
  have vr: "x_verify_refresh E t (tr_RefreshToken rq) = Inr \<lparr>Jti = jti, RefreshUserID = uid\<rparr>" for t
    by (rule reliableD(11) [OF assms(1) b(1)])
  let ?w = "w\<lparr>tick := Suc (Suc (tick w))\<rparr>"
  have "by_id uid (credentials (db ?w)) = Some row" using assms(4) by simp
  note s = select_healthy(1) [OF reliableD(2) [OF assms(1)] this]
  obtain p where p: "x_marshal_any E (AccessPayload \<lparr>UserID = Some uid, Roles = [c_role row], RefreshTokenID = jti\<rparr>) = Inr p"
    using k by blast
  obtain a where a: "x_sign E (Suc (Suc (Suc (Suc (tick w))))) KeyUsageAuth p = Inr a" using k by blast
  have run: "core_TokenRefresh E rq w = (Ret \<lparr>AccessToken = a, RefreshToken = tr_RefreshToken rq\<rparr>,
      w\<lparr>tick := Suc (Suc (Suc (Suc (Suc (tick w)))))\<rparr>)"
    using assms(2) s
    by (simp add: core_TokenRefresh_def prog_simps validate_run ask_verify_def va vr from_ptr_def marshal_any_def
        claims_sign_def ask_err_run p a)
  have "bound_pair E \<lparr>AccessToken = a, RefreshToken = tr_RefreshToken rq\<rparr> uid (c_role row)"
    using b(1) p a by (auto simp: bound_pair_def issued_access_def)
  then show thesis using that [OF run] by simp
qed

section \<open>Registering\<close>

lemma register_code_struct:
  assumes "validator_contract E" "struct_valid E (credentials_create_struct rq)"
  shows "struct_valid E (consume_struct
    \<lparr>sco_Usage = ShortCodeUsageRegister, sco_Target = cc_Email rq, sco_Code = cc_ShortCode rq\<rparr>)"
  using assms(2)
  by (simp add: credentials_create_struct_def consume_struct_def tag_simps contract_tags [OF assms(1)]
      unknown_usage usage_names)

text \<open>With an active code that matches, an unused address and fresh identifiers, registering succeeds.\<close>

lemma registering_run:
  assumes "reliable E" "\<not> in_tx w" "service_ok (db w)" "struct_valid E (credentials_create_struct rq)"
    and "\<And>t. find_active (cc_Email rq, ShortCodeUsageRegister) (x_pg_now E t) (short_codes (db w)) = Some row"
    and "\<And>t. x_now E t \<le> s_expires_at row"
    and "CompareArgon2 (x_idkey E) (x_argon_version E) (cc_ShortCode rq) (s_code row) = Ret ()"
    and "by_email (cc_Email rq) (credentials (db w)) = None"
    and "\<And>t. x_uuid_new E t \<notin> c_id ` set (credentials (db w))"
  obtains tok w' where "core_CredentialsCreate E rq w = (Ret tok, w')"
proof -
  have v: "validator_contract E" by (simp add: environment_okD(3) reliableD(1) assms(1))
  obtain enc w1 where g: "io_GenerateArgon2 E (cc_Password rq) w = (Ret enc, w1)" "db w1 = db w" "in_tx w1 = in_tx w"
    by (rule generate_run [OF assms(1)])
  let ?w1 = "w1\<lparr>in_tx := True\<rparr>"
  let ?crq = "\<lparr>sco_Usage = ShortCodeUsageRegister, sco_Target = cc_Email rq, sco_Code = cc_ShortCode rq\<rparr>"
  obtain w2 where c: "core_ShortCodeConsume E ?crq ?w1 = (Ret (to_ShortCode row (cc_ShortCode rq)), w2)"
      "credentials (db w2) = credentials (db w)"
  proof (rule consume_run [OF assms(1) register_code_struct [OF v assms(4)], of ?w1 row])
  qed (use assms(3,5-7) g service_okD(2) in simp_all)
  let ?irq = "\<lparr>ci_ID = x_uuid_new E (tick w2), ci_Email = cc_Email rq, ci_Password = enc, ci_Role = RoleUser,
      ci_Now = x_now E (Suc (tick w2))\<rparr>"
  let ?w3 = "w2\<lparr>tick := Suc (Suc (tick w2))\<rparr>"
  have email: "cc_Email rq \<noteq> ''''"
    using assms(4) by (simp add: credentials_create_struct_def contract_tags [OF v])
  have "insert_row (new_row ?irq) (credentials (db ?w3)) = Inr (credentials (db ?w3) @ [new_row ?irq])"
    using email assms(8,9) c(2)
    by (simp add: insert_row_Inr new_row_def row_checks_def role_check_list_def role_names by_email_None)
  note i = insert_healthy [OF reliableD(2) [OF assms(1)] this]
  have r: "fst (register_tx E rq enc ?w1) = Ret (new_row ?irq)"
    by (simp add: register_tx_def prog_simps c(1) i)
  obtain w4 where "x_within_tx E (register_tx E rq enc) w1 = (Ret (new_row ?irq), w4)"
    unfolding reliableD(4) [OF assms(1)] using r by (rule seq_tx_Ret)
  moreover obtain tok w5 where "signTokenPair E (new_row ?irq) w4 = (Ret tok, w5)"
    by (rule sign_run [OF assms(1)])
  ultimately have "core_CredentialsCreate E rq w = (Ret tok, w5)"
    using assms(4) g(1) by (simp add: core_CredentialsCreate_def prog_simps validate_run)
  then show thesis by (rule that)
qed


section \<open>Passwords\<close>

text \<open>Changing a password with the current one, which is accepted when it is the one that was hashed.\<close>

lemma password_run:
  assumes "reliable E" "\<not> in_tx w" "accounts_ok (db w)" "struct_valid E (update_password_struct rq)"
    "cup_ShortCode rq = ''''" "cup_CurrentPassword rq \<noteq> ''''"
    "by_id (cup_UserID rq) (credentials (db w)) = Some row"
    "generated_hash E (cup_CurrentPassword rq) (c_password row)"
  obtains enc now w' where "core_CredentialsUpdatePassword E rq w = (Ret (to_Credentials (set_password enc now row)), w')"
    "generated_hash E (cup_Password rq) enc"
    "db w' = (db w)\<lparr>credentials := update_row (cup_UserID rq) (set_password enc now) (credentials (db w))\<rparr>"
proof -
  note h = reliableD(2) [OF assms(1)]
  obtain enc w1 where g: "io_GenerateArgon2 E (cup_Password rq) w = (Ret enc, w1)"
    "generated_hash E (cup_Password rq) enc" "db w1 = db w" "in_tx w1 = in_tx w"
    by (rule generate_run [OF assms(1)])
  let ?w1 = "w1\<lparr>in_tx := True\<rparr>"
  have "by_id (cup_UserID rq) (credentials (db ?w1)) = Some row" using assms(7) g(3) by simp
  note s = select_healthy(1) [OF h this]
  note c = own_password_accepted [OF environment_okD(5) [OF reliableD(1) [OF assms(1)]] assms(8)]
  let ?v = "w1\<lparr>tick := Suc (Suc (tick w1)), in_tx := True, work := work w1 @ [derivation (resolved_params E)]\<rparr>"
  let ?now = "x_now E (tick ?v)"
  let ?cs = "update_row (cup_UserID rq) (set_password enc ?now) (credentials (db w))"
  let ?u = "?v\<lparr>tick := Suc (tick ?v)\<rparr>"
  have "update_table (cup_UserID rq) (set_password enc ?now) (credentials (db ?u)) = Inr ?cs"
    using update_accepted [OF assms(3), of "set_password enc ?now" "cup_UserID rq"] g(3)
    by (simp add: row_checks_def)
  moreover have "by_id (cup_UserID rq) (credentials (db ?u)) = Some row" using assms(7) g(3) by simp
  ultimately have u: "dao_CredentialsUpdatePassword E \<lparr>up_ID = cup_UserID rq, up_Password = enc, up_Now = ?now\<rparr> ?u =
      (Ret (set_password enc ?now row), ?u\<lparr>tick := Suc (Suc (tick ?u)), db := (db ?u)\<lparr>credentials := ?cs\<rparr>\<rparr>)"
    unfolding dao_updates by (intro update_healthy [OF h]) simp_all
  have t: "update_password_tx E rq enc ?w1 =
      (Ret (set_password enc ?now row), ?u\<lparr>tick := Suc (Suc (tick ?u)), db := (db ?u)\<lparr>credentials := ?cs\<rparr>\<rparr>)"
    using assms(5,6) s c u
    by (simp add: update_password_tx_def password_proof_def prog_simps)
  obtain w' where "x_within_tx E (update_password_tx E rq enc) w1 = (Ret (set_password enc ?now row), w')"
      "db w' = (db w)\<lparr>credentials := ?cs\<rparr>"
    using seq_tx_run [of "update_password_tx E rq enc" w1, OF t] g(3)
    by (simp add: reliableD(4) [OF assms(1)])
  moreover from this(1) have
    "core_CredentialsUpdatePassword E rq w = (Ret (to_Credentials (set_password enc ?now row)), w')"
    using assms(4) g(1) by (simp add: core_CredentialsUpdatePassword_def prog_simps validate_run)
  ultimately show thesis using that g(2) by blast
qed

section \<open>Codes and mails\<close>

text \<open>After an issue the new code is the only one of its pair that is ever active.\<close>

lemma only_new:
  assumes "issued rq d d'" "short_codes_ok d"
    "find_active (si_Target rq, si_Usage rq) t (short_codes d') = Some r"
  shows "r = new_code rq"
proof -
  obtain clock rs where i: "insert_code (new_code rq) (cleared rq clock (short_codes d)) = Inr rs"
    and d': "d' = d\<lparr>short_codes := rs\<rparr>"
    using assms(1) by (auto simp: issued_def)
  have ok: "codes_ok (cleared rq clock (short_codes d))"
    using assms(2) by (simp add: short_codes_ok_def cleared_def codes.supersede_invar delete_where_ok)
  show ?thesis
    using codes.issue_find [OF ok _ i, of "(si_Target rq, si_Usage rq)" t] assms(3) d' by (auto split: if_splits)
qed

text \<open>An issued code can be redeemed: in any world with the tables the issue left.\<close>

lemma issued_redeemable:
  assumes "reliable E" "short_codes_ok (db w)" "\<not> in_tx w" "core_ShortCodeCreate E cfg rq w = (Ret sc, w1)"
    "short_codes (db v) = short_codes (db w1)"
    "\<And>t. x_pg_now E t < sc_ExpiresAt sc" "\<And>t. x_now E t \<le> sc_ExpiresAt sc"
    "struct_valid E (consume_struct \<lparr>sco_Usage = scc_Usage rq, sco_Target = scc_Target rq, sco_Code = sc_PlainCode sc\<rparr>)"
  obtains v' where "core_ShortCodeConsume E \<lparr>sco_Usage = scc_Usage rq, sco_Target = scc_Target rq,
        sco_Code = sc_PlainCode sc\<rparr> v = (Ret sc, v')"
    "credentials (db v') = credentials (db v)" "short_codes_ok (db v')"
    "\<And>now. find_active (scc_Target rq, scc_Usage rq) now (short_codes (db v')) = None"
proof -
  note env = environment_okD [OF reliableD(1) [OF assms(1)]]
  obtain i enc data now where cr:
    "sc = to_ShortCode (new_code (insert_request rq i enc data now)) (sc_PlainCode sc)"
    "generated_hash E (sc_PlainCode sc) enc" "issued (insert_request rq i enc data now) (db w) (db w1)"
    by (rule create_Ret [OF assms(4) env(2) assms(3) env(4)])
  let ?c = "new_code (insert_request rq i enc data now)"
  have ex: "sc_ExpiresAt sc = s_expires_at ?c"
    by (subst cr(1)) (simp add: to_ShortCode_def del: new_code_simps)
  have ok: "short_codes_ok (db v)"
    using issued_find(3) [OF cr(3) assms(2), of "pg_ts0 (now + scc_TTL rq) - 1"] assms(5) by (simp add: short_codes_ok_def)
  have act: "find_active (scc_Target rq, scc_Usage rq) (x_pg_now E t) (short_codes (db v)) = Some ?c" for t
    using issued_find(1) [OF cr(3) assms(2), of "x_pg_now E t"] assms(5) assms(6) [of t] ex by simp
  have cmp: "CompareArgon2 (x_idkey E) (x_argon_version E) (sc_PlainCode sc) (s_code ?c) = Ret ()"
    using own_password_accepted [OF env(5) cr(2)] by (simp add: io_CompareArgon2_def)
  let ?rq = "\<lparr>sco_Usage = scc_Usage rq, sco_Target = scc_Target rq, sco_Code = sc_PlainCode sc\<rparr>"
  obtain v' where "core_ShortCodeConsume E ?rq v = (Ret (to_ShortCode ?c (sco_Code ?rq)), v')"
    "credentials (db v') = credentials (db v)" "short_codes_ok (db v')"
    "\<And>now. find_active (sco_Target ?rq, sco_Usage ?rq) now (short_codes (db v')) = None"
    by (rule consume_run [OF assms(1,8) ok, of ?c]) (use act assms(7) ex cmp in simp_all)
  with cr(1) that show thesis by simp
qed

text \<open>The mails of a flow: one when it returns, none otherwise.\<close>

lemma deliver_jobs:
  assumes "tx_contract (x_within_tx_code E)" "\<not> in_tx w" "deliver E cfg rq mail w = (r, w')"
  shows "jobs w' = jobs w @ (case r of Ret sc \<Rightarrow> [mail sc] | _ \<Rightarrow> [])"
proof -
  obtain r1 w1 where c: "core_ShortCodeCreate E cfg rq w = (r1, w1)" by (cases "core_ShortCodeCreate E cfg rq w")
  have "jobs w1 = jobs w" using keepsD [OF create_keeps_ok(4) [OF assms(1), where js = "jobs w" and cfg = cfg and rq = rq], of w] c assms(2) by simp
  then show ?thesis using assms(3) c by (cases r1) (auto simp: deliver_def prog_simps)
qed

lemma checked_deliver_jobs:
  assumes "tx_contract (x_within_tx_code E)" "\<not> in_tx w"
    "andThen (validate E fs) (\<lambda>_. andThen (exists_check E m) (\<lambda>ex. if ex then fail e else deliver E cfg rq mail)) w
       = (r, w')"
  shows "jobs w' = jobs w @ (case r of Ret sc \<Rightarrow> [mail sc] | _ \<Rightarrow> [])"
proof (cases "struct_valid E fs")
  case True
  show ?thesis
  proof (cases rule: exists_check_cases [of E m w])
    case (absent v)
    then have "deliver E cfg rq mail v = (r, w')" using assms(3) True by (simp add: prog_simps validate_run)
    from deliver_jobs [OF assms(1) _ this] absent(4) assms(2) show ?thesis by (simp add: frame_def)
  qed (use assms(3) True in \<open>auto simp: prog_simps validate_run frame_def\<close>)
next
  case False
  then show ?thesis using assms(3) by (auto simp: prog_simps validate_run)
qed

lemma flow_jobs:
  assumes "tx_contract (x_within_tx_code E)" "\<not> in_tx w"
  shows "core_ShortCodeCreateRegister E cfg urls rq w = (r, w') \<Longrightarrow>
      jobs w' = jobs w @ (case r of Ret sc \<Rightarrow> [mail_Register E cfg urls rq sc] | _ \<Rightarrow> [])"
    "core_ShortCodeCreateEmailUpdate E cfg urls eq w = (r, w') \<Longrightarrow>
      jobs w' = jobs w @ (case r of Ret sc \<Rightarrow> [mail_EmailUpdate E cfg urls eq sc] | _ \<Rightarrow> [])"
    "core_ShortCodeCreatePasswordReset E cfg urls pq w = (r, w') \<Longrightarrow>
      (case r of
         Ret sc \<Rightarrow> \<exists>row. by_email (scpr_Email pq) (credentials (db w)) = Some row \<and>
           jobs w' = jobs w @ [mail_PasswordReset E cfg urls pq (c_id row) sc]
       | _ \<Rightarrow> jobs w' = jobs w)"
proof -
  show "core_ShortCodeCreateRegister E cfg urls rq w = (r, w') \<Longrightarrow>
      jobs w' = jobs w @ (case r of Ret sc \<Rightarrow> [mail_Register E cfg urls rq sc] | _ \<Rightarrow> [])"
    unfolding flow_deliver by (rule checked_deliver_jobs [OF assms])
  show "core_ShortCodeCreateEmailUpdate E cfg urls eq w = (r, w') \<Longrightarrow>
      jobs w' = jobs w @ (case r of Ret sc \<Rightarrow> [mail_EmailUpdate E cfg urls eq sc] | _ \<Rightarrow> [])"
    unfolding flow_deliver by (rule checked_deliver_jobs [OF assms])
  assume f: "core_ShortCodeCreatePasswordReset E cfg urls pq w = (r, w')"
  show "case r of
         Ret sc \<Rightarrow> \<exists>row. by_email (scpr_Email pq) (credentials (db w)) = Some row \<and>
           jobs w' = jobs w @ [mail_PasswordReset E cfg urls pq (c_id row) sc]
       | _ \<Rightarrow> jobs w' = jobs w"
  proof (cases "struct_valid E (password_reset_struct pq)")
    case False
    then show ?thesis using f unfolding flow_deliver by (auto simp: prog_simps validate_run)
  next
    case True
    have j: "frame w v" if "dao_CredentialsSelectByEmail E (scpr_Email pq) w = (q, v)" for q v
      using framesD [OF frames_accounts(4) that] .
    show ?thesis
    proof (cases rule: select_email_cases [of E "scpr_Email pq" w])
      case (found row v)
      note fr = j [OF found(1)]
      obtain rq where "deliver E cfg rq (mail_PasswordReset E cfg urls pq (c_id row)) v = (r, w')"
        using f True found(1) unfolding flow_deliver by (auto simp: prog_simps validate_run)
      from deliver_jobs [OF assms(1) _ this] fr assms(2) found(2) show ?thesis
        by (cases r) (auto simp: frame_def)
    next
      case (infra e v)
      have "jobs v = jobs w" using j [OF infra(1)] by (simp add: frame_def)
      moreover have "r = Fail (Wrap ''check email existence'' e) \<and> w' = v"
        using f True infra(1) unfolding flow_deliver by (simp add: prog_simps validate_run)
      ultimately show ?thesis by simp
    next
      case (missing e v)
      have "jobs v = jobs w" using j [OF missing(1)] by (simp add: frame_def)
      moreover have "r = Fail (Wrap ''check email existence'' e) \<and> w' = v"
        using f True missing(1) unfolding flow_deliver by (simp add: prog_simps validate_run)
      ultimately show ?thesis by simp
    qed
  qed
qed

lemma accept_run:
  "svc w = (Ret sc, w') \<Longrightarrow> accept_silently H s svc w = (Ret accepted, w')"
  "svc w = (Fail e, w') \<Longrightarrow> errors_is e s \<Longrightarrow> accept_silently H s svc w = (Ret accepted, w')"
  by (simp_all add: accept_silently_def prog_simps)

lemma deliver_run:
  assumes "reliable E" "\<not> in_tx w" "struct_valid E (create_struct rq)" "scc_Override rq" "0 \<le> Size cfg"
    "\<And>t. x_uuid_new E t \<notin> s_id ` set (short_codes (db w))"
  obtains sc w' where "deliver E cfg rq mail w = (Ret sc, w')" "jobs w' = jobs w @ [mail sc]"
    "credentials (db w') = credentials (db w)"
proof -
  note tx = environment_okD(2) [OF reliableD(1) [OF assms(1)]]
  obtain sc w1 where c: "core_ShortCodeCreate E cfg rq w = (Ret sc, w1)"
    by (rule create_run [OF assms])
  then have d: "deliver E cfg rq mail w = (Ret sc, w1\<lparr>jobs := jobs w1 @ [mail sc]\<rparr>)"
    by (simp add: deliver_def prog_simps)
  have "credentials (db w1) = credentials (db w)"
    using keepsD [OF create_keeps_ok(2) [OF tx, where cs = "credentials (db w)" and cfg = cfg and rq = rq], of w] c assms(2)
    by simp
  with deliver_jobs [OF tx assms(2) d] show thesis by (intro that [OF d]) simp_all
qed

lemma register_flow_silent:
  assumes "reliable E" "\<not> in_tx w" "0 \<le> Size cfg" "usage_ttl cfg ShortCodeUsageRegister \<noteq> 0"
    "\<And>t. x_uuid_new E t \<notin> s_id ` set (short_codes (db w))" "struct_valid E (register_struct rq)"
  obtains w' sc where "(if by_email (scr_Email rq) (credentials (db w)) = None
       then core_ShortCodeCreateRegister E cfg urls rq w = (Ret sc, w')
       else \<exists>e. core_ShortCodeCreateRegister E cfg urls rq w = (Fail e, w') \<and> errors_is e ErrCredentialsInsertAlreadyExists)"
    "credentials (db w') = credentials (db w)"
    "jobs w' = jobs w @ (if by_email (scr_Email rq) (credentials (db w)) = None then [mail_Register E cfg urls rq sc] else [])"
proof (cases rule: exists_check_cases [of E "scr_Email rq" w])
  case (infra e v)
  then show thesis using reliableD(2) [OF assms(1)] by blast
next
  case (absent v)
  have v: "validator_contract E" by (simp add: environment_okD(3) reliableD(1) assms(1))
  let ?rq = "\<lparr>scc_Usage = ShortCodeUsageRegister, scc_Target = scr_Email rq, scc_Data = None,
         scc_TTL = usage_ttl cfg ShortCodeUsageRegister, scc_Override = True\<rparr>"
  have st: "struct_valid E (create_struct ?rq)"
    using assms(4,6) by (simp add: create_struct_def register_struct_def contract_tags [OF v] tag_simps
      unknown_usage usage_names)
  have v': "\<not> in_tx v" "\<And>t. x_uuid_new E t \<notin> s_id ` set (short_codes (db v))"
    using absent assms(2,5) by (simp_all add: frame_def)
  obtain sc w' where d: "deliver E cfg ?rq (mail_Register E cfg urls rq) v = (Ret sc, w')"
    "jobs w' = jobs v @ [mail_Register E cfg urls rq sc]" "credentials (db w') = credentials (db v)"
    by (rule deliver_run [OF assms(1) v'(1) st _ assms(3) v'(2), where mail = "mail_Register E cfg urls rq"]) simp_all
  have "core_ShortCodeCreateRegister E cfg urls rq w = (Ret sc, w')"
    using absent(1) d(1) assms(6) unfolding flow_deliver by (simp add: prog_simps validate_run)
  then show thesis using absent d(2,3) by (intro that [of sc w']) (simp_all add: frame_def)
next
  case (present r v)
  then have "core_ShortCodeCreateRegister E cfg urls rq w = (Fail (Sentinel ErrCredentialsInsertAlreadyExists), v)"
    using assms(6) unfolding flow_deliver by (simp add: prog_simps validate_run)
  then show thesis using present by (intro that [of undefined v]) (simp_all add: frame_def)
qed

lemma reset_flow_silent:
  assumes "reliable E" "\<not> in_tx w" "0 \<le> Size cfg" "usage_ttl cfg ShortCodeUsageResetPassword \<noteq> 0"
    "\<And>t. x_uuid_new E t \<notin> s_id ` set (short_codes (db w))" "struct_valid E (password_reset_struct rq)"
    "\<And>i. x_uuid_string E i \<noteq> '''' \<and> rune_count (x_uuid_string E i) \<le> 1024"
  obtains w' sc where "(if by_email (scpr_Email rq) (credentials (db w)) \<noteq> None
       then core_ShortCodeCreatePasswordReset E cfg urls rq w = (Ret sc, w')
       else \<exists>e. core_ShortCodeCreatePasswordReset E cfg urls rq w = (Fail e, w') \<and>
         errors_is e ErrCredentialsSelectByEmailNotFound)"
    "credentials (db w') = credentials (db w)"
    "jobs w' = jobs w @ (case by_email (scpr_Email rq) (credentials (db w)) of None \<Rightarrow> []
       | Some row \<Rightarrow> [mail_PasswordReset E cfg urls rq (c_id row) sc])"
proof (cases "by_email (scpr_Email rq) (credentials (db w))")
  case None
  then obtain e where e: "sentinels_of e = {ErrNoRows, ErrCredentialsSelectByEmailNotFound}"
    "dao_CredentialsSelectByEmail E (scpr_Email rq) w = (Fail e, w\<lparr>tick := Suc (Suc (tick w))\<rparr>)"
    using select_email_healthy(2) [OF reliableD(2) [OF assms(1)]] by blast
  then have "core_ShortCodeCreatePasswordReset E cfg urls rq w =
      (Fail (Wrap ''check email existence'' e), w\<lparr>tick := Suc (Suc (tick w))\<rparr>)"
    using assms(6) unfolding flow_deliver by (simp add: prog_simps validate_run)
  then show thesis using None e(1)
    by (intro that [of undefined "w\<lparr>tick := Suc (Suc (tick w))\<rparr>"]) (simp_all add: errors_is_sentinels)
next
  case (Some row)
  have v: "validator_contract E" by (simp add: environment_okD(3) reliableD(1) assms(1))
  let ?v = "w\<lparr>tick := Suc (Suc (tick w))\<rparr>"
  let ?rq = "\<lparr>scc_Usage = ShortCodeUsageResetPassword, scc_Target = x_uuid_string E (c_id row), scc_Data = None,
         scc_TTL = usage_ttl cfg ShortCodeUsageResetPassword, scc_Override = True\<rparr>"
  have st: "struct_valid E (create_struct ?rq)"
    using assms(4,7) by (simp add: create_struct_def contract_tags [OF v] tag_simps unknown_usage usage_names)
  have v': "\<not> in_tx ?v" "\<And>t. x_uuid_new E t \<notin> s_id ` set (short_codes (db ?v))"
    using assms(2,5) by simp_all
  obtain sc w' where d: "deliver E cfg ?rq (mail_PasswordReset E cfg urls rq (c_id row)) ?v = (Ret sc, w')"
    "jobs w' = jobs ?v @ [mail_PasswordReset E cfg urls rq (c_id row) sc]" "credentials (db w') = credentials (db ?v)"
    by (rule deliver_run [OF assms(1) v'(1) st _ assms(3) v'(2),
          where mail = "mail_PasswordReset E cfg urls rq (c_id row)"]) simp_all
  have "core_ShortCodeCreatePasswordReset E cfg urls rq w = (Ret sc, w')"
    using select_email_healthy(1) [OF reliableD(2) [OF assms(1)] Some] d(1) assms(6)
    unfolding flow_deliver by (simp add: prog_simps validate_run)
  then show thesis using Some d(2,3) by (intro that [of sc w']) simp_all
qed

lemma email_flow_run:
  assumes "reliable E" "\<not> in_tx w" "0 \<le> Size cfg" "usage_ttl cfg ShortCodeUsageValidateEmail \<noteq> 0"
    "\<And>t. x_uuid_new E t \<notin> s_id ` set (short_codes (db w))" "struct_valid E (email_update_struct rq)"
    "x_uuid_string E (sceu_ID rq) \<noteq> ''''" "rune_count (x_uuid_string E (sceu_ID rq)) \<le> 1024"
    "by_email (sceu_Email rq) (credentials (db w)) = None"
  obtains w' sc where "core_ShortCodeCreateEmailUpdate E cfg urls rq w = (Ret sc, w')"
proof (cases rule: exists_check_cases [of E "sceu_Email rq" w])
  case (infra e v)
  then show thesis using reliableD(2) [OF assms(1)] by blast
next
  case (absent v)
  have v: "validator_contract E" by (simp add: environment_okD(3) reliableD(1) assms(1))
  let ?rq = "\<lparr>scc_Usage = ShortCodeUsageValidateEmail, scc_Target = x_uuid_string E (sceu_ID rq),
    scc_Data = Some (sceu_Email rq), scc_TTL = usage_ttl cfg ShortCodeUsageValidateEmail, scc_Override = True\<rparr>"
  have st: "struct_valid E (create_struct ?rq)"
    using assms(4,7,8) by (simp add: create_struct_def contract_tags [OF v] tag_simps unknown_usage usage_names)
  have v': "\<not> in_tx v" "\<And>t. x_uuid_new E t \<notin> s_id ` set (short_codes (db v))"
    using absent assms(2,5) by (simp_all add: frame_def)
  obtain sc w' where "deliver E cfg ?rq (mail_EmailUpdate E cfg urls rq) v = (Ret sc, w')"
    by (rule deliver_run [OF assms(1) v'(1) st _ assms(3) v'(2), where mail = "mail_EmailUpdate E cfg urls rq"]) simp_all
  then have "core_ShortCodeCreateEmailUpdate E cfg urls rq w = (Ret sc, w')"
    using absent(1) assms(6) unfolding flow_deliver by (simp add: prog_simps validate_run)
  then show thesis by (rule that)
next
  case (present r v)
  then show thesis using assms(9) by (simp add: frame_def)
qed

text \<open>The code the registration flow mails opens an account: in the world the flow left, before it expires.\<close>

lemma mailed_code_registers:
  assumes "reliable E" "service_ok (db w)" "\<not> in_tx w"
    "core_ShortCodeCreateRegister E cfg urls \<lparr>scr_Email = email, scr_Lang = lang\<rparr> w = (Ret sc, w1)"
    "\<forall>t. x_pg_now E t < sc_ExpiresAt sc" "\<forall>t. x_now E t \<le> sc_ExpiresAt sc"
    "\<forall>t. x_uuid_new E t \<notin> c_id ` set (credentials (db w))"
    "struct_valid E (credentials_create_struct
       \<lparr>cc_Email = email, cc_Password = password, cc_ShortCode = sc_PlainCode sc\<rparr>)"
  obtains tok w2 row where "core_CredentialsCreate E
      \<lparr>cc_Email = email, cc_Password = password, cc_ShortCode = sc_PlainCode sc\<rparr> w1 = (Ret tok, w2)"
    "registered E \<lparr>cc_Email = email, cc_Password = password, cc_ShortCode = sc_PlainCode sc\<rparr> (db w1) row (db w2)"
    "bound_pair E tok (c_id row) RoleUser" "by_email email (credentials (db w2)) = Some row"
    "service_ok (db w1)" "\<not> in_tx w1"
proof -
  note env = environment_okD [OF reliableD(1) [OF assms(1)]]
  let ?rq = "\<lparr>cc_Email = email, cc_Password = password, cc_ShortCode = sc_PlainCode sc\<rparr>"
  let ?crq = "\<lparr>scc_Usage = ShortCodeUsageRegister, scc_Target = email, scc_Data = None,
        scc_TTL = usage_ttl cfg ShortCodeUsageRegister, scc_Override = True\<rparr>"
  obtain v1 v2 where f: "by_email email (credentials (db w)) = None" "db v1 = db w" "frame w v1"
    "core_ShortCodeCreate E cfg ?crq v1 = (Ret sc, v2)"
    "w1 = v2\<lparr>jobs := jobs v2 @ [mail_Register E cfg urls \<lparr>scr_Email = email, scr_Lang = lang\<rparr> sc]\<rparr>"
    using register_Ret [OF assms(4)] by (metis ShortCodeCreateRegisterRequest.select_convs(1))
  have tx1: "\<not> in_tx v1" using f(3) assms(3) by (simp add: frame_def)
  obtain i enc data now where cr:
    "sc = to_ShortCode (new_code (insert_request ?crq i enc data now)) (sc_PlainCode sc)"
    "generated_hash E (sc_PlainCode sc) enc" "issued (insert_request ?crq i enc data now) (db v1) (db v2)" "\<not> in_tx v2"
    by (rule create_Ret [OF f(4) env(2) tx1 env(4)])
  let ?c = "new_code (insert_request ?crq i enc data now)"
  have ex: "sc_ExpiresAt sc = s_expires_at ?c"
    by (subst cr(1)) (simp add: to_ShortCode_def del: new_code_simps)
  have codes: "short_codes_ok (db v1)" using service_okD(2) [OF assms(2)] f(2) by simp
  have act: "find_active (email, ShortCodeUsageRegister) (x_pg_now E t) (short_codes (db v2)) = Some ?c" for t
    using issued_find(1) [OF cr(3) codes, of "x_pg_now E t"] assms(5) ex by simp
  have cs: "credentials (db v2) = credentials (db w)"
    using issued_find(4) [OF cr(3) codes, of "x_pg_now E 0"] assms(5) ex f(2) by simp
  have ok: "service_ok (db w1)"
    using issued_find(3) [OF cr(3) codes, of "x_pg_now E 0"] assms(2,5) ex cs f(5)
    by (simp add: service_ok_def accounts_ok_def)
  have cmp: "CompareArgon2 (x_idkey E) (x_argon_version E) (sc_PlainCode sc) (s_code ?c) = Ret ()"
    using own_password_accepted [OF env(5) cr(2)] by (simp add: io_CompareArgon2_def)
  obtain tok w2 where c: "core_CredentialsCreate E ?rq w1 = (Ret tok, w2)"
    by (rule registering_run [OF assms(1) _ ok assms(8), of ?c])
      (use act assms(6,7) ex cmp cs cr(4) f(1,5) in simp_all)
  have tx: "\<not> in_tx w1" "short_codes_ok (db w1)" using cr(4) f(5) service_okD(2) [OF ok] by simp_all
  from account_create_result(2) [OF c env(1) tx refl] obtain row v where
    row: "registered E ?rq (db w1) row (db w2)" and sign: "signTokenPair E row v = (Ret tok, w2)" by blast
  have m: "by_email email (credentials (db w2)) = Some row"
    using row service_okD(1) [OF ok] accounts.insert_lookup_name [of "credentials (db w1)" row "credentials (db w2)" email]
    by (simp add: registered_def accounts_ok_def)
  have "c_role row = RoleUser" using row by (simp add: registered_def)
  then show thesis
    using that [OF c row _ m ok tx(1)] signTokenPair_Ret(1) [OF env(6) sign] by simp
qed

section \<open>Changing an address\<close>

lemma distinct_emails_updated:
  assumes "distinct (map c_id rs)" "distinct (map c_email rs)" "email \<notin> set (map c_email rs)"
  shows "distinct (map c_email (update_row i (set_email email now) rs))"
  using assms unfolding update_row_def by (induction rs) (auto simp: image_iff)

text \<open>An active validation code whose payload is an unused address changes the address.\<close>

lemma email_run:
  assumes "reliable E" "\<not> in_tx w" "service_ok (db w)"
    "struct_valid E [(FStr (cue_ShortCode rq), [Required, Max 1024])]"
    "struct_valid E (consume_struct \<lparr>sco_Usage = ShortCodeUsageValidateEmail,
        sco_Target = x_uuid_string E (cue_UserID rq), sco_Code = cue_ShortCode rq\<rparr>)"
    and "\<And>t. find_active (x_uuid_string E (cue_UserID rq), ShortCodeUsageValidateEmail) (x_pg_now E t)
          (short_codes (db w)) = Some code"
    and "\<And>t. x_now E t \<le> s_expires_at code"
    and "CompareArgon2 (x_idkey E) (x_argon_version E) (cue_ShortCode rq) (s_code code) = Ret ()"
    and "x_json_unmarshal E (s_data code) = Inr email" "email \<noteq> ''''"
    and "by_id (cue_UserID rq) (credentials (db w)) = Some old" "by_email email (credentials (db w)) = None"
  obtains now w' where "core_CredentialsUpdateEmail E rq w = (Ret (to_Credentials (set_email email now old)), w')"
    "credentials (db w') = update_row (cue_UserID rq) (set_email email now) (credentials (db w))"
proof -
  note h = reliableD(2) [OF assms(1)]
  let ?w = "w\<lparr>in_tx := True\<rparr>"
  let ?crq = "\<lparr>sco_Usage = ShortCodeUsageValidateEmail, sco_Target = x_uuid_string E (cue_UserID rq),
      sco_Code = cue_ShortCode rq\<rparr>"
  obtain w2 where c: "core_ShortCodeConsume E ?crq ?w = (Ret (to_ShortCode code (cue_ShortCode rq)), w2)"
      "credentials (db w2) = credentials (db w)"
  proof (rule consume_run [OF assms(1,5), of ?w code])
  qed (use assms(3,6-8) service_okD(2) in simp_all)
  let ?now = "x_now E (tick w2)"
  let ?w3 = "w2\<lparr>tick := Suc (tick w2)\<rparr>"
  let ?cs = "update_row (cue_UserID rq) (set_email email ?now) (credentials (db w))"
  have ok: "accounts_ok (db w)" by (rule service_okD(1) [OF assms(3)])
  have rows: "set ?cs = (\<lambda>r. if c_id r = cue_UserID rq then set_email email ?now r else r) ` set (credentials (db w))"
    by (simp add: update_row_def)
  have "distinct (map c_email ?cs)"
    using ok assms(12) by (intro distinct_emails_updated)
      (simp_all add: accounts_ok_def credentials_ok_def by_email_None)
  then have "update_table (cue_UserID rq) (set_email email ?now) (credentials (db ?w3)) = Inr ?cs"
    using ok assms(10) c(2)
    by (auto simp: update_table_Inr accounts_ok_def credentials_ok_def row_checks_def)
  moreover have "by_id (cue_UserID rq) (credentials (db ?w3)) = Some old" using assms(11) c(2) by simp
  ultimately have u: "dao_CredentialsUpdateEmail E \<lparr>ue_ID = cue_UserID rq, ue_Email = email, ue_Now = ?now\<rparr> ?w3 =
      (Ret (set_email email ?now old), ?w3\<lparr>tick := Suc (Suc (tick ?w3)), db := (db ?w3)\<lparr>credentials := ?cs\<rparr>\<rparr>)"
    unfolding dao_updates by (intro update_healthy [OF h]) simp_all
  have t: "update_email_tx E rq ?w =
      (Ret (set_email email ?now old), ?w3\<lparr>tick := Suc (Suc (tick ?w3)), db := (db ?w3)\<lparr>credentials := ?cs\<rparr>\<rparr>)"
    using c(1) assms(9) u by (simp add: update_email_tx_def prog_simps to_ShortCode_def)
  obtain w' where "x_within_tx E (update_email_tx E rq) w = (Ret (set_email email ?now old), w')"
      "credentials (db w') = ?cs"
    using seq_tx_run [of "update_email_tx E rq" w, OF t] by (simp add: reliableD(4) [OF assms(1)])
  moreover from this(1) have "core_CredentialsUpdateEmail E rq w = (Ret (to_Credentials (set_email email ?now old)), w')"
    using assms(4) by (simp add: core_CredentialsUpdateEmail_def prog_simps validate_run)
  ultimately show thesis using that by blast
qed

end
