(* ===== verification/ErrorAnswers.thy ===== *)
theory ErrorAnswers
  imports Availability
begin

text \<open>
  What a client is answered when a service fails for a reason that the error map of its endpoint does not
  list: the runs of the services that fail so while nothing else breaks, and the status of each handler. The
  accidents are a code that expires between the select and the check of a redemption, an account that is gone
  when its password changes, and a code that lost to another one.
\<close>

section \<open>Services that fail\<close>

lemma seq_tx_Fail: "f (w\<lparr>in_tx := True\<rparr>) = (Fail e, v) \<Longrightarrow>
    seq_tx f w = (Fail e, v\<lparr>in_tx := False, jobs := jobs w, db := db w\<rparr>)"
  by (simp add: seq_tx_run returned_def)

text \<open>A code that the select of a redemption started at tick \<open>t\<close> finds active and that has expired when the
  service reads its clock next.\<close>

definition expires_meanwhile :: "ext \<Rightarrow> nat \<Rightarrow> dao_short_code list \<Rightarrow> string \<Rightarrow> string \<Rightarrow> bool" where
  "expires_meanwhile E t rs target usage \<longleftrightarrow>
     (\<exists>row. find_active (target, usage) (x_pg_now E (Suc t)) rs = Some row \<and> s_expires_at row < x_now E (Suc (Suc t)))"

lemma consume_expired:
  assumes "healthy E" "struct_valid E (consume_struct rq)"
    "expires_meanwhile E (tick w) (short_codes (db w)) (sco_Target rq) (sco_Usage rq)"
  obtains w' where "core_ShortCodeConsume E rq w = (Fail (Sentinel ErrShortCodeConsumeExpired), w')"
proof -
  obtain row where row: "find_active (sco_Target rq, sco_Usage rq) (x_pg_now E (Suc (tick w))) (short_codes (db w)) = Some row"
    "s_expires_at row < x_now E (Suc (Suc (tick w)))" using assms(3) by (auto simp: expires_meanwhile_def)
  obtain rs where "filter (\<lambda>r. pair_of r = (sco_Target rq, sco_Usage rq) \<and>
      active_at (x_pg_now E (Suc (tick w))) r) (short_codes (db w)) = row # rs"
    using row(1) by (auto simp: find_code_filter split: list.splits)
  then have "dao_ShortCodeSelect E \<lparr>ss_Usage = sco_Usage rq, ss_Target = sco_Target rq\<rparr> w =
      (Ret row, w\<lparr>tick := Suc (Suc (tick w))\<rparr>)"
    by (simp add: dao_ShortCodeSelect_def dao_query_healthy [OF assms(1)] sql_shortCodeSelect_def)
  then show thesis using that assms(2) row(2) by (simp add: core_ShortCodeConsume_def prog_simps validate_run)
qed

lemma generate_tick: "io_GenerateArgon2 E pw w = (r, w') \<Longrightarrow> tick w' = Suc (tick w)"
  by (auto simp: io_GenerateArgon2_def Let_def)

text \<open>Registration hashes the password before it redeems the code, which takes one tick.\<close>

lemma register_expired:
  assumes "reliable E" "struct_valid E (credentials_create_struct rq)"
    "expires_meanwhile E (Suc (tick w)) (short_codes (db w)) (cc_Email rq) ShortCodeUsageRegister"
  obtains e w' where "core_CredentialsCreate E rq w = (Fail e, w')" "sentinels_of e = {ErrShortCodeConsumeExpired}"
    "db w' = db w"
proof -
  have v: "validator_contract E" by (simp add: environment_okD(3) reliableD(1) assms(1))
  obtain enc w1 where g: "io_GenerateArgon2 E (cc_Password rq) w = (Ret enc, w1)" "db w1 = db w"
    by (rule generate_run [OF assms(1)])
  let ?crq = "\<lparr>sco_Usage = ShortCodeUsageRegister, sco_Target = cc_Email rq, sco_Code = cc_ShortCode rq\<rparr>"
  obtain w2 where "core_ShortCodeConsume E ?crq (w1\<lparr>in_tx := True\<rparr>) = (Fail (Sentinel ErrShortCodeConsumeExpired), w2)"
    by (rule consume_expired [OF reliableD(2) [OF assms(1)] register_code_struct [OF v assms(2)], of "w1\<lparr>in_tx := True\<rparr>"])
      (use assms(3) g(2) generate_tick [OF g(1)] in simp_all)
  then have "register_tx E rq enc (w1\<lparr>in_tx := True\<rparr>) =
      (Fail (Wrap ''consume short code'' (Sentinel ErrShortCodeConsumeExpired)), w2)"
    by (simp add: register_tx_def prog_simps)
  note seq_tx_Fail [of "register_tx E rq enc" w1, OF this]
  then show thesis
    using that assms(2) g by (simp add: core_CredentialsCreate_def prog_simps validate_run reliableD(4) [OF assms(1)])
qed

lemma email_expired:
  assumes "reliable E" "struct_valid E [(FStr (cue_ShortCode rq), [Required, Max 1024])]"
    "struct_valid E (consume_struct \<lparr>sco_Usage = ShortCodeUsageValidateEmail,
       sco_Target = x_uuid_string E (cue_UserID rq), sco_Code = cue_ShortCode rq\<rparr>)"
    "expires_meanwhile E (tick w) (short_codes (db w)) (x_uuid_string E (cue_UserID rq)) ShortCodeUsageValidateEmail"
  obtains e w' where "core_CredentialsUpdateEmail E rq w = (Fail e, w')" "sentinels_of e = {ErrShortCodeConsumeExpired}"
    "db w' = db w"
proof -
  let ?crq = "\<lparr>sco_Usage = ShortCodeUsageValidateEmail, sco_Target = x_uuid_string E (cue_UserID rq), sco_Code = cue_ShortCode rq\<rparr>"
  obtain w2 where "core_ShortCodeConsume E ?crq (w\<lparr>in_tx := True\<rparr>) = (Fail (Sentinel ErrShortCodeConsumeExpired), w2)"
    by (rule consume_expired [OF reliableD(2) [OF assms(1)] assms(3), of "w\<lparr>in_tx := True\<rparr>"])
      (use assms(4) in simp_all)
  then have "update_email_tx E rq (w\<lparr>in_tx := True\<rparr>) =
      (Fail (Wrap ''consume short code'' (Sentinel ErrShortCodeConsumeExpired)), w2)"
    by (simp add: update_email_tx_def prog_simps)
  note seq_tx_Fail [of "update_email_tx E rq" w, OF this]
  then show thesis
    using that assms(2) by (simp add: core_CredentialsUpdateEmail_def prog_simps validate_run reliableD(4) [OF assms(1)])
qed

text \<open>A change of password whose proof fails: for an account that does not exist, with an expired code. The new
  password is hashed first.\<close>

lemma password_fails:
  assumes "reliable E" "struct_valid E (update_password_struct rq)"
    "\<And>v. db v = db w \<Longrightarrow> tick v = Suc (tick w) \<Longrightarrow> \<exists>e v'. password_proof E rq v = (Fail e, v') \<and> sentinels_of e = S"
  obtains e w' where "core_CredentialsUpdatePassword E rq w = (Fail e, w')" "sentinels_of e = S" "db w' = db w"
proof -
  obtain enc w1 where g: "io_GenerateArgon2 E (cup_Password rq) w = (Ret enc, w1)" "db w1 = db w"
    by (rule generate_run [OF assms(1)])
  obtain e w2 where p: "password_proof E rq (w1\<lparr>in_tx := True\<rparr>) = (Fail e, w2)" "sentinels_of e = S"
    using assms(3) [of "w1\<lparr>in_tx := True\<rparr>"] g(2) generate_tick [OF g(1)] by auto
  then have "update_password_tx E rq enc (w1\<lparr>in_tx := True\<rparr>) = (Fail e, w2)"
    by (simp add: update_password_tx_def prog_simps)
  note seq_tx_Fail [of "update_password_tx E rq enc" w1, OF this]
  then show thesis
    using that assms(2) g p(2)
    by (simp add: core_CredentialsUpdatePassword_def prog_simps validate_run reliableD(4) [OF assms(1)])
qed

lemma unknown_proof:
  assumes "reliable E" "cup_ShortCode rq = ''''" "cup_CurrentPassword rq \<noteq> ''''"
    "by_id (cup_UserID rq) (credentials (db v)) = None"
  shows "\<exists>e v'. password_proof E rq v = (Fail e, v') \<and> sentinels_of e = {ErrNoRows, ErrCredentialsSelectNotFound}"
  using select_healthy(2) [OF reliableD(2) [OF assms(1)] assms(4)] assms(2,3)
  by (auto simp: password_proof_def prog_simps)

lemma expired_proof:
  assumes "reliable E" "cup_ShortCode rq \<noteq> ''''"
    "struct_valid E (consume_struct \<lparr>sco_Usage = ShortCodeUsageResetPassword,
       sco_Target = x_uuid_string E (cup_UserID rq), sco_Code = cup_ShortCode rq\<rparr>)"
    "expires_meanwhile E (tick v) (short_codes (db v)) (x_uuid_string E (cup_UserID rq)) ShortCodeUsageResetPassword"
  shows "\<exists>e v'. password_proof E rq v = (Fail e, v') \<and> sentinels_of e = {ErrShortCodeConsumeExpired}"
proof -
  obtain v' where "core_ShortCodeConsume E \<lparr>sco_Usage = ShortCodeUsageResetPassword,
      sco_Target = x_uuid_string E (cup_UserID rq), sco_Code = cup_ShortCode rq\<rparr> v =
      (Fail (Sentinel ErrShortCodeConsumeExpired), v')"
    by (rule consume_expired [OF reliableD(2) [OF assms(1)] assms(3), of v]) (use assms(4) in simp_all)
  then show ?thesis using assms(2) by (simp add: password_proof_def prog_simps)
qed

section \<open>The answers\<close>

lemma unknown_password_answer:
  assumes "reliable E" "status_contract H" "by_id (from_ptr (UserID c)) (credentials (db w)) = None"
    "hup_CurrentPassword rq \<noteq> ''''" "struct_valid E (update_password_struct \<lparr>cup_Password = hup_Password rq,
       cup_CurrentPassword = hup_CurrentPassword rq, cup_ShortCode = '''', cup_UserID = from_ptr (UserID c)\<rparr>)"
  shows "fst (rest_CredentialsUpdatePassword E H (Inr rq) (SomeClaims c) w) = Ret (Reply 500 ErrorBody)"
proof -
  obtain e w' where f: "core_CredentialsUpdatePassword E \<lparr>cup_Password = hup_Password rq,
      cup_CurrentPassword = hup_CurrentPassword rq, cup_ShortCode = '''', cup_UserID = from_ptr (UserID c)\<rparr> w = (Fail e, w')"
    "sentinels_of e = {ErrNoRows, ErrCredentialsSelectNotFound}"
    by (rule password_fails [OF assms(1,5), of w, OF unknown_proof [OF assms(1)]]) (use assms(3,4) in simp_all)
  have "h_status H update_password_map e = 500"
    by (rule status_miss [OF assms(2)]) (auto simp: update_password_map_def f(2))
  then show ?thesis
    using f(1) by (simp add: rest_CredentialsUpdatePassword_def with_request_def with_claims_def
        MustGetClaimsContext_def GetClaimsContext_def respond_run error_reply_def)
qed

lemma register_expired_answer:
  assumes "reliable E" "status_contract H"
    "expires_meanwhile E (Suc (tick w)) (short_codes (db w)) (hcc_Email rq) ShortCodeUsageRegister"
    "struct_valid E (credentials_create_struct \<lparr>cc_Email = hcc_Email rq, cc_Password = hcc_Password rq,
       cc_ShortCode = hcc_ShortCode rq\<rparr>)"
  obtains v where "rest_CredentialsCreate E H (Inr rq) w = (Ret (Reply 500 ErrorBody), v)" "db v = db w"
proof -
  obtain e w' where f: "core_CredentialsCreate E \<lparr>cc_Email = hcc_Email rq, cc_Password = hcc_Password rq,
      cc_ShortCode = hcc_ShortCode rq\<rparr> w = (Fail e, w')" "sentinels_of e = {ErrShortCodeConsumeExpired}" "db w' = db w"
    by (rule register_expired [OF assms(1,4), of w]) (use assms(3) in simp_all)
  have "h_status H credentials_create_map e = 500"
    by (rule status_miss [OF assms(2)]) (auto simp: credentials_create_map_def f(2))
  then show thesis
    using that f(1,3) by (simp add: rest_CredentialsCreate_def with_request_def respond_run error_reply_def)
qed

lemma email_expired_answer:
  assumes "reliable E" "status_contract H"
    "expires_meanwhile E (tick w) (short_codes (db w)) (x_uuid_string E (hue_UserID rq)) ShortCodeUsageValidateEmail"
    "struct_valid E [(FStr (hue_ShortCode rq), [Required, Max 1024])]"
    "struct_valid E (consume_struct \<lparr>sco_Usage = ShortCodeUsageValidateEmail,
       sco_Target = x_uuid_string E (hue_UserID rq), sco_Code = hue_ShortCode rq\<rparr>)"
  obtains v where "rest_CredentialsUpdateEmail E H (Inr rq) w = (Ret (Reply 500 ErrorBody), v)" "db v = db w"
proof -
  let ?rq = "\<lparr>cue_UserID = hue_UserID rq, cue_ShortCode = hue_ShortCode rq\<rparr>"
  obtain e w' where f: "core_CredentialsUpdateEmail E ?rq w = (Fail e, w')" "sentinels_of e = {ErrShortCodeConsumeExpired}"
    "db w' = db w"
    by (rule email_expired [OF assms(1), of ?rq w]) (use assms(3-5) in simp_all)
  have "h_status H update_email_map e = 500"
    by (rule status_miss [OF assms(2)]) (auto simp: update_email_map_def f(2))
  then show thesis
    using that f(1,3) by (simp add: rest_CredentialsUpdateEmail_def with_request_def respond_run error_reply_def)
qed

lemma reset_expired_answer:
  assumes "reliable E" "status_contract H"
    "expires_meanwhile E (Suc (tick w)) (short_codes (db w)) (x_uuid_string E (hrp_UserID rq)) ShortCodeUsageResetPassword"
    "hrp_ShortCode rq \<noteq> ''''" "struct_valid E (update_password_struct \<lparr>cup_Password = hrp_Password rq,
       cup_CurrentPassword = '''', cup_ShortCode = hrp_ShortCode rq, cup_UserID = hrp_UserID rq\<rparr>)"
    "struct_valid E (consume_struct \<lparr>sco_Usage = ShortCodeUsageResetPassword,
       sco_Target = x_uuid_string E (hrp_UserID rq), sco_Code = hrp_ShortCode rq\<rparr>)"
  obtains v where "rest_CredentialsResetPassword E H (Inr rq) w = (Ret (Reply 403 ErrorBody), v)" "db v = db w"
proof -
  obtain e w' where f: "core_CredentialsUpdatePassword E \<lparr>cup_Password = hrp_Password rq, cup_CurrentPassword = '''',
      cup_ShortCode = hrp_ShortCode rq, cup_UserID = hrp_UserID rq\<rparr> w = (Fail e, w')"
    "sentinels_of e = {ErrShortCodeConsumeExpired}" "db w' = db w"
    by (rule password_fails [OF assms(1,5), of w, OF expired_proof [OF assms(1)]])
      (use assms(3,4,6) in simp_all)
  have "h_status H reset_password_map e = 403"
    by (rule status_hit [OF assms(2), of ErrShortCodeConsumeExpired]) (auto simp: reset_password_map_def f(2))
  then show thesis
    using that f(1,3) by (simp add: rest_CredentialsResetPassword_def with_request_def respond_run error_reply_def)
qed

section \<open>Codes that lose\<close>

text \<open>Of the sentinels a client could be told of, the error of an insertion that lost carries its own only.\<close>

definition lone :: "sentinel \<Rightarrow> 'a io \<Rightarrow> bool" where
  "lone s m \<longleftrightarrow> (\<forall>w e w'. m w = (Fail e, w') \<longrightarrow> s \<in> sentinels_of e \<longrightarrow> sentinels_of e = {s})"

named_theorems lone_intros "structural rules: a sentinel that never comes with another"

lemma loneI: "(\<And>w e w'. m w = (Fail e, w') \<Longrightarrow> s \<in> sentinels_of e \<Longrightarrow> sentinels_of e = {s}) \<Longrightarrow> lone s m"
  by (simp add: lone_def)

lemma lone_pure [lone_intros]: "lone s (ret a)" "lone s (ask f)" "lone s (fail (Sentinel t))"
  by (auto simp: lone_def ask_def fail_def ret_def)

lemma lone_raises: "raises (\<lambda>_. True) S m \<Longrightarrow> s \<notin> S \<Longrightarrow> lone s m"
  by (auto simp: lone_def dest: raisesD)

lemma loneD: "lone s m \<Longrightarrow> m w = (Fail e, w') \<Longrightarrow> s \<in> sentinels_of e \<Longrightarrow> sentinels_of e = {s}"
  unfolding lone_def by blast

lemma lone_then [lone_intros]:
  assumes "lone s m" "\<And>a. lone s (f a)"
  shows "lone s (andThen m f)"
proof (rule loneI)
  fix w e w' assume r: "andThen m f w = (Fail e, w')" "s \<in> sentinels_of e"
  obtain q w1 where m: "m w = (q, w1)" by (cases "m w")
  show "sentinels_of e = {s}"
  proof (cases q)
    case (Ret a)
    then have "f a w1 = (Fail e, w')" using r(1) m by (simp add: andThen_def)
    then show ?thesis using loneD [OF assms(2)] r(2) by blast
  next
    case (Fail e1)
    then have "m w = (Fail e, w')" using r(1) m by (simp add: andThen_def)
    then show ?thesis using loneD [OF assms(1)] r(2) by blast
  next
    case (Panic p)
    then show ?thesis using r(1) m by (simp add: andThen_def)
  qed
qed

lemma lone_wrap [lone_intros]:
  assumes "lone s m"
  shows "lone s (wrap msg m)"
proof (rule loneI)
  fix w e w' assume r: "wrap msg m w = (Fail e, w')" "s \<in> sentinels_of e"
  obtain q w1 where m: "m w = (q, w1)" by (cases "m w")
  then show "sentinels_of e = {s}"
  proof (cases q)
    case (Fail e1)
    then have "m w = (Fail e1, w')" "sentinels_of e = sentinels_of e1" using r(1) m by (auto simp: prog_simps)
    then show ?thesis using loneD [OF assms] r(2) by simp
  qed (use r(1) m in \<open>simp_all add: prog_simps\<close>)
qed

lemma lone_if [lone_intros]: "lone s m \<Longrightarrow> lone s n \<Longrightarrow> lone s (if b then m else n)"
  by simp

lemma lone_insert:
  assumes "tx_contract (x_within_tx_code E)"
  shows "lone ErrShortCodeInsertAlreadyExists (dao_ShortCodeInsert E rq)"
proof (rule loneI)
  fix w e w' assume f: "dao_ShortCodeInsert E rq w = (Fail e, w')" "ErrShortCodeInsertAlreadyExists \<in> sentinels_of e"
  show "sentinels_of e = {ErrShortCodeInsertAlreadyExists}"
  proof (cases "in_tx w")
    case True
    then show ?thesis using f by (auto simp: dao_ShortCodeInsert_def)
  next
    case False
    then show ?thesis using raisesD [OF raises_code_insert [OF assms] f(1)] f(2) by auto
  qed
qed

lemma lone_flows:
  assumes "tx_contract (x_within_tx_code E)"
  shows "lone ErrShortCodeInsertAlreadyExists (core_ShortCodeCreateRegister E cfg urls a)"
    "lone ErrShortCodeInsertAlreadyExists (core_ShortCodeCreateEmailUpdate E cfg urls b)"
    "lone ErrShortCodeInsertAlreadyExists (core_ShortCodeCreatePasswordReset E cfg urls c)"
proof -
  let ?lone = "lone ErrShortCodeInsertAlreadyExists"
  have data: "?lone (case d of None \<Rightarrow> ret None
      | Some x \<Rightarrow> lift (map_outcome_ret (\<lambda>s. Ret (Some s)) (go_result (x_json_marshal E x))))" for d
    by (cases d) (simp_all add: lone_pure lone_raises [OF marshal_rules(2) [of _ "{}"]])
  have valid: "?lone (validate E fs)" for fs by (rule lone_raises [OF raises_validate]) simp
  have rand: "?lone (NewRandomURLString E n)" for n by (rule lone_raises [OF raises_random [of _ "{}"]]) simp
  have hash: "?lone (io_GenerateArgon2 E p)" for p by (rule lone_raises [OF raises_generate]) simp
  have row: "?lone (dao_CredentialsSelectByEmail E m)" for m by (rule lone_raises [OF raises_accounts(3)]) simp
  have send: "?lone (go_send j)" for j by (simp add: lone_def go_send_def)
  have check: "?lone (exists_check E m)" for m
  proof (rule loneI)
    fix w e w' assume "exists_check E m w = (Fail e, w')" "ErrShortCodeInsertAlreadyExists \<in> sentinels_of e"
    then show "sentinels_of e = {ErrShortCodeInsertAlreadyExists}"
      by (cases rule: exists_check_cases [of E m w]) auto
  qed
  have "?lone (core_ShortCodeCreate E cfg rq)" for rq
    unfolding core_ShortCodeCreate_def by (intro lone_intros valid rand hash data lone_insert assms)
  then have d: "?lone (deliver E cfg rq mail)" for rq mail
    unfolding deliver_def by (intro lone_intros send)
  show "?lone (core_ShortCodeCreateRegister E cfg urls a)" "?lone (core_ShortCodeCreateEmailUpdate E cfg urls b)"
    "?lone (core_ShortCodeCreatePasswordReset E cfg urls c)"
    unfolding flow_deliver by (intro lone_intros valid check row d; simp)+
qed


text \<open>It is in no map of the three endpoints, nor the error they hide.\<close>

lemma lost_code_answer:
  assumes "status_contract H" "hidden \<noteq> ErrShortCodeInsertAlreadyExists" "svc w = (Fail e, w')"
    "lone ErrShortCodeInsertAlreadyExists svc" "errors_is e ErrShortCodeInsertAlreadyExists"
  shows "fst (accept_silently H hidden svc w) = Ret (Reply 500 ErrorBody)"
proof -
  have s: "sentinels_of e = {ErrShortCodeInsertAlreadyExists}"
    using loneD [OF assms(4,3)] assms(5) by (simp add: errors_is_sentinels)
  have "h_status H [(Some ErrInvalidRequest, 422)] e = 500"
    by (rule status_miss [OF assms(1)]) (auto simp: s)
  moreover have "\<not> errors_is e hidden" using assms(2) s by (auto simp: errors_is_sentinels)
  ultimately show ?thesis
    using assms(3) by (simp add: accept_silently_def handle_error_def error_reply_def prog_simps)
qed

lemma lost_code_answers:
  assumes "tx_contract (x_within_tx_code E)" "status_contract H"
  shows "core_ShortCodeCreateRegister E cfg urls \<lparr>scr_Email = hm_Email m, scr_Lang = hm_Lang m\<rparr> w = (Fail e, w') \<Longrightarrow>
      errors_is e ErrShortCodeInsertAlreadyExists \<Longrightarrow>
      fst (rest_ShortCodeCreateRegister E cfg urls H (Inr m) w) = Ret (Reply 500 ErrorBody)"
    "core_ShortCodeCreateEmailUpdate E cfg urls
      \<lparr>sceu_ID = from_ptr (UserID c), sceu_Email = hm_Email m, sceu_Lang = hm_Lang m\<rparr> w = (Fail e, w') \<Longrightarrow>
      errors_is e ErrShortCodeInsertAlreadyExists \<Longrightarrow>
      fst (rest_ShortCodeCreateEmailUpdate E cfg urls H (Inr m) (SomeClaims c) w) = Ret (Reply 500 ErrorBody)"
    "core_ShortCodeCreatePasswordReset E cfg urls \<lparr>scpr_Email = hm_Email m, scpr_Lang = hm_Lang m\<rparr> w = (Fail e, w') \<Longrightarrow>
      errors_is e ErrShortCodeInsertAlreadyExists \<Longrightarrow>
      fst (rest_ShortCodeCreatePasswordReset E cfg urls H (Inr m) w) = Ret (Reply 500 ErrorBody)"
  using lost_code_answer [OF assms(2) _ _ lone_flows(1) [OF assms(1)]]
    lost_code_answer [OF assms(2) _ _ lone_flows(2) [OF assms(1)]]
    lost_code_answer [OF assms(2) _ _ lone_flows(3) [OF assms(1)]]
  by (simp_all add: rest_ShortCodeCreateRegister_def rest_ShortCodeCreateEmailUpdate_def
      rest_ShortCodeCreatePasswordReset_def with_request_def with_claims_def MustGetClaimsContext_def GetClaimsContext_def)

text \<open>An insertion loses when its identifier or its pair is already taken, as by a concurrent one that committed
  first (theory \<open>Issuing\<close>); with the codes of one request alone, only by its identifier.\<close>

lemma code_insert_taken:
  assumes "reliable E" "\<not> in_tx w" "si_Override rq" "si_ID rq \<in> s_id ` set (short_codes (db w))"
  obtains e w' where "dao_ShortCodeInsert E rq w = (Fail e, w')" "errors_is e ErrShortCodeInsertAlreadyExists"
proof -
  note h = reliableD(2) [OF assms(1)]
  have ids: "set (map s_id (cleared rq now rs)) = set (map s_id rs)" for now rs
    by (simp add: cleared_def supersede_codes_def del: set_map)
  have "si_ID rq \<in> set (map s_id (short_codes (db w)))" using assms(4) by simp
  then have ins: "insert_code (new_code rq) (cleared rq now (short_codes (db w))) = Inl unique_violation" for now
    unfolding insert_code_def ids by (simp add: new_code_def del: set_map)
  obtain e v where f: "short_code_insert_body E rq (w\<lparr>in_tx := True\<rparr>) = (Fail e, v)"
    "errors_is e ErrShortCodeInsertAlreadyExists"
    using ins
    by (simp add: short_code_insert_body_def assms(3) discardConflicts_def prog_simps get_context_healthy [OF h]
        run_stmt_healthy [OF h] sql_discardConflict_def query_one_def sql_shortCodeInsert_def Let_def
        new_code_def cleared_def supersede_codes_def code_unique_def unique_violation_def errors_is_sentinels)
  show thesis
    using that seq_tx_Fail [of "short_code_insert_body E rq" w, OF f(1)] f(2) assms(2)
    by (simp add: dao_ShortCodeInsert_def reliableD(5) [OF assms(1)] prog_simps errors_is_sentinels)
qed


lemma create_taken:
  assumes "reliable E" "\<not> in_tx w" "struct_valid E (create_struct rq)" "scc_Override rq" "0 \<le> Size cfg"
    "\<And>t. x_uuid_new E t \<in> s_id ` set (short_codes (db w))"
  obtains e w' where "core_ShortCodeCreate E cfg rq w = (Fail e, w')" "errors_is e ErrShortCodeInsertAlreadyExists"
proof -
  obtain plain w1 where r: "NewRandomURLString E (Size cfg) w = (Ret plain, w1)" "db w1 = db w" "in_tx w1 = in_tx w"
    by (rule random_run [OF assms(1,5)])
  obtain enc w2 where g: "io_GenerateArgon2 E plain w1 = (Ret enc, w2)" "db w2 = db w1" "in_tx w2 = in_tx w1"
    by (rule generate_run [OF assms(1)])
  obtain d where d: "(case scc_Data rq of None \<Rightarrow> ret None
          | Some d \<Rightarrow> lift (map_outcome_ret (\<lambda>s. Ret (Some s)) (go_result (x_json_marshal E d)))) w2 = (Ret d, w2)"
    by (rule marshalled [OF assms(1)])
  let ?w3 = "w2\<lparr>tick := Suc (Suc (tick w2))\<rparr>"
  let ?irq = "\<lparr>si_ID = x_uuid_new E (Suc (tick w2)), si_Code = enc, si_Usage = scc_Usage rq, si_Target = scc_Target rq,
      si_Data = d, si_Now = x_now E (tick w2), si_ExpiresAt = x_now E (tick w2) + scc_TTL rq, si_Override = scc_Override rq\<rparr>"
  obtain e w4 where "dao_ShortCodeInsert E ?irq ?w3 = (Fail e, w4)" "errors_is e ErrShortCodeInsertAlreadyExists"
    by (rule code_insert_taken [OF assms(1), of ?w3 ?irq]) (use assms(2,4,6) r g in simp_all)
  then show thesis
    using that assms(3) r(1) g(1) d by (simp add: core_ShortCodeCreate_def prog_simps validate_run)
qed

lemma register_taken:
  assumes "reliable E" "\<not> in_tx w" "0 \<le> Size cfg" "usage_ttl cfg ShortCodeUsageRegister \<noteq> 0"
    "\<And>t. x_uuid_new E t \<in> s_id ` set (short_codes (db w))" "struct_valid E (register_struct rq)"
    "by_email (scr_Email rq) (credentials (db w)) = None"
  obtains e w' where "core_ShortCodeCreateRegister E cfg urls rq w = (Fail e, w')" "errors_is e ErrShortCodeInsertAlreadyExists"
proof (cases rule: exists_check_cases [of E "scr_Email rq" w])
  case (infra e v)
  then show thesis using reliableD(2) [OF assms(1)] by blast
next
  case (absent v)
  have v: "validator_contract E" by (simp add: environment_okD(3) reliableD(1) assms(1))
  let ?rq = "\<lparr>scc_Usage = ShortCodeUsageRegister, scc_Target = scr_Email rq, scc_Data = None,
         scc_TTL = usage_ttl cfg ShortCodeUsageRegister, scc_Override = True\<rparr>"
  have st: "struct_valid E (create_struct ?rq)"
    using assms(4,6) by (simp add: create_struct_def register_struct_def contract_tags [OF v] tag_simps
      unknown_usage usage_names)
  obtain e w' where "core_ShortCodeCreate E cfg ?rq v = (Fail e, w')" "errors_is e ErrShortCodeInsertAlreadyExists"
    by (rule create_taken [OF assms(1) _ st _ assms(3), of v]) (use absent assms(2,5) in \<open>simp_all add: frame_def\<close>)
  then show thesis using that absent(1) assms(6) unfolding flow_deliver deliver_def
    by (simp add: prog_simps validate_run errors_is_sentinels)
next
  case (present r v)
  then show thesis using assms(7) by (simp add: frame_def)
qed

lemma email_update_taken:
  assumes "reliable E" "\<not> in_tx w" "0 \<le> Size cfg" "usage_ttl cfg ShortCodeUsageValidateEmail \<noteq> 0"
    "\<And>t. x_uuid_new E t \<in> s_id ` set (short_codes (db w))" "struct_valid E (email_update_struct rq)"
    "x_uuid_string E (sceu_ID rq) \<noteq> ''''" "rune_count (x_uuid_string E (sceu_ID rq)) \<le> 1024"
    "by_email (sceu_Email rq) (credentials (db w)) = None"
  obtains e w' where "core_ShortCodeCreateEmailUpdate E cfg urls rq w = (Fail e, w')" "errors_is e ErrShortCodeInsertAlreadyExists"
proof (cases rule: exists_check_cases [of E "sceu_Email rq" w])
  case (infra e v)
  then show thesis using reliableD(2) [OF assms(1)] by blast
next
  case (absent v)
  have v: "validator_contract E" by (simp add: environment_okD(3) reliableD(1) assms(1))
  let ?rq = "\<lparr>scc_Usage = ShortCodeUsageValidateEmail, scc_Target = x_uuid_string E (sceu_ID rq),
    scc_Data = Some (sceu_Email rq), scc_TTL = usage_ttl cfg ShortCodeUsageValidateEmail, scc_Override = True\<rparr>"
  have st: "struct_valid E (create_struct ?rq)"
    using assms(4,7,8) by (simp add: create_struct_def contract_tags [OF v] tag_simps unknown_usage usage_names)
  obtain e w' where "core_ShortCodeCreate E cfg ?rq v = (Fail e, w')" "errors_is e ErrShortCodeInsertAlreadyExists"
    by (rule create_taken [OF assms(1) _ st _ assms(3), of v]) (use absent assms(2,5) in \<open>simp_all add: frame_def\<close>)
  then show thesis using that absent(1) assms(6) unfolding flow_deliver deliver_def
    by (simp add: prog_simps validate_run errors_is_sentinels)
next
  case (present r v)
  then show thesis using assms(9) by (simp add: frame_def)
qed

lemma reset_taken:
  assumes "reliable E" "\<not> in_tx w" "0 \<le> Size cfg" "usage_ttl cfg ShortCodeUsageResetPassword \<noteq> 0"
    "\<And>t. x_uuid_new E t \<in> s_id ` set (short_codes (db w))" "struct_valid E (password_reset_struct rq)"
    "\<And>i. x_uuid_string E i \<noteq> '''' \<and> rune_count (x_uuid_string E i) \<le> 1024"
    "by_email (scpr_Email rq) (credentials (db w)) = Some row"
  obtains e w' where "core_ShortCodeCreatePasswordReset E cfg urls rq w = (Fail e, w')" "errors_is e ErrShortCodeInsertAlreadyExists"
proof -
  have v: "validator_contract E" by (simp add: environment_okD(3) reliableD(1) assms(1))
  let ?v = "w\<lparr>tick := Suc (Suc (tick w))\<rparr>"
  let ?rq = "\<lparr>scc_Usage = ShortCodeUsageResetPassword, scc_Target = x_uuid_string E (c_id row), scc_Data = None,
         scc_TTL = usage_ttl cfg ShortCodeUsageResetPassword, scc_Override = True\<rparr>"
  have st: "struct_valid E (create_struct ?rq)"
    using assms(4,7) by (simp add: create_struct_def contract_tags [OF v] tag_simps unknown_usage usage_names)
  obtain e w' where "core_ShortCodeCreate E cfg ?rq ?v = (Fail e, w')" "errors_is e ErrShortCodeInsertAlreadyExists"
    by (rule create_taken [OF assms(1) _ st _ assms(3), of ?v]) (use assms(2,5) in simp_all)
  then show thesis using that select_email_healthy(1) [OF reliableD(2) [OF assms(1)] assms(8)] assms(6)
    unfolding flow_deliver deliver_def by (simp add: prog_simps validate_run errors_is_sentinels)
qed

end
