(* ===== verification/Steps.thy ===== *)
theory Steps
  imports Main
begin

text \<open>
  Step relations and what they keep: the interface through which every interleaving of the development gets
  its invariant from the single steps.
\<close>

locale preserved =
  fixes step :: "'s \<Rightarrow> 's \<Rightarrow> bool" and inv :: "'s \<Rightarrow> bool"
  assumes step_keeps: "step s t \<Longrightarrow> inv s \<Longrightarrow> inv t"
begin

lemma reached: "step\<^sup>*\<^sup>* s t \<Longrightarrow> inv s \<Longrightarrow> inv t"
  by (induction rule: rtranclp_induct) (auto intro: step_keeps)

text \<open>A relation between the ends of a step that is reflexive and transitive holds between the ends of a run.\<close>

lemma related:
  assumes "step\<^sup>*\<^sup>* s t" "inv s" "\<And>u. R u u" "\<And>u v. step u v \<Longrightarrow> inv u \<Longrightarrow> R u v"
    "\<And>u v x. R u v \<Longrightarrow> R v x \<Longrightarrow> R u x"
  shows "R s t"
  using assms(1)
proof (induction rule: rtranclp_induct)
  case (step t u)
  then show ?case using assms(4) [OF step.hyps(2) reached [OF step.hyps(1) assms(2)]] assms(5) by blast
qed (rule assms(3))

end

end
