(* ===== verification/Reachability.thy ===== *)
theory Reachability
  imports Server Steps
begin

text \<open>
  Sequences of requests: the abstract account specification, the proof that every request the router
  dispatches refines it, the worlds that requests reach, and what those worlds keep.
\<close>


section \<open>The accounts, abstractly\<close>

text \<open>
  The specification the server refines: accounts are a map from identifiers to rows, and a request leaves
  it alone, adds an ordinary user under a fresh identifier, changes the address or the password of one
  account, or changes the role of one account on behalf of another within the limits of the ranks.
\<close>

type_synonym account_map = "uuid \<Rightarrow> dao_credentials option"

definition accounts_of :: "db \<Rightarrow> account_map" where
  "accounts_of d = (\<lambda>i. by_id i (credentials d))"

inductive account_step :: "account_map \<Rightarrow> account_map \<Rightarrow> bool" where
  unchanged: "account_step m m"
| account_added: "m (c_id row) = None \<Longrightarrow> c_role row = RoleUser \<Longrightarrow>
    (\<And>j r. m j = Some r \<Longrightarrow> c_email r \<noteq> c_email row) \<Longrightarrow> account_step m (m(c_id row \<mapsto> row))"
| address_changed: "m i = Some old \<Longrightarrow> account_step m (m(i \<mapsto> set_email e now old))"
| secret_changed: "m i = Some old \<Longrightarrow> account_step m (m(i \<mapsto> set_password p now old))"
| role_changed: "m i = Some target \<Longrightarrow> m a = Some actor \<Longrightarrow> a \<noteq> i \<Longrightarrow>
    rank role \<le> rank (c_role actor) \<Longrightarrow>
    rank (c_role target) < rank (c_role actor) \<or> rank (c_role target) < rank role \<Longrightarrow>
    account_step m (m(i \<mapsto> set_role role now target))"

lemma account_updated_map: "account_updated i f d d' \<Longrightarrow>
    \<exists>old. accounts_of d i = Some old \<and> accounts_of d' = (accounts_of d)(i \<mapsto> f old)"
  by (auto simp: account_updated_def accounts_of_def fun_eq_iff)

lemma accounts_of_cong: "credentials d = credentials d' \<Longrightarrow> accounts_of d = accounts_of d'"
  by (simp add: accounts_of_def)

lemma registered_step:
  assumes "registered E rq d row d'" "accounts_ok d"
  shows "account_step (accounts_of d) (accounts_of d')"
proof -
  have ins: "insert_row row (credentials d) = Inr (credentials d')" and role: "c_role row = RoleUser"
    using assms(1) by (simp_all add: registered_def)
  have m: "accounts_of d' = (accounts_of d)(c_id row \<mapsto> row)"
    using accounts.insert_lookup [OF ins] by (simp add: accounts_of_def fun_eq_iff)
  have fresh: "accounts_of d (c_id row) = None" "by_email (c_email row) (credentials d) = None"
    using accounts.insert_fresh [OF ins] by (simp_all add: accounts_of_def)
  have "c_email r \<noteq> c_email row" if "accounts_of d j = Some r" for j r
  proof -
    have "r \<in> set (credentials d)"
      using that assms(2) by (simp add: accounts_of_def accounts_ok_def credentials_ok_def by_id_Some)
    with fresh(2) show ?thesis by (metis by_email_None image_eqI list.set_map)
  qed
  with m fresh(1) role show ?thesis by (auto intro: account_added)
qed

lemma changed_step:
  "email_changed E rq d row d' \<Longrightarrow> account_step (accounts_of d) (accounts_of d')"
  "password_changed E rp d row d' \<Longrightarrow> account_step (accounts_of d) (accounts_of d')"
  "role_change rr d d' \<Longrightarrow> account_step (accounts_of d) (accounts_of d')"
proof -
  assume "email_changed E rq d row d'"
  then obtain d1 e now where "credentials d1 = credentials d" "account_updated (cue_UserID rq) (set_email e now) d1 d'"
    unfolding email_changed_def by blast
  moreover from this(2) [THEN account_updated_map] obtain old where
    "accounts_of d1 (cue_UserID rq) = Some old"
    "accounts_of d' = (accounts_of d1)(cue_UserID rq \<mapsto> set_email e now old)" by blast
  ultimately show "account_step (accounts_of d) (accounts_of d')"
    using accounts_of_cong [of d1 d] address_changed by metis
next
  assume "password_changed E rp d row d'"
  then obtain d1 p now where "credentials d1 = credentials d" "account_updated (cup_UserID rp) (set_password p now) d1 d'"
    unfolding password_changed_def proven_def by blast
  moreover from this(2) [THEN account_updated_map] obtain old where
    "accounts_of d1 (cup_UserID rp) = Some old"
    "accounts_of d' = (accounts_of d1)(cup_UserID rp \<mapsto> set_password p now old)" by blast
  ultimately show "account_step (accounts_of d) (accounts_of d')"
    using accounts_of_cong [of d1 d] secret_changed by metis
next
  assume "role_change rr d d'"
  then show "account_step (accounts_of d) (accounts_of d')"
    unfolding role_change_def
    using account_updated_map [of "cur_TargetUserID rr" _ d d']
    by (fastforce simp: accounts_of_def intro: role_changed)
qed

lemma allowed_step:
  assumes "allowed E e ctx d d'" "accounts_ok d"
  shows "account_step (accounts_of d) (accounts_of d')"
proof -
  have same: "credentials d' = credentials d \<Longrightarrow> account_step (accounts_of d) (accounts_of d')"
    using accounts_of_cong [of d' d] account_step.unchanged [of "accounts_of d"] by metis
  show ?thesis using assms
    by (cases e) (auto intro: registered_step changed_step same account_step.unchanged)
qed

section \<open>The server as a transition system\<close>

text \<open>The worlds a sequence of requests leads to, in any order and with any content.\<close>

inductive reaches :: "app \<Rightarrow> role_permissions \<Rightarrow> world \<Rightarrow> world \<Rightarrow> bool" for A perms w where
  start: "reaches A perms w w"
| request: "reaches A perms w v \<Longrightarrow> dispatch A perms rq v = (r, v') \<Longrightarrow> reaches A perms w v'"

lemma keeps_Recoverer [keeps_intros]: "keeps I m \<Longrightarrow> keeps I (Recoverer m)"
  by (simp add: keeps_def)

lemma keeps_handlers [keeps_intros]:
  "keeps I svc \<Longrightarrow> keeps I (respond H m svc f)"
  "keeps I cs \<Longrightarrow> keeps I (accept_silently H s cs)"
  "keeps I (handle_error H m e)"
  by (simp_all add: keeps_def snd_respond snd_accept handle_error_def)

lemma keeps_requests [keeps_intros]:
  "(\<And>r. keeps I (f r)) \<Longrightarrow> keeps I (with_request H decoded f)"
  "(\<And>c. keeps I (g c)) \<Longrightarrow> keeps I (with_claims H m ctx g)"
  by (auto simp: with_request_def keeps_handlers split: sum.splits)
    (cases "MustGetClaimsContext ctx"; simp add: with_claims_def keeps_handlers keeps_pure)

lemma keeps_Middleware [keeps_intros]:
  assumes "\<And>ctx. keeps_db I P (next ctx)"
  shows "keeps_db I P (Middleware E H perms required next token ctx)"
proof (rule keepsI)
  fix w :: world assume w: "I (db w) \<and> P (in_tx w)"
  have n: "I (db (snd (next c v))) \<and> P (in_tx (snd (next c v)))" if "I (db v) \<and> P (in_tx v)" for c v
    using assms [of c] that by (rule keepsD)
  show "I (db (snd (Middleware E H perms required next token ctx w))) \<and>
      P (in_tx (snd (Middleware E H perms required next token ctx w)))"
  proof (cases rule: Middleware_cases [of token required E H perms "next" ctx w])
    case (checked tok c)
    then show ?thesis
      using n [of "w\<lparr>tick := Suc (tick w)\<rparr>" "SomeClaims c"] w
      by (cases "check_roles perms required (Roles c)") (simp_all add: handle_error_def)
  next
    case (verified tok c)
    then show ?thesis using n [of "w\<lparr>tick := Suc (tick w)\<rparr>" "SomeClaims c"] w by simp
  qed (use w n in \<open>simp_all add: handle_error_def\<close>)
qed

lemma keeps_Health: "keeps_db I P (rest_Health E p s j)"
proof -
  have "keeps_db I P (reportPostgres E p)"
    by (auto simp: keeps_def reportPostgres_def reportSmtp_def reportJsonKeys_def andThen_def split: option.splits)
  then show ?thesis unfolding rest_Health_def reportSmtp_def reportJsonKeys_def by (intro keeps_intros)
qed

lemmas handler_defs = rest_Ping_def rest_TokenCreate_def rest_TokenCreateAnon_def
    rest_ClaimsGet_def rest_TokenRefresh_def rest_CredentialsGet_def rest_CredentialsExist_def
    rest_CredentialsList_def rest_CredentialsCreate_def rest_CredentialsUpdateEmail_def
    rest_CredentialsUpdatePassword_def rest_CredentialsResetPassword_def rest_CredentialsUpdateRole_def
    rest_ShortCodeCreateRegister_def rest_ShortCodeCreateEmailUpdate_def
    rest_ShortCodeCreatePasswordReset_def

lemma endpoint_keeps:
  assumes "environment_ok (app_env A)"
  shows "keeps_db service_ok Not (serve_endpoint A rq e ctx)"
proof (cases "e = Health")
  case True
  then show ?thesis by (simp add: keeps_Health)
next
  case False
  note k = keeps_account_services [OF environment_okD(1) [OF assms]]
    keeps_code_services [OF environment_okD(2) [OF assms]]
  show ?thesis
    using False
    by (cases e; simp only: serve_endpoint.simps handler_defs; (intro keeps_intros k)?; simp)
qed

lemma dispatch_keeps:
  assumes "environment_ok (app_env A)"
  shows "keeps_db service_ok Not (dispatch A perms rq)"
proof -
  have "keeps_db service_ok Not (guarded A perms rq required (serve_endpoint A rq e) ctx)" for required e ctx
    unfolding guarded_def
    by (cases required) (simp_all add: endpoint_keeps [OF assms] keeps_Middleware)
  then show ?thesis
    unfolding dispatch_def
    by (auto intro!: keeps_Recoverer keeps_pure split: option.splits prod.splits)
qed
lemma dispatch_step:
  assumes "environment_ok (app_env A)" "service_ok (db w)" "\<not> in_tx w" "dispatch A perms rq w = (r, w')"
  shows "account_step (accounts_of (db w)) (accounts_of (db w'))"
  using dispatch_result [OF assms] service_okD(1) [OF assms(2)]
  by (auto simp: authorised_def intro: account_step.unchanged allowed_step)

lemma reaches_inv:
  assumes "reaches A perms w v" "environment_ok (app_env A)" "service_ok (db w)" "\<not> in_tx w"
  shows "service_ok (db v) \<and> \<not> in_tx v \<and> account_step\<^sup>*\<^sup>* (accounts_of (db w)) (accounts_of (db v))"
  using assms(1)
proof induction
  case start
  then show ?case using assms by simp
next
  case (request v rq r v')
  have "service_ok (db v') \<and> \<not> in_tx v'"
    using keepsD [OF dispatch_keeps [OF assms(2)], of v perms rq] request by simp
  moreover have "account_step (accounts_of (db v)) (accounts_of (db v'))"
    using dispatch_step [OF assms(2)] request by blast
  ultimately show ?case using request.IH by (metis rtranclp.rtrancl_into_rtrancl)
qed

section \<open>What the abstract steps keep\<close>

lemma rank_cases: "rank r = 0 \<or> rank r = 1 \<or> rank r = 2 \<or> rank r = 3"
  by (simp add: rank_def Priority_def PermissionsConfigDefault_def)

lemma rank_roles [simp]: "rank RoleAnon = 0" "rank RoleUser = 1" "rank RoleAdmin = 2" "rank RoleSuperAdmin = 3"
  by (simp_all add: rank_Ret Priority_default)

lemma account_step_top:
  "account_step m m' \<Longrightarrow> m i = Some r \<Longrightarrow> c_role r = RoleSuperAdmin \<Longrightarrow>
     \<exists>r'. m' i = Some r' \<and> c_role r' = RoleSuperAdmin"
proof (induction rule: account_step.induct)
  case (role_changed m j target a actor role now)
  have "rank (c_role actor) \<le> 3" "rank role \<le> 3" using rank_cases [of "c_role actor"] rank_cases [of role] by auto
  with role_changed have "j \<noteq> i" by (auto simp: rank_roles)
  with role_changed.prems show ?case by simp
qed auto

lemma account_step_bound:
  "account_step m m' \<Longrightarrow> 1 \<le> n \<Longrightarrow> \<forall>i r. m i = Some r \<longrightarrow> rank (c_role r) \<le> n \<Longrightarrow>
     \<forall>i r. m' i = Some r \<longrightarrow> rank (c_role r) \<le> n"
proof (induction rule: account_step.induct)
  case (role_changed m i target a actor role now)
  then have "rank role \<le> n" by (meson order_trans)
  with role_changed.prems show ?case by simp
qed (auto split: if_splits)

lemma account_step_identity:
  "account_step m m' \<Longrightarrow> m i = Some r \<Longrightarrow>
     \<exists>r'. m' i = Some r' \<and> c_id r' = c_id r \<and> c_created_at r' = c_created_at r"
  by (induction rule: account_step.induct) auto

interpretation tops_stay: preserved account_step "\<lambda>m. \<exists>r. m i = Some r \<and> c_role r = RoleSuperAdmin" for i
  by unfold_locales (blast dest: account_step_top)

interpretation ranks_bounded: preserved account_step "\<lambda>m. 1 \<le> n \<and> (\<forall>i r. m i = Some r \<longrightarrow> rank (c_role r) \<le> n)" for n
  by unfold_locales (blast dest: account_step_bound)

interpretation accounts_stay: preserved account_step
    "\<lambda>m. \<exists>r. m i = Some r \<and> c_id r = u \<and> c_created_at r = at" for i u at
  by unfold_locales (metis account_step_identity)

lemma account_steps_top:
  "account_step\<^sup>*\<^sup>* m m' \<Longrightarrow> m i = Some r \<Longrightarrow> c_role r = RoleSuperAdmin \<Longrightarrow>
     \<exists>r'. m' i = Some r' \<and> c_role r' = RoleSuperAdmin"
  using tops_stay.reached by blast

lemma account_steps_bound:
  "account_step\<^sup>*\<^sup>* m m' \<Longrightarrow> 1 \<le> n \<Longrightarrow> \<forall>i r. m i = Some r \<longrightarrow> rank (c_role r) \<le> n \<Longrightarrow>
     \<forall>i r. m' i = Some r \<longrightarrow> rank (c_role r) \<le> n"
  using ranks_bounded.reached by blast

lemma account_steps_identity:
  "account_step\<^sup>*\<^sup>* m m' \<Longrightarrow> m i = Some r \<Longrightarrow>
     \<exists>r'. m' i = Some r' \<and> c_id r' = c_id r \<and> c_created_at r' = c_created_at r"
  using accounts_stay.reached by blast

section \<open>Who may change what\<close>

text \<open>How each change treats a row that was there before.\<close>

lemma change_rows:
  assumes "accounts_of d i = Some old" "accounts_of d' i = Some new"
  shows "registered E rc d row d' \<Longrightarrow> new = old"
    "email_changed E re d row d' \<Longrightarrow> c_role new = c_role old \<and> c_password new = c_password old"
    "password_changed E rp d row d' \<Longrightarrow> c_role new = c_role old \<and> (i \<noteq> cup_UserID rp \<longrightarrow> new = old)"
    "role_change rr d d' \<Longrightarrow> c_password new = c_password old \<and> (i \<noteq> cur_TargetUserID rr \<longrightarrow> new = old)"
proof -
  show "registered E rc d row d' \<Longrightarrow> new = old"
    using assms accounts.insert_lookup [of row "credentials d" "credentials d'" i]
      accounts.insert_fresh [of row "credentials d" "credentials d'"]
    by (auto simp: registered_def accounts_of_def split: if_splits)
  have upd: "new = (if i = j then f old else old)" if "account_updated j f d1 d'" "credentials d1 = credentials d" for d1 j f
    using account_updated_map [OF that(1)] accounts_of_cong [OF that(2)] assms by (auto split: if_splits)
  show "email_changed E re d row d' \<Longrightarrow> c_role new = c_role old \<and> c_password new = c_password old"
    unfolding email_changed_def using upd by fastforce
  show "password_changed E rp d row d' \<Longrightarrow> c_role new = c_role old \<and> (i \<noteq> cup_UserID rp \<longrightarrow> new = old)"
    unfolding password_changed_def proven_def using upd by (metis set_simps(8))
  show "role_change rr d d' \<Longrightarrow> c_password new = c_password old \<and> (i \<noteq> cur_TargetUserID rr \<longrightarrow> new = old)"
    unfolding role_change_def using upd by (metis set_simps(12))
qed

lemma allowed_role:
  assumes "allowed E e ctx d d'" "accounts_of d i = Some old" "accounts_of d' i = Some new"
    "c_role new \<noteq> c_role old"
  obtains c rq where "e = CredentialsUpdateRole" "ctx = SomeClaims c"
    "cur_CurrentUserID rq = from_ptr (UserID c)" "cur_TargetUserID rq = i" "role_change rq d d'"
proof -
  note rows = change_rows [OF assms(2,3)]
  have "\<exists>c rq. e = CredentialsUpdateRole \<and> ctx = SomeClaims c \<and>
      cur_CurrentUserID rq = from_ptr (UserID c) \<and> cur_TargetUserID rq = i \<and> role_change rq d d'"
    using assms accounts_of_cong [of d' d] by (cases e) (auto dest: rows)
  with that show thesis by blast
qed

lemma allowed_password:
  assumes "allowed E e ctx d d'" "accounts_of d i = Some old" "accounts_of d' i = Some new"
    "c_password new \<noteq> c_password old"
  obtains c rq row where "e = CredentialsUpdatePassword" "ctx = SomeClaims c" "i = from_ptr (UserID c)"
      "cup_UserID rq = i" "cup_ShortCode rq = ''''" "password_changed E rq d row d'"
  | rq row where "e = CredentialsResetPassword" "cup_UserID rq = i" "cup_CurrentPassword rq = ''''"
      "password_changed E rq d row d'"
proof -
  note rows = change_rows [OF assms(2,3)]
  have "(\<exists>c rq row. e = CredentialsUpdatePassword \<and> ctx = SomeClaims c \<and> i = from_ptr (UserID c) \<and>
        cup_UserID rq = i \<and> cup_ShortCode rq = '''' \<and> password_changed E rq d row d') \<or>
      (\<exists>rq row. e = CredentialsResetPassword \<and> cup_UserID rq = i \<and> cup_CurrentPassword rq = '''' \<and>
        password_changed E rq d row d')"
    using assms accounts_of_cong [of d' d] by (cases e) (auto dest: rows)
  with that show thesis by blast
qed

section \<open>Permissions of the started server\<close>

lemma startup_granted:
  assumes "startup A = Ret perms" "iteration_order (h_order (app_http A))"
  shows "flattened default_mods default_deps (set role_check_list) perms"
proof (rule default_granted [OF assms(2)])
  fix r assume "granted_permissions (h_order (app_http A)) PermissionsConfigDefault = Ret r"
    "flattened default_mods default_deps (set role_check_list) r"
  then show ?thesis using assms(1) by (simp add: startup_def)
qed

lemma startup_knows:
  assumes "startup A = Ret perms" "iteration_order (h_order (app_http A))"
  shows "perms role \<noteq> None \<longleftrightarrow> role \<in> set role_check_list"
  using startup_granted [OF assms] by (auto simp: flattened_def dom_def)

lemma startup_grants:
  assumes "startup A = Ret perms" "iteration_order (h_order (app_http A))" "granted_from p = Some n"
  shows "grants perms [p] roles \<longleftrightarrow> (\<exists>role\<in>set roles. role \<in> set role_check_list \<and> n \<le> rank role)"
proof -
  note f = startup_granted [OF assms(1,2)]
  note rank = default_permission_rank [OF f _ assms(3)]
  show ?thesis
    using rank startup_knows [OF assms(1,2)] unfolding grants_def by fastforce
qed

text \<open>The lowest rank each endpoint needs, \<open>None\<close> where no permission is required.\<close>

fun required_rank :: "endpoint \<Rightarrow> int option" where
  "required_rank CredentialsCreate = Some 0"
| "required_rank CredentialsUpdateEmail = Some 0"
| "required_rank CredentialsResetPassword = Some 0"
| "required_rank ShortCodeCreateRegister = Some 0"
| "required_rank ShortCodeCreatePasswordReset = Some 0"
| "required_rank CredentialsUpdatePassword = Some 1"
| "required_rank ShortCodeCreateEmailUpdate = Some 1"
| "required_rank CredentialsGet = Some 2"
| "required_rank CredentialsExist = Some 2"
| "required_rank CredentialsList = Some 2"
| "required_rank CredentialsUpdateRole = Some 3"
| "required_rank _ = None"

lemma routes_ranked: "list_all (\<lambda>(k, required, e).
    (case required of Some [p] \<Rightarrow> granted_from p = required_rank e \<and> required_rank e \<noteq> None
     | Some [] \<Rightarrow> e = ClaimsGet | Some _ \<Rightarrow> False | None \<Rightarrow> required_rank e = None)) routes"
  by (simp add: routes_listed granted_from_def PermissionsConfigDefault_def)

lemma route_ranked:
  assumes "find_route m path = Some (required, e)"
  shows "case required of Some [p] \<Rightarrow> granted_from p = required_rank e \<and> required_rank e \<noteq> None
     | Some [] \<Rightarrow> e = ClaimsGet | Some _ \<Rightarrow> False | None \<Rightarrow> required_rank e = None"
proof -
  have "((m, path), required, e) \<in> set routes"
    using assms by (rule find_route_entry)
  with routes_ranked show ?thesis unfolding list_all_iff by fast
qed

lemma ranked_route:
  assumes "find_route m path = Some (required, e)" "required_rank e = Some n"
  obtains p where "required = Some [p]" "granted_from p = Some n"
  using route_ranked [OF assms(1)] assms(2)
  by (auto split: option.splits list.splits)

lemma bearer_unique: "bearer t a \<Longrightarrow> bearer t b \<Longrightarrow> a = b"
  by (simp add: bearer_def)

lemma bearer_present: "bearer t a \<Longrightarrow> t \<noteq> ''''"
  by (simp add: bearer_def)

lemma Recoverer_reply: "Recoverer (handle_error H m e) = handle_error H m e"
  by (auto simp: Recoverer_def handle_error_def)

text \<open>The table of the middleware, over the error a request is answered with.\<close>

lemma Middleware_refused:
  assumes "required \<noteq> []" "\<nexists>tok. bearer token tok"
  shows "Middleware E H perms required next token ctx w = handle_error H [(None, 401)] invalid_auth w"
  by (cases rule: Middleware_cases [of token required E H perms "next" ctx w]) (use assms in auto)

lemma Middleware_unverified:
  assumes "bearer token tok" "x_verify_access E (tick w) False tok = Inl e"
  shows "Middleware E H perms required next token ctx w =
         handle_error H [(Some ErrInvalidSignature, 401)] e (w\<lparr>tick := Suc (tick w)\<rparr>)"
proof -
  have s: "split_on (CHR '' '') token = [''Bearer'', tok]" using assms(1) by (simp add: split_bearer)
  show ?thesis using assms(2) s bearer_present [OF assms(1)] by (simp add: Middleware_def andThen_def)
qed

lemma Middleware_checked:
  assumes "bearer token tok" "x_verify_access E (tick w) False tok = Inr c" "required \<noteq> []"
  shows "Middleware E H perms required next token ctx w =
         (case check_roles perms required (Roles c) of
            UnknownRole role \<Rightarrow> handle_error H [(None, 500)] (Wrap ''in token'' (Sentinel ErrUnknownRole))
          | Denied \<Rightarrow> handle_error H [(None, 403)] invalid_auth
          | Allowed \<Rightarrow> next (SomeClaims c)) (w\<lparr>tick := Suc (tick w)\<rparr>)"
proof -
  have s: "split_on (CHR '' '') token = [''Bearer'', tok]" using assms(1) by (simp add: split_bearer)
  show ?thesis using assms(2,3) s bearer_present [OF assms(1)]
    by (cases "check_roles perms required (Roles c)") (simp_all add: Middleware_def andThen_def SetClaimsContext_def)
qed

lemma role_route: "find_route m path = Some (q, CredentialsUpdateRole) \<Longrightarrow>
    m = PATCH \<and> path = ''/v2/credentials/role''"
proof -
  assume "find_route m path = Some (q, CredentialsUpdateRole)"
  then have "((m, path), q, CredentialsUpdateRole) \<in> set routes"
    by (rule find_route_entry)
  then show ?thesis by (auto simp: routes_listed)
qed

lemma top_rank:
  assumes "role \<in> set role_check_list" "3 \<le> rank role"
  shows "role = RoleSuperAdmin"
proof -
  from assms(1) have "role = RoleAnon \<or> role = RoleUser \<or> role = RoleAdmin \<or> role = RoleSuperAdmin"
    by (simp add: role_check_list_def role_names)
  then show ?thesis using assms(2) by (elim disjE) (simp_all add: rank_roles)
qed

lemma changes_authorised0:
  assumes "environment_ok (app_env A)" "service_ok (db w)" "\<not> in_tx w" "dispatch A perms rq w = (r, w')"
    and "db w' \<noteq> db w"
  obtains p e c tok where "find_route (rq_method rq) (rq_path rq) = Some (Some [p], e)"
    "bearer (rq_authorization rq) tok" "x_verify_access (app_env A) (tick w) False tok = Inr c"
    "grants perms [p] (Roles c)" "allowed (app_env A) e (SomeClaims c) (db w) (db w')"
  using dispatch_result [OF assms(1-4)] assms(5) that unfolding authorised_def admitted_def by blast

section \<open>What a change of a password was asked with\<close>

text \<open>The service's request, from the decoded body and the claims of the token.\<close>

definition change_of :: "RestUpdatePasswordRequest \<Rightarrow> AccessTokenClaims \<Rightarrow> CoreUpdatePasswordRequest" where
  "change_of body c = \<lparr>cup_Password = hup_Password body, cup_CurrentPassword = hup_CurrentPassword body,
     cup_ShortCode = '''', cup_UserID = from_ptr (UserID c)\<rparr>"

definition reset_of :: "RestResetPasswordRequest \<Rightarrow> CoreUpdatePasswordRequest" where
  "reset_of body = \<lparr>cup_Password = hrp_Password body, cup_CurrentPassword = '''',
     cup_ShortCode = hrp_ShortCode body, cup_UserID = hrp_UserID body\<rparr>"

fun asked_password :: "app \<Rightarrow> request \<Rightarrow> endpoint \<Rightarrow> ctx_value \<Rightarrow> db \<Rightarrow> db \<Rightarrow> bool" where
  "asked_password A rq CredentialsUpdatePassword ctx d d' \<longleftrightarrow> d' = d \<or>
     (\<exists>body c row. d_updatePassword (app_codecs A) (rq_body rq) = Inr body \<and> ctx = SomeClaims c \<and>
        password_changed (app_env A) (change_of body c) d row d')"
| "asked_password A rq CredentialsResetPassword ctx d d' \<longleftrightarrow> d' = d \<or>
     (\<exists>body row. d_resetPassword (app_codecs A) (rq_body rq) = Inr body \<and>
        password_changed (app_env A) (reset_of body) d row d')"
| "asked_password A rq _ ctx d d' \<longleftrightarrow> True"

lemma moves_decoded:
  "reflp R \<Longrightarrow> (\<And>r. decoded = Inr r \<Longrightarrow> moves R (f r)) \<Longrightarrow> moves R (with_request H decoded f)"
  by (cases decoded) (auto simp: with_request_def intro: moves_pure)

lemma endpoint_asked:
  assumes "environment_ok (app_env A)"
  shows "moves (asked_password A rq e ctx) (serve_endpoint A rq e ctx)"
proof -
  note call = service_moves(3) [OF assms, THEN moves_mono]
  have refl: "reflp (asked_password A rq e ctx)" by (cases e) (simp_all add: reflp_def)
  note rules = moves_decoded moves_respond moves_with_claims refl
  show ?thesis
  proof (cases e)
    case CredentialsUpdatePassword
    have c: "moves (asked_password A rq e ctx) (core_CredentialsUpdatePassword (app_env A) (change_of body c))"
      if "d_updatePassword (app_codecs A) (rq_body rq) = Inr body" "ctx = SomeClaims c" for body c
      by (rule call) (use that in \<open>auto simp: CredentialsUpdatePassword\<close>)
    show ?thesis unfolding CredentialsUpdatePassword serve_endpoint.simps rest_CredentialsUpdatePassword_def
      by (intro rules [unfolded CredentialsUpdatePassword] c [unfolded change_of_def CredentialsUpdatePassword])
  next
    case CredentialsResetPassword
    have c: "moves (asked_password A rq e ctx) (core_CredentialsUpdatePassword (app_env A) (reset_of body))"
      if "d_resetPassword (app_codecs A) (rq_body rq) = Inr body" for body
      by (rule call) (use that in \<open>auto simp: CredentialsResetPassword\<close>)
    show ?thesis unfolding CredentialsResetPassword serve_endpoint.simps rest_CredentialsResetPassword_def
      by (intro rules [unfolded CredentialsResetPassword] c [unfolded reset_of_def CredentialsResetPassword])
  qed (auto intro: movesI)
qed

lemma password_routes:
  "find_route m path = Some (Some [p], CredentialsUpdatePassword) \<Longrightarrow>
     (m, path, p) = (PATCH, ''/v2/credentials/password'', ''credentials:password:patch'')"
  "find_route m path = Some (Some [p], CredentialsResetPassword) \<Longrightarrow>
     (m, path, p) = (PUT, ''/v2/credentials/password'', ''credentials:password:reset'')"
  by (drule find_route_entry, simp add: routes_listed)+

text \<open>What a change of password shows of its proof, for each way of giving one.\<close>

lemma current_proof:
  assumes "password_changed E q d row d'" "cup_ShortCode q = ''''"
  shows "\<exists>old. by_id (cup_UserID q) (credentials d) = Some old \<and> cup_CurrentPassword q \<noteq> '''' \<and>
      CompareArgon2 (x_idkey E) (x_argon_version E) (cup_CurrentPassword q) (c_password old) = Ret ()"
    and "\<exists>new. by_id (cup_UserID q) (credentials d') = Some new \<and> generated_hash E (cup_Password q) (c_password new)"
  using assms unfolding password_changed_def proven_def by auto

lemma code_proof:
  assumes "password_changed E q d row d'" "cup_CurrentPassword q = ''''"
  shows "\<exists>clock code. find_active (x_uuid_string E (cup_UserID q), ShortCodeUsageResetPassword) clock
        (short_codes d) = Some code \<and>
      CompareArgon2 (x_idkey E) (x_argon_version E) (cup_ShortCode q) (s_code code) = Ret ()"
    and "\<forall>now. find_active (x_uuid_string E (cup_UserID q), ShortCodeUsageResetPassword) now (short_codes d') = None"
    and "\<exists>new. by_id (cup_UserID q) (credentials d') = Some new \<and> generated_hash E (cup_Password q) (c_password new)"
proof -
  from assms(1) obtain enc now d1 where
    c: "generated_hash E (cup_Password q) enc" "proven E q d d1"
      "account_updated (cup_UserID q) (set_password enc now) d1 d'"
      "by_id (cup_UserID q) (credentials d') = Some row" "c_password row = enc"
    unfolding password_changed_def by blast
  from c(2) assms(2) have code: "cup_ShortCode q \<noteq> ''''" by (auto simp: proven_def)
  have "short_codes d' = short_codes d1" using c(3) by (simp add: account_updated_def)
  with c(2) code
  show "\<exists>clock code. find_active (x_uuid_string E (cup_UserID q), ShortCodeUsageResetPassword) clock
        (short_codes d) = Some code \<and>
      CompareArgon2 (x_idkey E) (x_argon_version E) (cup_ShortCode q) (s_code code) = Ret ()"
    and "\<forall>now. find_active (x_uuid_string E (cup_UserID q), ShortCodeUsageResetPassword) now (short_codes d') = None"
    by (simp_all add: proven_def)
  show "\<exists>new. by_id (cup_UserID q) (credentials d') = Some new \<and> generated_hash E (cup_Password q) (c_password new)"
    using c(1,4,5) by blast
qed

section \<open>Every request is answered\<close>

named_theorems answer_intros "programs that end with a reply of a given type or a panic, never with an error"

definition answers :: "reply set \<Rightarrow> reply io \<Rightarrow> bool" where
  "answers S m \<longleftrightarrow> (\<forall>w. case fst (m w) of Ret rp \<Rightarrow> rp \<in> S | Fail e \<Rightarrow> False | Panic p \<Rightarrow> True)"

text \<open>What \<open>httpf.HandleError\<close> answers: one of some statuses, with the body of an error.\<close>

definition error_replies :: "nat set \<Rightarrow> reply set" where
  "error_replies ns = (\<lambda>n. Reply n ErrorBody) ` ns"

lemma error_replies_simps [simp]:
  "Reply n ErrorBody \<in> error_replies ns \<longleftrightarrow> n \<in> ns" "Reply n NoBody \<notin> error_replies ns"
  "error_replies ns \<subseteq> error_replies ms \<longleftrightarrow> ns \<subseteq> ms"
  by (auto simp: error_replies_def)

definition map_statuses :: "err_map \<Rightarrow> nat set" where
  "map_statuses m = (if \<exists>n. (None, n) \<in> set m then {} else {500}) \<union> snd ` set m"

lemma status_in_map: "status_contract H \<Longrightarrow> h_status H m e \<in> map_statuses m"
proof (cases "hits m e = {}")
  case True
  assume "status_contract H"
  note c = status_cases [OF this, of m e]
  show ?thesis
  proof (cases "\<exists>n. (None, n) \<in> set m")
    case none: True
    then have "(None, h_status H m e) \<in> set m" using c(2) True by blast
    then show ?thesis unfolding map_statuses_def by force
  qed (use c(3) True in \<open>auto simp: map_statuses_def\<close>)
next
  case False
  assume "status_contract H"
  from status_cases(1) [OF this False] show ?thesis unfolding hits_def map_statuses_def by force
qed

lemma error_in_map:
  assumes "status_contract H" "error_replies (map_statuses m) \<subseteq> S"
  shows "error_reply H m e \<in> S"
  using status_in_map [OF assms(1), of m e] assms(2) by (auto simp: error_reply_def error_replies_def)

lemma answers_ret [answer_intros]: "rp \<in> S \<Longrightarrow> answers S (ret rp)" "answers S (lift (Panic p))"
  by (simp_all add: answers_def ret_def lift_def)

lemma answers_error [answer_intros]:
  "status_contract H \<Longrightarrow> error_replies (map_statuses m) \<subseteq> S \<Longrightarrow> answers S (handle_error H m e)"
  unfolding handle_error_def by (intro answers_ret error_in_map)

lemma answers_respond [answer_intros]:
  assumes "status_contract H" "error_replies (map_statuses m) \<subseteq> S" "\<And>a. f a \<in> S"
  shows "answers S (respond H m svc f)"
  using assms error_in_map [OF assms(1,2)]
  by (auto simp: answers_def respond_run split: prod.splits outcome.splits)

lemma answers_accept [answer_intros]:
  assumes "status_contract H" "accepted \<in> S" "error_replies {422, 500} \<subseteq> S"
  shows "answers S (accept_silently H s cs)"
proof -
  have "error_reply H [(Some ErrInvalidRequest, 422)] e \<in> S" for e
    by (rule error_in_map [OF assms(1)]) (use assms(3) in \<open>simp add: map_statuses_def insert_commute\<close>)
  then show ?thesis using assms(2)
    by (auto simp: answers_def accept_silently_def prog_simps handle_error_def
        split: prod.splits outcome.splits)
qed

lemma answers_request [answer_intros]:
  assumes "status_contract H" "error_replies {400} \<subseteq> S" "\<And>r. answers S (f r)"
  shows "answers S (with_request H decoded f)"
proof -
  have "error_replies (map_statuses [(None, 400)]) \<subseteq> S" using assms(2) by (simp add: map_statuses_def)
  from answers_error [OF assms(1) this] show ?thesis
    using assms(3) by (simp add: with_request_def split: sum.split)
qed

lemma answers_claims [answer_intros]:
  "status_contract H \<Longrightarrow> error_replies (map_statuses m) \<subseteq> S \<Longrightarrow> (\<And>c. answers S (g c)) \<Longrightarrow>
    answers S (with_claims H m ctx g)"
  by (cases "MustGetClaimsContext ctx") (simp_all add: with_claims_def answers_ret answers_error)

text \<open>The type of an endpoint: the replies it gives to a request it carries out, and the statuses of its errors,
  500 (an error without an entry) left out.\<close>

fun success_replies :: "endpoint \<Rightarrow> reply set" where
  "success_replies Ping = {Reply 200 (TextBody ''pong'')}"
| "success_replies Health =
     {Reply 200 (HealthBody [(''client:postgres'', pg), (''client:smtp'', smtp), (''api:jsonKeys'', keys)]) | pg smtp keys.
       True}"
| "success_replies ClaimsGet = range (\<lambda>c. Reply 200 (ClaimsBody c))"
| "success_replies TokenCreate = range (\<lambda>t. Reply 200 (TokenBody t))"
| "success_replies TokenCreateAnon = range (\<lambda>t. Reply 200 (TokenBody t))"
| "success_replies TokenRefresh = range (\<lambda>t. Reply 200 (TokenBody t))"
| "success_replies CredentialsGet = range (\<lambda>c. Reply 200 (CredentialsBody c))"
| "success_replies CredentialsExist = {Reply 204 NoBody, Reply 404 (TextBody ''Not Found'')}"
| "success_replies CredentialsList = range (\<lambda>cs. Reply 200 (ListBody cs))"
| "success_replies CredentialsCreate = range (\<lambda>t. Reply 200 (TokenBody t))"
| "success_replies CredentialsUpdateEmail = range (\<lambda>c. Reply 200 (CredentialsBody c))"
| "success_replies CredentialsUpdatePassword = range (\<lambda>c. Reply 200 (CredentialsBody c))"
| "success_replies CredentialsResetPassword = range (\<lambda>c. Reply 200 (CredentialsBody c))"
| "success_replies CredentialsUpdateRole = range (\<lambda>c. Reply 200 (CredentialsBody c))"
| "success_replies ShortCodeCreateRegister = {Reply 202 NoBody}"
| "success_replies ShortCodeCreateEmailUpdate = {Reply 202 NoBody}"
| "success_replies ShortCodeCreatePasswordReset = {Reply 202 NoBody}"

fun endpoint_errors :: "endpoint \<Rightarrow> nat set" where
  "endpoint_errors Ping = {}"
| "endpoint_errors Health = {}"
| "endpoint_errors ClaimsGet = {403}"
| "endpoint_errors TokenCreate = {400, 401, 422}"
| "endpoint_errors TokenCreateAnon = {}"
| "endpoint_errors TokenRefresh = {400, 401, 403, 422}"
| "endpoint_errors CredentialsGet = {400, 404, 422}"
| "endpoint_errors CredentialsExist = {400, 422}"
| "endpoint_errors CredentialsList = {400, 422}"
| "endpoint_errors CredentialsCreate = {400, 403, 409, 422}"
| "endpoint_errors CredentialsUpdateEmail = {400, 403, 404, 409, 422}"
| "endpoint_errors CredentialsUpdatePassword = {400, 403, 404, 422}"
| "endpoint_errors CredentialsResetPassword = {400, 403, 422}"
| "endpoint_errors CredentialsUpdateRole = {400, 403, 404, 422}"
| "endpoint_errors ShortCodeCreateRegister = {400, 422}"
| "endpoint_errors ShortCodeCreateEmailUpdate = {400, 422}"
| "endpoint_errors ShortCodeCreatePasswordReset = {400, 422}"

lemmas error_maps = token_create_map_def token_refresh_map_def credentials_create_map_def credentials_get_map_def
  reset_password_map_def update_email_map_def update_password_map_def update_role_map_def

lemma answers_Health: "success_replies Health \<subseteq> S \<Longrightarrow> answers S (rest_Health E p s j)"
  by (auto simp: answers_def rest_Health_def reportPostgres_def reportSmtp_def reportJsonKeys_def andThen_def ret_def
      split: option.splits prod.splits)

lemma answers_endpoint:
  assumes "status_contract (app_http A)"
  shows "answers (success_replies e \<union> error_replies (insert 500 (endpoint_errors e))) (serve_endpoint A rq e ctx)"
proof (cases "e = Health")
  case True
  then show ?thesis using answers_Health [of "success_replies Health \<union> error_replies (insert 500 (endpoint_errors Health))"]
    by simp
next
  case False
  then show ?thesis
    by (cases e; simp only: serve_endpoint.simps handler_defs; (intro answer_intros assms)?;
        (auto simp: error_replies_def map_statuses_def error_maps accepted_def split: if_splits; fail)?; simp?)
qed

lemma answers_mono: "answers S m \<Longrightarrow> S \<subseteq> T \<Longrightarrow> answers T m"
  unfolding answers_def by (auto split: outcome.splits)

lemma answers_Middleware:
  assumes "status_contract H" "\<And>ctx. answers S (next ctx)" "error_replies {401, 403, 500} \<subseteq> S"
  shows "answers S (Middleware E H perms required next token ctx)"
  unfolding answers_def
proof (intro allI)
  fix w
  have m: "Reply (h_status H [(Some ErrInvalidSignature, 401)] e) ErrorBody \<in> S" for e
    using status_in_map [OF assms(1), of "[(Some ErrInvalidSignature, 401)]" e] assms(3)
    by (auto simp: map_statuses_def error_replies_def)
  have s: "Reply n ErrorBody \<in> S" if "n \<in> {401, 403, 500}" for n
    using assms(3) that by (auto simp: error_replies_def)
  show "case fst (Middleware E H perms required next token ctx w) of
      Ret rp \<Rightarrow> rp \<in> S | Fail e \<Rightarrow> False | Panic p \<Rightarrow> True"
    using assms(2) m s unfolding answers_def
    by (cases rule: Middleware_cases [of token required E H perms "next" ctx w])
      (simp_all add: handle_error_def error_reply_def status_default [OF assms(1)] split: role_check.split)
qed

end
