(* ===== verification/ServerProperties.thy ===== *)
theory ServerProperties
  imports ErrorAnswers Reachability
begin

text \<open>
  Properties of the server as a whole: who may change what, the abstract specification it refines, the
  access matrix, and the answers it gives. Each is applied to requests on the sample server.
\<close>

section \<open>Who may do what\<close>

text \<open>C1: A request changes the tables only on a route that needs a permission, carrying a bearer token
  the key service vouches for with a role that grants the permission, and only in the way the contract of its
  endpoint allows; every other request, whatever its content, leaves the tables as they were.\<close>

theorem changes_authorised:
  assumes "environment_ok (app_env A)" "service_ok (db w)" "\<not> in_tx w" "dispatch A perms rq w = (r, w')"
    and "db w' \<noteq> db w"
  shows "\<exists>p e c tok. find_route (rq_method rq) (rq_path rq) = Some (Some [p], e) \<and>
    bearer (rq_authorization rq) tok \<and> x_verify_access (app_env A) (tick w) False tok = Inr c \<and>
    grants perms [p] (Roles c) \<and> allowed (app_env A) e (SomeClaims c) (db w) (db w')"
  using dispatch_result [OF assms(1-4)] assms(5) unfolding authorised_def admitted_def by blast

text \<open>C2: The server refines the abstract account specification: whatever requests arrive, in whatever
  order, the tables stay consistent, no transaction stays open, and the accounts move by steps of
  \<open>account_step\<close> only: a new ordinary user under a fresh identifier and address, a new address or
  password of one account, or a change of role within the ranks.\<close>

theorem requests_refine_accounts:
  assumes "reaches A perms w v" "environment_ok (app_env A)" "service_ok (db w)" "\<not> in_tx w"
  shows "service_ok (db v) \<and> \<not> in_tx v \<and> account_step\<^sup>*\<^sup>* (accounts_of (db w)) (accounts_of (db v))"
  using assms by (rule reaches_inv)

text \<open>C15: An account keeps its identifier and creation date for ever, and a super-admin stays super-admin:
  no sequence of requests removes an account or takes the top role away.\<close>

theorem accounts_persist:
  assumes "reaches A perms w v" "environment_ok (app_env A)" "service_ok (db w)" "\<not> in_tx w"
    "by_id i (credentials (db w)) = Some row"
  shows "\<exists>row'. by_id i (credentials (db v)) = Some row' \<and> c_id row' = c_id row \<and>
    c_created_at row' = c_created_at row \<and> (c_role row = RoleSuperAdmin \<longrightarrow> c_role row' = RoleSuperAdmin)"
proof -
  have steps: "account_step\<^sup>*\<^sup>* (accounts_of (db w)) (accounts_of (db v))"
    using reaches_inv [OF assms(1-4)] by blast
  have row: "accounts_of (db w) i = Some row" using assms(5) by (simp add: accounts_of_def)
  from account_steps_identity [OF steps row] account_steps_top [OF steps row]
  show ?thesis by (auto simp: accounts_of_def)
qed

text \<open>C16: No escalation through the API: if no account outranks \<open>n\<close> (at least the rank of a user), none
  ever will, whatever requests are sent. Without a super-admin in the database, none appears.\<close>

theorem no_escalation:
  assumes "reaches A perms w v" "environment_ok (app_env A)" "service_ok (db w)" "\<not> in_tx w"
    "rank RoleUser \<le> n" "\<forall>row\<in>set (credentials (db w)). rank (c_role row) \<le> n"
  shows "\<forall>row\<in>set (credentials (db v)). rank (c_role row) \<le> n"
proof
  fix row assume row: "row \<in> set (credentials (db v))"
  have inv: "service_ok (db v)" and steps: "account_step\<^sup>*\<^sup>* (accounts_of (db w)) (accounts_of (db v))"
    using reaches_inv [OF assms(1-4)] by blast+
  have rows: "accounts_of d i = Some r \<longleftrightarrow> r \<in> set (credentials d) \<and> c_id r = i" if "service_ok d" for d i r
    using service_okD(1) [OF that] by (simp add: accounts_of_def accounts_ok_def credentials_ok_def by_id_Some)
  have "\<forall>i r. accounts_of (db v) i = Some r \<longrightarrow> rank (c_role r) \<le> n"
    using assms(5,6) rows [OF assms(3)] by (intro account_steps_bound [OF steps]) (simp_all add: rank_roles)
  then show "rank (c_role row) \<le> n" using rows [OF inv] row by blast
qed

text \<open>C3: The role of an account changes only by a role request whose token carries the super-admin role,
  made by another account that is at least as high as the new role and outranks the old one or the
  target's promotion stays within its own rank.\<close>

theorem role_change_needs_superadmin:
  assumes "environment_ok (app_env A)" "service_ok (db w)" "\<not> in_tx w" "dispatch A perms rq w = (r, w')"
    "startup A = Ret perms" "iteration_order (h_order (app_http A))"
    "by_id i (credentials (db w)) = Some old" "by_id i (credentials (db w')) = Some new"
    "c_role new \<noteq> c_role old"
  shows "\<exists>tok c actor. (rq_method rq, rq_path rq) = (PATCH, ''/v2/credentials/role'') \<and>
    bearer (rq_authorization rq) tok \<and> x_verify_access (app_env A) (tick w) False tok = Inr c \<and>
    RoleSuperAdmin \<in> set (Roles c) \<and>
    by_id (from_ptr (UserID c)) (credentials (db w)) = Some actor \<and> from_ptr (UserID c) \<noteq> i \<and>
    rank (c_role new) \<le> rank (c_role actor) \<and>
    (rank (c_role old) < rank (c_role actor) \<or> rank (c_role old) < rank (c_role new))"
proof -
  from assms(7-9) have changed: "db w' \<noteq> db w" by auto
  obtain p e c tok where
    route: "find_route (rq_method rq) (rq_path rq) = Some (Some [p], e)" and
    tok: "bearer (rq_authorization rq) tok" "x_verify_access (app_env A) (tick w) False tok = Inr c" and
    g: "grants perms [p] (Roles c)" and al: "allowed (app_env A) e (SomeClaims c) (db w) (db w')"
    by (rule changes_authorised0 [OF assms(1-4) changed])
  from allowed_role [OF al, unfolded accounts_of_def, OF assms(7,8,9)] obtain c' q where
    e: "e = CredentialsUpdateRole" "SomeClaims c = SomeClaims c'" "cur_CurrentUserID q = from_ptr (UserID c')"
    "cur_TargetUserID q = i" "role_change q (db w) (db w')" .
  from route_ranked [OF route] e(1) have p: "granted_from p = Some 3" by simp
  from g [unfolded startup_grants [OF assms(5,6) p]] obtain role where
    "role \<in> set (Roles c)" "role \<in> set role_check_list" "3 \<le> rank role" by blast
  then have super: "RoleSuperAdmin \<in> set (Roles c)" using top_rank by blast
  have acting: "cur_CurrentUserID q = from_ptr (UserID c)" using e(2,3) by simp
  obtain target actor now where ch: "by_id i (credentials (db w)) = Some target"
    "by_id (from_ptr (UserID c)) (credentials (db w)) = Some actor" "from_ptr (UserID c) \<noteq> i"
    "rank (c_role target) < rank (c_role actor) \<or> rank (c_role target) < rank (cur_Role q)"
    "rank (cur_Role q) \<le> rank (c_role actor)"
    "account_updated i (set_role (cur_Role q) now) (db w) (db w')"
    using e(5) unfolding role_change_def e(4) acting by blast
  have old: "target = old" using ch(1) assms(7) by simp
  moreover have new: "c_role new = cur_Role q" using ch(1,6) assms(8) by (auto simp: account_updated_def)
  moreover have "(rq_method rq, rq_path rq) = (PATCH, ''/v2/credentials/role'')"
    using role_route [OF route [unfolded e(1)]] by simp
  ultimately show ?thesis using ch(2-5) tok super
    by (intro exI [of _ tok] exI [of _ c] exI [of _ actor] conjI) simp_all
qed

text \<open>C4: The password of an account changes only by a request to one of the two password endpoints, admitted on
  its permission: a change of the account the token names, whose body gives the current password of that account
  and the password that is then stored; or a reset whose body names the account and gives the plain text of a
  code that was active for it under the reset usage, and that is spent by it.\<close>

theorem password_change_needs_proof:
  assumes "environment_ok (app_env A)" "service_ok (db w)" "\<not> in_tx w" "dispatch A perms rq w = (r, w')"
    "by_id i (credentials (db w)) = Some old" "by_id i (credentials (db w')) = Some new"
    "c_password new \<noteq> c_password old"
  shows "\<exists>tok c. bearer (rq_authorization rq) tok \<and> x_verify_access (app_env A) (tick w) False tok = Inr c \<and>
    ((rq_method rq, rq_path rq) = (PATCH, ''/v2/credentials/password'') \<and>
     grants perms [''credentials:password:patch''] (Roles c) \<and> from_ptr (UserID c) = i \<and>
     (\<exists>body. d_updatePassword (app_codecs A) (rq_body rq) = Inr body \<and> hup_CurrentPassword body \<noteq> '''' \<and>
        CompareArgon2 (x_idkey (app_env A)) (x_argon_version (app_env A)) (hup_CurrentPassword body) (c_password old) =
          Ret () \<and>
        generated_hash (app_env A) (hup_Password body) (c_password new)) \<or>
     (rq_method rq, rq_path rq) = (PUT, ''/v2/credentials/password'') \<and>
     grants perms [''credentials:password:reset''] (Roles c) \<and>
     (\<exists>body clock code. d_resetPassword (app_codecs A) (rq_body rq) = Inr body \<and> hrp_UserID body = i \<and>
        find_active (x_uuid_string (app_env A) i, ShortCodeUsageResetPassword) clock (short_codes (db w)) = Some code \<and>
        CompareArgon2 (x_idkey (app_env A)) (x_argon_version (app_env A)) (hrp_ShortCode body) (s_code code) = Ret () \<and>
        generated_hash (app_env A) (hrp_Password body) (c_password new)) \<and>
     (\<forall>now. find_active (x_uuid_string (app_env A) i, ShortCodeUsageResetPassword) now (short_codes (db w')) = None))"
proof -
  from assms(5-7) have changed: "db w' \<noteq> db w" by auto
  note rows = change_rows(3) [unfolded accounts_of_def, OF assms(5,6)]
  obtain p e c0 where route: "find_route (rq_method rq) (rq_path rq) = Some (Some [p], e)"
    and al: "allowed (app_env A) e (SomeClaims c0) (db w) (db w')"
    by (rule changes_authorised0 [OF assms(1-4) changed])
  from dispatch_moves [OF route assms(2-4) endpoint_asked [OF assms(1)]] changed
  obtain c tok where tok: "bearer (rq_authorization rq) tok" "x_verify_access (app_env A) (tick w) False tok = Inr c"
    "grants perms [p] (Roles c)" and asked: "asked_password A rq e (SomeClaims c) (db w) (db w')"
    unfolding admitted_def by blast
  have "e = CredentialsUpdatePassword \<or> e = CredentialsResetPassword"
    by (rule allowed_password [OF al, unfolded accounts_of_def, OF assms(5,6,7)]) blast+
  then show ?thesis
  proof
    assume e: "e = CredentialsUpdatePassword"
    obtain body row where b: "d_updatePassword (app_codecs A) (rq_body rq) = Inr body"
      "password_changed (app_env A) (change_of body c) (db w) row (db w')"
      using asked changed by (auto simp: e)
    have i: "from_ptr (UserID c) = i" using rows [OF b(2)] assms(7) by (auto simp: change_of_def)
    from current_proof [OF b(2)] assms(5,6) i password_routes(1) [OF route [unfolded e]] tok b(1) show ?thesis
      by (intro exI [of _ tok] exI [of _ c] conjI disjI1) (auto simp: change_of_def)
  next
    assume e: "e = CredentialsResetPassword"
    obtain body row where b: "d_resetPassword (app_codecs A) (rq_body rq) = Inr body"
      "password_changed (app_env A) (reset_of body) (db w) row (db w')"
      using asked changed by (auto simp: e)
    have i: "hrp_UserID body = i" using rows [OF b(2)] assms(7) by (auto simp: reset_of_def)
    from code_proof [OF b(2)] assms(6) i password_routes(2) [OF route [unfolded e]] tok b(1) show ?thesis
      by (intro exI [of _ tok] exI [of _ c] conjI disjI2) (auto simp: reset_of_def)
  qed
qed

text \<open>C20: The access matrix of the API. On a route that requires a permission, a verified token whose roles
  are known reaches the handler exactly when one of its roles has the rank the endpoint requires (anonymous 0,
  user 1, admin 2, super-admin 3); otherwise the answer is 403 and the tables are not touched.\<close>

theorem route_access:
  assumes "startup A = Ret perms" "iteration_order (h_order (app_http A))" "status_contract (app_http A)"
    "find_route (rq_method rq) (rq_path rq) = Some (required, e)" "required_rank e = Some n"
    "bearer (rq_authorization rq) tok" "x_verify_access (app_env A) (tick w) False tok = Inr c"
    "set (Roles c) \<subseteq> set role_check_list"
  shows "dispatch A perms rq w =
    (if \<exists>role\<in>set (Roles c). n \<le> rank role
     then Recoverer (serve_endpoint A rq e (SomeClaims c)) (w\<lparr>tick := Suc (tick w)\<rparr>)
     else (Ret (Reply 403 ErrorBody), w\<lparr>tick := Suc (tick w)\<rparr>))"
proof -
  obtain p where p: "required = Some [p]" "granted_from p = Some n"
    by (rule ranked_route [OF assms(4,5)])
  have "check_roles perms [p] (Roles c) = (if grants perms [p] (Roles c) then Allowed else Denied)"
    using assms(8) startup_knows [OF assms(1,2)] by (intro check_roles_known) blast
  also have "grants perms [p] (Roles c) \<longleftrightarrow> (\<exists>role\<in>set (Roles c). n \<le> rank role)"
    using startup_grants [OF assms(1,2) p(2)] assms(8) by blast
  finally have check: "check_roles perms [p] (Roles c) =
      (if \<exists>role\<in>set (Roles c). n \<le> rank role then Allowed else Denied)" .
  have M: "guarded A perms rq (Some [p]) (serve_endpoint A rq e) NoValue w =
      (case check_roles perms [p] (Roles c) of
         UnknownRole role \<Rightarrow> handle_error (app_http A) [(None, 500)] (Wrap ''in token'' (Sentinel ErrUnknownRole))
       | Denied \<Rightarrow> handle_error (app_http A) [(None, 403)] invalid_auth
       | Allowed \<Rightarrow> serve_endpoint A rq e (SomeClaims c)) (w\<lparr>tick := Suc (tick w)\<rparr>)"
    unfolding guarded_def using Middleware_checked [OF assms(6,7)] by simp
  show ?thesis
    unfolding dispatch_guarded [OF assms(4)] Recoverer_run p(1) M check
    by (simp add: handle_error_def error_reply_def status_default [OF assms(3)])
qed

text \<open>C25: A protected route answers 401 to a request without a bearer token, before anything else is asked;
  a token the key service rejects is answered with 401 when its signature is invalid and with 500 otherwise.
  The handler does not run in either case.\<close>

theorem refused_at_the_door:
  assumes "status_contract (app_http A)" "find_route (rq_method rq) (rq_path rq) = Some (required, e)"
    "required_rank e = Some n"
  shows "((\<nexists>tok. bearer (rq_authorization rq) tok) \<longrightarrow> dispatch A perms rq w = (Ret (Reply 401 ErrorBody), w)) \<and>
    (\<forall>tok err. bearer (rq_authorization rq) tok \<longrightarrow>
       x_verify_access (app_env A) (tick w) False tok = Inl err \<longrightarrow>
       dispatch A perms rq w =
         (Ret (Reply (if errors_is err ErrInvalidSignature then 401 else 500) ErrorBody),
          w\<lparr>tick := Suc (tick w)\<rparr>))"
proof -
  obtain p where p: "required = Some [p]" by (rule ranked_route [OF assms(2,3)])
  have s: "h_status (app_http A) [(Some ErrInvalidSignature, 401)] err =
      (if errors_is err ErrInvalidSignature then 401 else 500)" for err
    using status_hit [OF assms(1), of ErrInvalidSignature 401 "[(Some ErrInvalidSignature, 401)]" err]
      status_miss [OF assms(1), of "[(Some ErrInvalidSignature, 401)]" err]
    by (auto simp: errors_is_sentinels)
  show ?thesis
    unfolding dispatch_guarded [OF assms(2)] Recoverer_run guarded_def p
    using Middleware_refused [of "[p]" "rq_authorization rq"] Middleware_unverified [of "rq_authorization rq"]
    by (simp add: handle_error_def error_reply_def status_default [OF assms(1)] s)
qed

text \<open>C26: Every request is answered, whatever fails, and the reply has the type of its endpoint: a status of
  success with the body the endpoint documents, an error body under one of the endpoint's statuses, 401 or 403
  from the middleware where the route is guarded, 500 for any other error, or an empty 500 for a panic. Without
  a route the answer is 200 to a preflight, 404 on a path no method is routed on and 405 otherwise, and nothing
  is touched.\<close>

theorem every_request_answered:
  assumes "status_contract (app_http A)"
  shows "\<exists>reply w'. dispatch A perms rq w = (Ret reply, w') \<and>
    (case find_route (rq_method rq) (rq_path rq) of
       None \<Rightarrow> w' = w \<and> reply =
         (if preflight rq then Reply 200 NoBody
          else if known_method A (rq_method rq) \<and> (\<forall>m. find_route m (rq_path rq) = None)
            then Reply 404 (TextBody ''404 page not found'')
          else Reply 405 NoBody)
     | Some (required, e) \<Rightarrow> reply \<in> success_replies e \<union> {Reply 500 NoBody} \<union>
         error_replies (insert 500 (endpoint_errors e) \<union> (if required = None then {} else {401, 403})))"
proof (cases "find_route (rq_method rq) (rq_path rq)")
  case None
  show ?thesis unfolding None dispatch_unrouted [OF None] by simp
next
  case (Some route)
  obtain required e where route: "route = (required, e)" by (cases route)
  let ?S = "success_replies e \<union> error_replies (insert 500 (endpoint_errors e) \<union> (if required = None then {} else {401, 403}))"
  let ?g = "guarded A perms rq required (serve_endpoint A rq e) NoValue"
  have "answers ?S (serve_endpoint A rq e ctx)" for ctx
    by (rule answers_mono [OF answers_endpoint [OF assms]]) (auto simp: error_replies_def)
  then have a: "answers ?S ?g"
    unfolding guarded_def by (auto intro!: answers_Middleware assms simp: error_replies_def split: option.splits)
  obtain r w' where g: "?g w = (r, w')" by (cases "?g w")
  have "case r of Ret rp \<Rightarrow> rp \<in> ?S | Fail e \<Rightarrow> False | Panic p \<Rightarrow> True"
    using a g unfolding answers_def by (metis fst_conv)
  then show ?thesis
    using g Some route
    by (cases r) (auto simp: dispatch_guarded [OF Some [unfolded route]] Recoverer_run)
qed

text \<open>C0: A code that expires while it is redeemed, after the statement that selects it and before the service
  compares its expiry with its own clock, is an error whose answer depends on the endpoint: the reset answers
  403, as its error map says, but registration and the change of address answer 500. The tables stay as they
  are in the three cases.\<close>

theorem expired_while_redeemed:
  assumes "reliable E" "status_contract H"
  shows "(expires_meanwhile E (Suc (tick w)) (short_codes (db w)) (hcc_Email reg) ShortCodeUsageRegister \<and>
      struct_valid E (credentials_create_struct
        \<lparr>cc_Email = hcc_Email reg, cc_Password = hcc_Password reg, cc_ShortCode = hcc_ShortCode reg\<rparr>) \<longrightarrow>
      (\<exists>v. rest_CredentialsCreate E H (Inr reg) w = (Ret (Reply 500 ErrorBody), v) \<and> db v = db w)) \<and>
    (expires_meanwhile E (tick w) (short_codes (db w)) (x_uuid_string E (hue_UserID em)) ShortCodeUsageValidateEmail \<and>
      struct_valid E [(FStr (hue_ShortCode em), [Required, Max 1024])] \<and>
      struct_valid E (consume_struct \<lparr>sco_Usage = ShortCodeUsageValidateEmail,
        sco_Target = x_uuid_string E (hue_UserID em), sco_Code = hue_ShortCode em\<rparr>) \<longrightarrow>
      (\<exists>v. rest_CredentialsUpdateEmail E H (Inr em) w = (Ret (Reply 500 ErrorBody), v) \<and> db v = db w)) \<and>
    (expires_meanwhile E (Suc (tick w)) (short_codes (db w)) (x_uuid_string E (hrp_UserID rs)) ShortCodeUsageResetPassword \<and>
      hrp_ShortCode rs \<noteq> '''' \<and>
      struct_valid E (update_password_struct \<lparr>cup_Password = hrp_Password rs,
        cup_CurrentPassword = '''', cup_ShortCode = hrp_ShortCode rs, cup_UserID = hrp_UserID rs\<rparr>) \<and>
      struct_valid E (consume_struct \<lparr>sco_Usage = ShortCodeUsageResetPassword,
        sco_Target = x_uuid_string E (hrp_UserID rs), sco_Code = hrp_ShortCode rs\<rparr>) \<longrightarrow>
      (\<exists>v. rest_CredentialsResetPassword E H (Inr rs) w = (Ret (Reply 403 ErrorBody), v) \<and> db v = db w))"
  using register_expired_answer [OF assms, of w reg] email_expired_answer [OF assms, of w em]
    reset_expired_answer [OF assms, of w rs] by metis


section \<open>Concrete requests\<close>

definition sample_claims :: "nat \<Rightarrow> string \<Rightarrow> AccessTokenClaims" where
  "sample_claims n role = \<lparr>UserID = Some (word_of_nat n), Roles = [role], RefreshTokenID = ''j0''\<rparr>"

definition sample_request :: "http_method \<Rightarrow> string \<Rightarrow> AccessTokenClaims \<Rightarrow> string \<Rightarrow> request" where
  "sample_request m path c b =
     \<lparr>rq_method = m, rq_path = path, rq_requested_method = '''', rq_authorization = ''Bearer A'' @ enc_claims c, rq_query = '''', rq_body = b\<rparr>"

lemma sample_claims_simps [simp]:
  "UserID (sample_claims n role) = Some (word_of_nat n)" "Roles (sample_claims n role) = [role]"
  by (simp_all add: sample_claims_def)

lemma sample_request_simps [simp]:
  "rq_method (sample_request m path c b) = m" "rq_path (sample_request m path c b) = path"
  "rq_body (sample_request m path c b) = b"
  by (simp_all add: sample_request_def)

lemma enc_list_free: "\<forall>s\<in>set ss. CHR '' '' \<notin> set s \<Longrightarrow> CHR '' '' \<notin> set (enc_list ss)"
  by (induction ss) (auto simp: enc_str_def)

lemma sample_bearer:
  assumes "role \<in> set role_check_list"
  shows "bearer (rq_authorization (sample_request m path (sample_claims n role) b))
    (CHR ''A'' # enc_claims (sample_claims n role))"
proof -
  have "CHR '' '' \<notin> set role" using assms by (auto simp: role_check_list_def)
  moreover have "CHR '' '' \<notin> set (enc_uuid u)" for u
    using show_nat_digits [of "CHR '' ''" "unat u"] by (auto simp: enc_uuid_def is_digit_def)
  ultimately have "CHR '' '' \<notin> set (enc_claims (sample_claims n role))"
    unfolding enc_claims_def sample_claims_def by (auto simp: enc_str_def)
  then show ?thesis by (simp add: bearer_def sample_request_def)
qed

lemma sample_verified: "x_verify_access (app_env sample_app) t False (CHR ''A'' # enc_claims c) = Inr c"
  by (simp add: sample_verify_access_def)

lemma sample_order: "iteration_order (h_order (app_http sample_app))"
  by (simp add: sample_http_def iteration_order_def)

lemma sample_startup: obtains perms where "startup sample_app = Ret perms"
  unfolding startup_def by (rule default_granted [OF sample_order]) blast

lemma sample_status_ok: "status_contract (app_http sample_app)"
  by (simp add: sample_http_status)

text \<open>An admitted request runs its handler.\<close>

lemma sample_admitted:
  assumes "startup sample_app = Ret perms" "find_route m path = Some (Some [p], e)" "required_rank e = Some k"
    "role \<in> set role_check_list" "k \<le> rank role"
    "serve_endpoint sample_app (sample_request m path (sample_claims n role) b) e (SomeClaims (sample_claims n role))
       (w\<lparr>tick := Suc (tick w)\<rparr>) = (Ret rp, w')"
  shows "dispatch sample_app perms (sample_request m path (sample_claims n role) b) w = (Ret rp, w')"
proof -
  let ?rq = "sample_request m path (sample_claims n role) b"
  note b = sample_bearer [OF assms(4), of m path n b]
  obtain ps where g: "granted_from p = Some k"
    using route_ranked [OF assms(2)] assms(3) by auto
  have "grants perms [p] (Roles (sample_claims n role))"
    unfolding startup_grants [OF assms(1) sample_order g] using assms(4,5) by simp
  moreover have "\<forall>r\<in>set (Roles (sample_claims n role)). perms r \<noteq> None"
    using startup_knows [OF assms(1) sample_order] assms(4) by simp
  ultimately have "check_roles perms [p] (Roles (sample_claims n role)) = Allowed"
    by (simp only: check_roles_known if_True)
  then have "guarded sample_app perms ?rq (Some [p]) (serve_endpoint sample_app ?rq e) NoValue w = (Ret rp, w')"
    unfolding guarded_def using Middleware_checked [OF b sample_verified] assms(6) by simp
  then show ?thesis
    using dispatch_guarded [of ?rq "Some [p]" e] assms(2) by (simp add: Recoverer_run)
qed

text \<open>The super-admin promotes the user of the sample database to administrator.\<close>

definition promotion :: request where
  "promotion = sample_request PATCH ''/v2/credentials/role'' (sample_claims 11 RoleSuperAdmin)
     (enc_list [enc_uuid 13, RoleAdmin])"

lemma find_sample_routes:
  "find_route PATCH ''/v2/credentials/role'' = Some (Some [''credentials:role:patch''], CredentialsUpdateRole)"
  "find_route PATCH ''/v2/credentials/password'' =
     Some (Some [''credentials:password:patch''], CredentialsUpdatePassword)"
  "find_route GET ''/v2/credentials'' = Some (Some [''credentials:get''], CredentialsGet)"
  "find_route GET ''/v2/credentials/'' = Some (Some [''credentials:get''], CredentialsGet)"
  "find_route DELETE ''/v2/credentials/'' = None"
  by (simp_all add: find_route_def served_at_def router_def below_def)

lemma two_fields: "dec_list 2 (enc_list [a, b]) = [a, b]"
proof -
  have "length [a, b] = 2" by simp
  with dec_enc_list [of "[a, b]"] show ?thesis by (simp only:)
qed

lemma roles_listed [simp]: "RoleAnon \<in> set role_check_list" "RoleUser \<in> set role_check_list"
  "RoleAdmin \<in> set role_check_list" "RoleSuperAdmin \<in> set role_check_list"
  by (simp_all add: role_check_list_def role_names)

lemma promotion_decided: "role_decision \<lparr>cur_TargetUserID = 13, cur_CurrentUserID = 11, cur_Role = RoleAdmin\<rparr>
    sample_accounts = Inr (sample_account 13 ''user@a'' RoleUser)"
  by (simp add: role_decision_def role_check_list_def RoleAdmin_def sample_accounts_def by_id_def sample_account_def
      rank_roles [unfolded RoleUser_def RoleAdmin_def RoleSuperAdmin_def] RoleUser_def RoleSuperAdmin_def)

lemma promotion_run:
  assumes "startup sample_app = Ret perms"
  obtains now rp w' where "dispatch sample_app perms promotion sample_world = (Ret rp, w')"
    "by_id 13 (credentials (db w')) = Some (set_role RoleAdmin now (sample_account 13 ''user@a'' RoleUser))"
    "reply_status rp = 200"
proof -
  let ?rq = "\<lparr>cur_TargetUserID = 13, cur_CurrentUserID = 11, cur_Role = RoleAdmin\<rparr>"
  let ?w = "sample_world\<lparr>tick := Suc (tick sample_world)\<rparr>"
  have ok: "accounts_ok (db ?w)" using sample_accounts_ok by simp
  have r: "RoleUser \<noteq> RoleAdmin" by (simp add: role_names)
  have dec: "role_decision ?rq (credentials (db ?w)) = Inr (sample_account 13 ''user@a'' RoleUser)"
    using promotion_decided by simp
  obtain now w' where c: "core_CredentialsUpdateRole sample ?rq ?w =
      (Ret (to_Credentials (set_role RoleAdmin now (sample_account 13 ''user@a'' RoleUser))), w')"
    "db w' = (db ?w)\<lparr>credentials := update_row 13 (set_role RoleAdmin now) sample_accounts\<rparr>"
    using update_role_run [OF sample_healthy sample_validator ok, of ?rq] r unfolding dec
    by (auto simp: sample_account_def)
  have s: "serve_endpoint sample_app promotion CredentialsUpdateRole (SomeClaims (sample_claims 11 RoleSuperAdmin)) ?w =
      (Ret (Reply 200 (CredentialsBody (loadCredentials (to_Credentials
         (set_role RoleAdmin now (sample_account 13 ''user@a'' RoleUser)))))), w')"
    using c(1) two_fields [of "enc_uuid 13" RoleAdmin]
    by (simp add: promotion_def rest_CredentialsUpdateRole_def with_request_def with_claims_def respond_run
        sample_codecs_def Let_def from_ptr_def del: enc_list.simps)
  show thesis
  proof (rule that)
    show "dispatch sample_app perms promotion sample_world =
      (Ret (Reply 200 (CredentialsBody (loadCredentials (to_Credentials
         (set_role RoleAdmin now (sample_account 13 ''user@a'' RoleUser)))))), w')"
      unfolding promotion_def
      by (rule sample_admitted [OF assms find_sample_routes(1), where k = 3])
        (use s in \<open>simp_all add: promotion_def rank_roles\<close>)
    show "by_id 13 (credentials (db w')) = Some (set_role RoleAdmin now (sample_account 13 ''user@a'' RoleUser))"
      using c(2) by (simp add: by_id_def update_row_def sample_accounts_def sample_account_def)
  qed simp
qed

text \<open>The user of the sample database changes its password.\<close>

definition new_password :: request where
  "new_password = sample_request PATCH ''/v2/credentials/password'' (sample_claims 13 RoleUser)
     (enc_list [''word'', ''pass''])"

lemma sample_user: "by_id 13 sample_accounts = Some (sample_account 13 ''user@a'' RoleUser)"
  by (simp add: by_id_def sample_accounts_def sample_account_def)

lemma sample_password [simp]: "c_password (sample_account n m role) = sample_hash ''pass''"
  by (simp add: sample_account_def)

lemma hash_distinguishes:
  assumes "generated_hash sample ''word'' enc"
  shows "enc \<noteq> sample_hash ''pass''"
proof
  assume e: "enc = sample_hash ''pass''"
  have pc: "idkey_contract sample_idkey" using sample_passwords by (simp add: password_contract_def)
  obtain rs where "GenerateArgon2 sample_idkey 19 (x_num_cpu sample) rs ''word'' Argon2ParamsDefault = Ret enc"
    using assms by (auto simp: generated_hash_def)
  then have "CompareArgon2 sample_idkey 19 ''word'' (sample_hash ''pass'') = Ret ()"
    using compare_own_password [OF pc] e by simp
  moreover have "CompareArgon2 sample_idkey 19 ''word'' (sample_hash ''pass'') \<noteq> Ret ()"
    using compare_generated [OF pc _ sample_generate [of 0 "''pass''"], of "''word''"]
    by (auto simp: sample_idkey_def Argon2ParamsDefault_def)
  ultimately show False by simp
qed

lemma new_password_run:
  assumes "startup sample_app = Ret perms"
  obtains new rp w' where "dispatch sample_app perms new_password sample_world = (Ret rp, w')"
    "by_id 13 (credentials (db w')) = Some new" "c_password new \<noteq> sample_hash ''pass''"
proof -
  let ?rq = "\<lparr>cup_Password = ''word'', cup_CurrentPassword = ''pass'', cup_ShortCode = '''', cup_UserID = 13\<rparr>"
  let ?w = "sample_world\<lparr>tick := Suc (tick sample_world)\<rparr>"
  let ?row = "sample_account 13 ''user@a'' RoleUser"
  have st: "struct_valid sample (update_password_struct ?rq)"
    by (simp add: update_password_struct_def contract_tags [OF sample_validator] rune_count_def)
  obtain enc now w' where c: "core_CredentialsUpdatePassword sample ?rq ?w =
      (Ret (to_Credentials (set_password enc now ?row)), w')"
    and g: "generated_hash sample ''word'' enc"
    and d: "db w' = (db ?w)\<lparr>credentials := update_row 13 (set_password enc now) sample_accounts\<rparr>"
  proof (rule password_run [OF sample_reliable, of ?w ?rq ?row])
  qed (use st sample_accounts_ok sample_user sample_hash_generated in simp_all)
  have s: "serve_endpoint sample_app new_password CredentialsUpdatePassword (SomeClaims (sample_claims 13 RoleUser)) ?w =
      (Ret (Reply 200 (CredentialsBody (loadCredentials (to_Credentials (set_password enc now ?row))))), w')"
    using c two_fields [of "''word''" "''pass''"]
    by (simp add: new_password_def rest_CredentialsUpdatePassword_def with_request_def with_claims_def respond_run
        sample_codecs_def Let_def from_ptr_def del: enc_list.simps)
  show thesis
  proof (rule that)
    show "dispatch sample_app perms new_password sample_world =
      (Ret (Reply 200 (CredentialsBody (loadCredentials (to_Credentials (set_password enc now ?row))))), w')"
      unfolding new_password_def
      by (rule sample_admitted [OF assms find_sample_routes(2), where k = 1])
        (use s in \<open>simp_all add: new_password_def rank_roles\<close>)
    show "by_id 13 (credentials (db w')) = Some (set_password enc now ?row)"
      using d by (simp add: by_id_def update_row_def sample_accounts_def sample_account_def)
  qed (use hash_distinguishes [OF g] in simp)
qed

lemma changes_authorised_witness:
  "\<exists>perms w'. startup sample_app = Ret perms \<and> dispatch sample_app perms promotion sample_world = w' \<and>
     (\<exists>p e c tok. find_route PATCH ''/v2/credentials/role'' = Some (Some [p], e) \<and>
        grants perms [p] (Roles c) \<and> allowed sample e (SomeClaims c) (db sample_world) (db (snd w')))"
proof -
  obtain perms where s: "startup sample_app = Ret perms" by (rule sample_startup)
  obtain now rp w' where p: "dispatch sample_app perms promotion sample_world = (Ret rp, w')"
    "by_id 13 (credentials (db w')) = Some (set_role RoleAdmin now (sample_account 13 ''user@a'' RoleUser))"
    by (rule promotion_run [OF s])
  have "db w' \<noteq> db sample_world"
  proof
    assume "db w' = db sample_world"
    then have "set_role RoleAdmin now (sample_account 13 ''user@a'' RoleUser) = sample_account 13 ''user@a'' RoleUser"
      using p(2) sample_user by simp
    then have "c_role (set_role RoleAdmin now (sample_account 13 ''user@a'' RoleUser)) = RoleUser"
      by (simp add: sample_account_def)
    then show False by (simp add: role_names)
  qed
  with changes_authorised [of sample_app sample_world perms promotion "Ret rp" w'] sample_ok sample_service_ok p(1)
  have "\<exists>p e c tok. find_route (rq_method promotion) (rq_path promotion) = Some (Some [p], e) \<and>
    bearer (rq_authorization promotion) tok \<and> x_verify_access sample 0 False tok = Inr c \<and>
    grants perms [p] (Roles c) \<and> allowed sample e (SomeClaims c) (db sample_world) (db w')" by simp
  then show ?thesis using s p(1) by (auto simp: promotion_def)
qed

lemma requests_refine_accounts_witness:
  "\<exists>perms v. reaches sample_app perms sample_world v \<and> service_ok (db v) \<and>
     account_step\<^sup>*\<^sup>* (accounts_of (db sample_world)) (accounts_of (db v)) \<and>
     map_option c_role (by_id 13 (credentials (db v))) = Some RoleAdmin"
proof -
  obtain perms where s: "startup sample_app = Ret perms" by (rule sample_startup)
  obtain now rp w' where p: "dispatch sample_app perms promotion sample_world = (Ret rp, w')"
    "by_id 13 (credentials (db w')) = Some (set_role RoleAdmin now (sample_account 13 ''user@a'' RoleUser))"
    by (rule promotion_run [OF s])
  have r: "reaches sample_app perms sample_world w'" by (rule reaches.request [OF reaches.start p(1)])
  have "service_ok (db w') \<and> \<not> in_tx w' \<and>
      account_step\<^sup>*\<^sup>* (accounts_of (db sample_world)) (accounts_of (db w'))"
    by (rule requests_refine_accounts [OF r]) (simp_all add: sample_ok sample_service_ok)
  with r p(2) show ?thesis by (intro exI [of _ perms] exI [of _ w']) simp
qed

lemma accounts_persist_witness:
  "\<exists>perms v row. reaches sample_app perms sample_world v \<and> db v \<noteq> db sample_world \<and>
     by_id 11 (credentials (db v)) = Some row \<and> c_role row = RoleSuperAdmin"
proof -
  obtain perms where s: "startup sample_app = Ret perms" by (rule sample_startup)
  obtain new rp w' where p: "dispatch sample_app perms new_password sample_world = (Ret rp, w')"
    "by_id 13 (credentials (db w')) = Some new" "c_password new \<noteq> sample_hash ''pass''"
    by (rule new_password_run [OF s])
  have r: "reaches sample_app perms sample_world w'" by (rule reaches.request [OF reaches.start p(1)])
  have root: "by_id 11 (credentials (db sample_world)) = Some (sample_account 11 ''root@a'' RoleSuperAdmin)"
    by (simp add: by_id_def sample_accounts_def sample_account_def)
  from accounts_persist [OF r _ _ _ root] obtain row where
    "by_id 11 (credentials (db w')) = Some row" "c_role row = RoleSuperAdmin"
    using sample_ok sample_service_ok by (auto simp: sample_account_def)
  moreover have "db w' \<noteq> db sample_world" using p(2,3) sample_user by auto
  ultimately show ?thesis using r by blast
qed

lemma no_escalation_witness:
  "\<exists>perms v. reaches sample_app perms sample_world v \<and> db v \<noteq> db sample_world \<and>
     (\<forall>row\<in>set (credentials (db v)). rank (c_role row) \<le> 3)"
proof -
  obtain perms where s: "startup sample_app = Ret perms" by (rule sample_startup)
  obtain new rp w' where p: "dispatch sample_app perms new_password sample_world = (Ret rp, w')"
    "by_id 13 (credentials (db w')) = Some new" "c_password new \<noteq> sample_hash ''pass''"
    by (rule new_password_run [OF s])
  have r: "reaches sample_app perms sample_world w'" by (rule reaches.request [OF reaches.start p(1)])
  have "\<forall>row\<in>set (credentials (db w')). rank (c_role row) \<le> 3"
    by (rule no_escalation [OF r])
      (simp_all add: sample_ok sample_service_ok rank_roles sample_accounts_def sample_account_def)
  moreover have "db w' \<noteq> db sample_world" using p(2,3) sample_user by auto
  ultimately show ?thesis using r by blast
qed

lemma role_change_needs_superadmin_witness:
  "\<exists>perms rp w' actor. dispatch sample_app perms promotion sample_world = (Ret rp, w') \<and>
     by_id 11 sample_accounts = Some actor \<and> rank RoleAdmin \<le> rank (c_role actor)"
proof -
  obtain perms where s: "startup sample_app = Ret perms" by (rule sample_startup)
  obtain now rp w' where p: "dispatch sample_app perms promotion sample_world = (Ret rp, w')"
    "by_id 13 (credentials (db w')) = Some (set_role RoleAdmin now (sample_account 13 ''user@a'' RoleUser))"
    by (rule promotion_run [OF s])
  have u: "by_id 13 (credentials (db sample_world)) = Some (sample_account 13 ''user@a'' RoleUser)"
    using sample_user by simp
  have ne: "c_role (set_role RoleAdmin now (sample_account 13 ''user@a'' RoleUser)) \<noteq>
      c_role (sample_account 13 ''user@a'' RoleUser)"
    by (simp add: sample_account_def role_names)
  from role_change_needs_superadmin [OF _ _ _ p(1) s sample_order u p(2) ne] obtain tok c actor where
    a: "bearer (rq_authorization promotion) tok" "x_verify_access sample 0 False tok = Inr c"
      "by_id (from_ptr (UserID c)) (credentials (db sample_world)) = Some actor"
      "rank RoleAdmin \<le> rank (c_role actor)"
    using sample_ok sample_service_ok by auto
  have "tok = CHR ''A'' # enc_claims (sample_claims 11 RoleSuperAdmin)"
    using bearer_unique [OF a(1)] sample_bearer [of RoleSuperAdmin] unfolding promotion_def by simp
  then have "c = sample_claims 11 RoleSuperAdmin" using a(2) sample_verified [of 0] by simp
  then have "by_id 11 sample_accounts = Some actor" using a(3) by (simp add: from_ptr_def)
  with a(4) p(1) show ?thesis by blast
qed

lemma password_change_needs_proof_witness:
  "\<exists>perms rp w' new body. dispatch sample_app perms new_password sample_world = (Ret rp, w') \<and>
     by_id 13 (credentials (db w')) = Some new \<and>
     d_updatePassword (app_codecs sample_app) (rq_body new_password) = Inr body \<and> hup_CurrentPassword body \<noteq> '''' \<and>
     CompareArgon2 sample_idkey 19 (hup_CurrentPassword body) (sample_hash ''pass'') = Ret () \<and>
     generated_hash sample (hup_Password body) (c_password new)"
proof -
  obtain perms where s: "startup sample_app = Ret perms" by (rule sample_startup)
  obtain new rp w' where p: "dispatch sample_app perms new_password sample_world = (Ret rp, w')"
    "by_id 13 (credentials (db w')) = Some new" "c_password new \<noteq> sample_hash ''pass''"
    by (rule new_password_run [OF s])
  have u: "by_id 13 (credentials (db sample_world)) = Some (sample_account 13 ''user@a'' RoleUser)"
    using sample_user by simp
  have patch: "rq_method new_password = PATCH" by (simp add: new_password_def)
  from password_change_needs_proof [OF _ _ _ p(1) u p(2)] p(3) patch
  have "\<exists>body. d_updatePassword (app_codecs sample_app) (rq_body new_password) = Inr body \<and> hup_CurrentPassword body \<noteq> '''' \<and>
     CompareArgon2 sample_idkey 19 (hup_CurrentPassword body) (sample_hash ''pass'') = Ret () \<and>
     generated_hash sample (hup_Password body) (c_password new)"
    using sample_ok sample_service_ok by auto
  with p(1,2) show ?thesis by blast
qed

lemma route_access_witness:
  "\<exists>perms. startup sample_app = Ret perms \<and>
     dispatch sample_app perms (sample_request GET ''/v2/credentials'' (sample_claims 13 RoleUser) '''') sample_world =
       (Ret (Reply 403 ErrorBody), sample_world\<lparr>tick := 1\<rparr>)"
proof -
  obtain perms where s: "startup sample_app = Ret perms" by (rule sample_startup)
  let ?rq = "sample_request GET ''/v2/credentials'' (sample_claims 13 RoleUser) ''''"
  have "find_route (rq_method ?rq) (rq_path ?rq) = Some (Some [''credentials:get''], CredentialsGet)"
    using find_sample_routes(3) by simp
  from route_access [OF s sample_order sample_status_ok this _ sample_bearer sample_verified, of 2 sample_world]
  have "dispatch sample_app perms ?rq sample_world = (Ret (Reply 403 ErrorBody), sample_world\<lparr>tick := 1\<rparr>)"
    by (simp add: rank_roles)
  with s show ?thesis by blast
qed

lemma refused_at_the_door_witness:
  "dispatch sample_app Map.empty \<lparr>rq_method = GET, rq_path = ''/v2/credentials'', rq_requested_method = '''', rq_authorization = ''Bearer'',
     rq_query = '''', rq_body = ''''\<rparr> sample_world = (Ret (Reply 401 ErrorBody), sample_world)"
proof -
  let ?rq = "\<lparr>rq_method = GET, rq_path = ''/v2/credentials'', rq_requested_method = '''', rq_authorization = ''Bearer'',
     rq_query = '''', rq_body = ''''\<rparr>"
  have "find_route (rq_method ?rq) (rq_path ?rq) = Some (Some [''credentials:get''], CredentialsGet)"
    using find_sample_routes(3) by simp
  moreover have "\<nexists>tok. bearer (rq_authorization ?rq) tok" by (simp add: bearer_def)
  ultimately show ?thesis using refused_at_the_door [OF sample_status_ok, of ?rq] by simp
qed

text \<open>Requests without a body, as a client that is not signed in sends them.\<close>

definition bare_request :: "http_method \<Rightarrow> string \<Rightarrow> string \<Rightarrow> request" where
  "bare_request m path asked = \<lparr>rq_method = m, rq_path = path, rq_requested_method = asked, rq_authorization = '''',
     rq_query = '''', rq_body = ''''\<rparr>"

lemma every_request_answered_witness:
  "dispatch sample_app Map.empty (bare_request DELETE ''/v2/session/'' '''') sample_world =
      (Ret (Reply 405 NoBody), sample_world) \<and>
   dispatch sample_app Map.empty (bare_request OPTIONS ''/v2/session'' ''PUT'') sample_world =
      (Ret (Reply 200 NoBody), sample_world) \<and>
   dispatch sample_app Map.empty (bare_request GET ''/v2/session/none'' '''') sample_world =
      (Ret (Reply 404 (TextBody ''404 page not found'')), sample_world) \<and>
   (\<exists>reply w'. dispatch sample_app Map.empty (bare_request PUT ''/v2/session/'' '''') sample_world = (Ret reply, w') \<and>
      reply \<in> success_replies TokenCreate \<union> {Reply 500 NoBody} \<union> error_replies {400, 401, 422, 500})"
proof -
  note answered = every_request_answered [OF sample_status_ok, of Map.empty _ sample_world]
  have r: "find_route DELETE ''/v2/session/'' = None" "find_route GET ''/v2/session/'' = Some (Some [], ClaimsGet)"
    "find_route OPTIONS ''/v2/session'' = None" "find_route PUT ''/v2/session/'' = Some (None, TokenCreate)"
    "find_route m ''/v2/session/none'' = None" for m
    by (simp_all add: find_route_def served_at_def router_def below_def)
  have "\<not> (\<forall>m. find_route m ''/v2/session/'' = None)" using r(2) by (metis option.distinct(1))
  then show ?thesis
    using answered [of "bare_request DELETE ''/v2/session/'' ''''"]
      answered [of "bare_request OPTIONS ''/v2/session'' ''PUT''"]
      answered [of "bare_request GET ''/v2/session/none'' ''''"]
      answered [of "bare_request PUT ''/v2/session/'' ''''"]
    by (simp add: bare_request_def preflight_def r insert_commute)
qed

text \<open>The sample environment at clocks that tick with every operation, the identifiers it hands out given.\<close>

definition ticking :: "(nat \<Rightarrow> uuid) \<Rightarrow> ext" where
  "ticking new = sample\<lparr>x_now := (\<lambda>t. int t * second), x_pg_now := (\<lambda>t. int t * second), x_uuid_new := new\<rparr>"

lemma clock_contracts:
  "validator_contract (E\<lparr>x_now := f, x_pg_now := g, x_uuid_new := h\<rparr>) = validator_contract E"
  "rand_contract (E\<lparr>x_now := f, x_pg_now := g, x_uuid_new := h\<rparr>) = rand_contract E"
  "password_contract (E\<lparr>x_now := f, x_pg_now := g, x_uuid_new := h\<rparr>) = password_contract E"
  "issued_access (E\<lparr>x_now := f, x_pg_now := g, x_uuid_new := h\<rparr>) = issued_access E"
  "issued_refresh (E\<lparr>x_now := f, x_pg_now := g, x_uuid_new := h\<rparr>) = issued_refresh E"
  "healthy (E\<lparr>x_now := f, x_pg_now := g, x_uuid_new := h\<rparr>) = healthy E"
  by (cases E, simp only: validator_contract_def rand_contract_def password_contract_def healthy_def ext.simps
      issued_access_def [abs_def] issued_refresh_def [abs_def])+

lemma reliable_clock: "reliable (E\<lparr>x_now := f, x_pg_now := g, x_uuid_new := h\<rparr>) = reliable E"
proof -
  let ?E = "E\<lparr>x_now := f, x_pg_now := g, x_uuid_new := h\<rparr>"
  have "keys_available ?E = keys_available E" "json_keys_contract ?E = json_keys_contract E"
    unfolding keys_available_def json_keys_contract_def clock_contracts by (cases E, simp only: ext.simps)+
  then have "environment_ok ?E = environment_ok E" "keys_available ?E = keys_available E"
    unfolding environment_ok_def clock_contracts by (cases E, simp only: ext.simps)+
  then show ?thesis unfolding reliable_def clock_contracts by (cases E) (simp only: ext.simps)
qed

lemma ticking_reliable: "reliable (ticking new)"
  unfolding ticking_def reliable_clock by (rule sample_reliable)

lemma ticking_validator: "validator_contract (ticking new)"
  using ticking_reliable environment_okD(3) reliableD(1) by blast

lemma ticking_simps [simp]:
  "x_now (ticking new) t = int t * second" "x_pg_now (ticking new) t = int t * second" "x_uuid_new (ticking new) = new"
  "x_tag (ticking new) = sample_tag" "x_uuid_string (ticking new) = enc_uuid"
  using sample_simps by (simp_all add: ticking_def)

definition brief_code :: "string \<Rightarrow> string \<Rightarrow> int \<Rightarrow> dao_short_code" where
  "brief_code usage target expiry = \<lparr>s_id = 7, s_code = ''hash'', s_usage = usage, s_target = target, s_data = None,
     s_created_at = 0, s_expires_at = expiry, s_deleted_at = None, s_deleted_comment = None\<rparr>"

lemma brief_code_expires:
  assumes "int (Suc t) * second < expiry" "expiry < int (Suc (Suc t)) * second"
  shows "expires_meanwhile (ticking new) t [brief_code usage target expiry] target usage"
  using assms by (simp add: expires_meanwhile_def find_active_def brief_code_def pair_of_def active_at_def live_def)

definition brief_world :: "dao_short_code list \<Rightarrow> world" where
  "brief_world rs = sample_world\<lparr>db := \<lparr>credentials = sample_accounts, short_codes = rs\<rparr>\<rparr>"

lemma brief_world_simps [simp]:
  "tick (brief_world rs) = 0" "db (brief_world rs) = \<lparr>credentials = sample_accounts, short_codes = rs\<rparr>"
  "in_tx (brief_world rs) = False"
  by (simp_all add: brief_world_def)

lemma ticking_target: "enc_uuid i \<noteq> ''''" "rune_count (enc_uuid i) \<le> 1024"
  using sample_uuid_string [of i] by simp_all

lemma expired_while_redeemed_witness:
  "let E = ticking (\<lambda>_. 2); u = enc_uuid 13;
      w1 = brief_world [brief_code ShortCodeUsageRegister ''new@a'' (2 * second + 1)];
      w2 = brief_world [brief_code ShortCodeUsageValidateEmail u (second + 1)];
      w3 = brief_world [brief_code ShortCodeUsageResetPassword u (2 * second + 1)] in
   (\<exists>v1 v2 v3. rest_CredentialsCreate E sample_http
        (Inr \<lparr>hcc_Email = ''new@a'', hcc_Password = ''word'', hcc_ShortCode = ''code''\<rparr>) w1 = (Ret (Reply 500 ErrorBody), v1) \<and>
      rest_CredentialsUpdateEmail E sample_http (Inr \<lparr>hue_UserID = 13, hue_ShortCode = ''code''\<rparr>) w2 =
        (Ret (Reply 500 ErrorBody), v2) \<and>
      rest_CredentialsResetPassword E sample_http
        (Inr \<lparr>hrp_Password = ''word'', hrp_ShortCode = ''code'', hrp_UserID = 13\<rparr>) w3 = (Ret (Reply 403 ErrorBody), v3) \<and>
      db v1 = db w1 \<and> db v2 = db w2 \<and> db v3 = db w3)"
proof -
  let ?E = "ticking (\<lambda>_. 2)" and ?u = "enc_uuid 13"
  note v = ticking_validator [of "\<lambda>_. 2"]
  note c = expired_while_redeemed [OF ticking_reliable sample_http_status, of "\<lambda>_. 2"]
  let ?w1 = "brief_world [brief_code ShortCodeUsageRegister ''new@a'' (2 * second + 1)]"
  let ?w2 = "brief_world [brief_code ShortCodeUsageValidateEmail ?u (second + 1)]"
  let ?w3 = "brief_world [brief_code ShortCodeUsageResetPassword ?u (2 * second + 1)]"
  have e: "expires_meanwhile ?E (Suc (tick ?w1)) (short_codes (db ?w1)) ''new@a'' ShortCodeUsageRegister"
    "expires_meanwhile ?E (tick ?w2) (short_codes (db ?w2)) ?u ShortCodeUsageValidateEmail"
    "expires_meanwhile ?E (Suc (tick ?w3)) (short_codes (db ?w3)) ?u ShortCodeUsageResetPassword"
    by (simp_all add: brief_code_expires second_def)
  have s1: "struct_valid ?E (credentials_create_struct \<lparr>cc_Email = ''new@a'', cc_Password = ''word'', cc_ShortCode = ''code''\<rparr>)"
    by (simp add: credentials_create_struct_def tag_simps contract_tags [OF v] builtin_tags rune_count_def)
  have s2: "struct_valid ?E [(FStr ''code'', [Required, Max 1024])]"
    by (simp add: contract_tags [OF v] rune_count_def)
  have s3: "struct_valid ?E (consume_struct \<lparr>sco_Usage = ShortCodeUsageValidateEmail, sco_Target = ?u, sco_Code = ''code''\<rparr>)"
    "struct_valid ?E (consume_struct \<lparr>sco_Usage = ShortCodeUsageResetPassword, sco_Target = ?u, sco_Code = ''code''\<rparr>)"
    using ticking_target [of 13]
    by (simp_all add: consume_struct_def tag_simps contract_tags [OF v] rune_count_def unknown_usage usage_names)
  have s4: "struct_valid ?E (update_password_struct \<lparr>cup_Password = ''word'', cup_CurrentPassword = '''',
      cup_ShortCode = ''code'', cup_UserID = 13\<rparr>)"
    by (simp add: update_password_struct_def contract_tags [OF v] rune_count_def)
  have r1: "\<exists>v. rest_CredentialsCreate ?E sample_http
      (Inr \<lparr>hcc_Email = ''new@a'', hcc_Password = ''word'', hcc_ShortCode = ''code''\<rparr>) ?w1 = (Ret (Reply 500 ErrorBody), v) \<and> db v = db ?w1"
    using conjunct1 [OF c, of ?w1 "\<lparr>hcc_Email = ''new@a'', hcc_Password = ''word'', hcc_ShortCode = ''code''\<rparr>"] e(1) s1 by simp
  have r2: "\<exists>v. rest_CredentialsUpdateEmail ?E sample_http (Inr \<lparr>hue_UserID = 13, hue_ShortCode = ''code''\<rparr>) ?w2 =
      (Ret (Reply 500 ErrorBody), v) \<and> db v = db ?w2"
    using conjunct1 [OF conjunct2 [OF c], of ?w2 "\<lparr>hue_UserID = 13, hue_ShortCode = ''code''\<rparr>"] e(2) s2 s3(1) by simp
  have r3: "\<exists>v. rest_CredentialsResetPassword ?E sample_http
      (Inr \<lparr>hrp_Password = ''word'', hrp_ShortCode = ''code'', hrp_UserID = 13\<rparr>) ?w3 = (Ret (Reply 403 ErrorBody), v) \<and> db v = db ?w3"
    using conjunct2 [OF conjunct2 [OF c], of ?w3 "\<lparr>hrp_Password = ''word'', hrp_ShortCode = ''code'', hrp_UserID = 13\<rparr>"]
      e(3) s3(2) s4 by simp
  show ?thesis unfolding Let_def using r1 r2 r3 by blast
qed


end
