(* ===== verification/ServiceProperties.thy ===== *)
theory ServiceProperties
  imports ServerProperties
begin

text \<open>
  Properties of the services: accounts, short codes and the mail flows, sessions, listing, and the round
  trips that go through several of them. Each is applied to the sample service.
\<close>

section \<open>Accounts\<close>

text \<open>C5: Registration is all or nothing. Whatever fails, the tables end as they were or with exactly one new
  ordinary account for the requested address under a fresh identifier, its password hashed, and the
  registration code that was active for the address matched and spent, every other code untouched. A token is
  returned only in the second case, and its two halves are bound to the new account.\<close>

theorem registration_all_or_nothing:
  assumes "environment_ok E" "service_ok (db w)" "\<not> in_tx w" "core_CredentialsCreate E rq w = (r, w')"
  shows "(db w' = db w \<or> (\<exists>row. registered E rq (db w) row (db w'))) \<and>
    (\<forall>tok. r = Ret tok \<longrightarrow>
       (\<exists>row. registered E rq (db w) row (db w') \<and> bound_pair E tok (c_id row) RoleUser))"
proof -
  note env = environment_okD [OF assms(1)]
  note res = account_create_result [OF assms(4) env(1) assms(3) service_okD(2) [OF assms(2)]]
  have "\<exists>row. registered E rq (db w) row (db w') \<and> bound_pair E tok (c_id row) RoleUser" if "r = Ret tok" for tok
  proof -
    from res(2) [OF that] obtain row v where row: "registered E rq (db w) row (db w')"
      and sign: "signTokenPair E row v = (Ret tok, w')" by blast
    have "c_role row = RoleUser" using row by (simp add: registered_def)
    with row signTokenPair_Ret(1) [OF env(6) sign] show ?thesis by auto
  qed
  with res(1) show ?thesis by blast
qed

text \<open>C28: A new address is the one the code was sent to, not one the caller chooses: an account's address
  changes only to the payload of the active validation code of that account, with the code matched and
  spent, and nothing else of any account changes.\<close>

theorem email_comes_from_the_code:
  assumes "environment_ok E" "service_ok (db w)" "\<not> in_tx w" "core_CredentialsUpdateEmail E rq w = (r, w')"
    "db w' \<noteq> db w"
  shows "\<exists>clock code old new now.
    find_active (x_uuid_string E (cue_UserID rq), ShortCodeUsageValidateEmail) clock (short_codes (db w)) = Some code \<and>
    CompareArgon2 (x_idkey E) (x_argon_version E) (cue_ShortCode rq) (s_code code) = Ret () \<and>
    x_json_unmarshal E (s_data code) = Inr (c_email new) \<and>
    (\<forall>t. find_active (x_uuid_string E (cue_UserID rq), ShortCodeUsageValidateEmail) t (short_codes (db w')) = None) \<and>
    by_id (cue_UserID rq) (credentials (db w)) = Some old \<and>
    by_id (cue_UserID rq) (credentials (db w')) = Some new \<and> new = set_email (c_email new) now old \<and>
    (\<forall>j. j \<noteq> cue_UserID rq \<longrightarrow> by_id j (credentials (db w')) = by_id j (credentials (db w)))"
proof -
  note env = environment_okD [OF assms(1)]
  from update_email_result [OF assms(4) env(1) assms(3) service_okD(2) [OF assms(2)]] assms(5)
  obtain row where "email_changed E rq (db w) row (db w')" by blast
  then obtain clock code now d1 where ch:
    "find_active (x_uuid_string E (cue_UserID rq), ShortCodeUsageValidateEmail) clock (short_codes (db w)) = Some code"
    "CompareArgon2 (x_idkey E) (x_argon_version E) (cue_ShortCode rq) (s_code code) = Ret ()"
    "x_json_unmarshal E (s_data code) = Inr (c_email row)" "credentials d1 = credentials (db w)"
    "\<forall>t. find_active (x_uuid_string E (cue_UserID rq), ShortCodeUsageValidateEmail) t (short_codes d1) = None"
    "account_updated (cue_UserID rq) (set_email (c_email row) now) d1 (db w')"
    "by_id (cue_UserID rq) (credentials (db w')) = Some row"
    unfolding email_changed_def by blast
  from ch(6) obtain old where old: "by_id (cue_UserID rq) (credentials d1) = Some old"
    "by_id (cue_UserID rq) (credentials (db w')) = Some (set_email (c_email row) now old)"
    "\<forall>j. j \<noteq> cue_UserID rq \<longrightarrow> by_id j (credentials (db w')) = by_id j (credentials d1)"
    "short_codes (db w') = short_codes d1" unfolding account_updated_def by blast
  have "row = set_email (c_email row) now old" using old(2) ch(7) by simp
  with ch(1-5,7) old show ?thesis
    by (intro exI [of _ clock] exI [of _ code] exI [of _ old] exI [of _ row] exI [of _ now]) simp
qed

text \<open>The bootstrap of the super-admin either leaves the tables as they were or leaves one account with
  the requested address, role super-admin and a hash of the requested password: the account that had the
  address, under its identifier and with every other account untouched, or a new one.\<close>

lemma superadmin_provisioned:
  assumes "environment_ok E" "accounts_ok (db w)" "\<not> in_tx w" "core_CredentialsCreateSuperAdmin E rq w = (r, w')"
  shows "(db w' = db w \<or> (\<exists>row. provisioned E rq (db w) row (db w'))) \<and>
    (\<forall>c. r = Ret c \<longrightarrow> (\<exists>row. c = to_Credentials row \<and> provisioned E rq (db w) row (db w')))"
  using super_admin_result [OF assms(4) environment_okD(1) [OF assms(1)] assms(3,2)] by blast

text \<open>C8: Updating a role is a total decision on the request and the table: an unknown role, oneself, an
  unknown account, a role above one's own, or an account that is not below oneself is refused with the error
  of that case and changes nothing; anything else gives the target exactly the requested role.\<close>

theorem update_role_decides:
  assumes "healthy E" "validator_contract E" "accounts_ok (db w)"
  shows "case role_decision rq (credentials (db w)) of
      Inl s \<Rightarrow> (\<exists>e w'. core_CredentialsUpdateRole E rq w = (Fail e, w') \<and> errors_is e s \<and> db w' = db w)
    | Inr target \<Rightarrow> (\<exists>c w'. core_CredentialsUpdateRole E rq w = (Ret c, w') \<and>
        cr_ID c = cur_TargetUserID rq \<and> cr_Role c = cur_Role rq \<and>
        (if c_role target = cur_Role rq then db w' = db w
         else account_updated (cur_TargetUserID rq) (\<lambda>r. r\<lparr>c_role := cur_Role rq, c_updated_at := cr_UpdatedAt c\<rparr>)
           (db w) (db w')))"
proof -
  note run = update_role_run [OF assms, of rq]
  show ?thesis
  proof (cases "role_decision rq (credentials (db w))")
    case (Inl s)
    then show ?thesis using run by (auto simp: refused_with_def)
  next
    case (Inr target)
    then obtain now w' where w': "db w' = (if c_role target = cur_Role rq then db w
          else (db w)\<lparr>credentials := update_row (cur_TargetUserID rq) (set_role (cur_Role rq) now) (credentials (db w))\<rparr>)"
      "core_CredentialsUpdateRole E rq w = (Ret (to_Credentials
          (if c_role target = cur_Role rq then target else set_role (cur_Role rq) now target)), w')"
      using run by auto
    have t: "by_id (cur_TargetUserID rq) (credentials (db w)) = Some target" and
      v: "cur_Role rq \<in> set role_check_list"
      using Inr by (auto simp: role_decision_def split: option.splits if_splits)
    have i: "c_id target = cur_TargetUserID rq" using accounts.lookup_key [OF t] .
    show ?thesis
    proof (cases "c_role target = cur_Role rq")
      case True
      with Inr w' i show ?thesis by (simp add: to_Credentials_def)
    next
      case False
      let ?f = "set_role (cur_Role rq) now"
      have "update_table (cur_TargetUserID rq) ?f (credentials (db w)) =
          Inr (update_row (cur_TargetUserID rq) ?f (credentials (db w)))"
        using v by (intro update_accepted [OF assms(3)]) (simp_all add: row_checks_def)
      from update_present [OF this _ t] have u: "account_updated (cur_TargetUserID rq) ?f (db w) (db w')"
        using w'(1) False by simp
      moreover have "?f = (\<lambda>r. r\<lparr>c_role := cur_Role rq, c_updated_at := c_updated_at (?f target)\<rparr>)"
        by (simp add: set_role_def fun_eq_iff)
      ultimately show ?thesis
        using Inr w' i False by (simp add: to_Credentials_def)
    qed
  qed
qed

section \<open>Short codes\<close>

text \<open>Redeeming fails without a trace.\<close>

lemma failed_redeeming_changes_nothing:
  assumes "healthy E" "core_ShortCodeConsume E rq w = (Fail e, w')"
  shows "db w' = db w \<and> sentinels_of e \<subseteq> consume_errors"
  using consume_Fail [OF assms(2)] assms(1) raisesD [OF raises_consume assms(2), of "\<lambda>_. True"] by auto

text \<open>C6: A code can be redeemed only while it is active for its pair of target and usage, only with the plain
  text its hash was made of or one that derives the same key, and only once: redeeming spends it for every
  later instant, while the codes of all other pairs stay what they were. A refusal leaves no trace: the tables
  are as they were, and its error is one of the documented ones.\<close>

theorem code_redeemed_once:
  assumes "core_ShortCodeConsume E rq w = (r, w')" "short_codes_ok (db w)"
  shows "(\<forall>sc. r = Ret sc \<longrightarrow>
     (\<exists>clock row. find_active (sco_Target rq, sco_Usage rq) clock (short_codes (db w)) = Some row \<and>
        CompareArgon2 (x_idkey E) (x_argon_version E) (sco_Code rq) (s_code row) = Ret () \<and>
        sc = to_ShortCode row (sco_Code rq)) \<and>
     (\<forall>now. find_active (sco_Target rq, sco_Usage rq) now (short_codes (db w')) = None) \<and>
     (\<forall>p now. p \<noteq> (sco_Target rq, sco_Usage rq) \<longrightarrow>
        find_active p now (short_codes (db w')) = find_active p now (short_codes (db w))) \<and>
     credentials (db w') = credentials (db w) \<and> short_codes_ok (db w')) \<and>
    (\<forall>e. r = Fail e \<and> healthy E \<longrightarrow> db w' = db w \<and> sentinels_of e \<subseteq> consume_errors)"
proof (intro conjI allI impI; (elim conjE)?)
  fix sc assume r: "r = Ret sc"
  note c = assms(1) [unfolded r]
  obtain row clock1 where
    "find_active (sco_Target rq, sco_Usage rq) clock1 (short_codes (db w)) = Some row"
    "CompareArgon2 (x_idkey E) (x_argon_version E) (sco_Code rq) (s_code row) = Ret ()"
    "sc = to_ShortCode row (sco_Code rq)"
    by (rule consume_Ret [OF c assms(2)])
  then show "\<exists>clock row. find_active (sco_Target rq, sco_Usage rq) clock (short_codes (db w)) = Some row \<and>
      CompareArgon2 (x_idkey E) (x_argon_version E) (sco_Code rq) (s_code row) = Ret () \<and>
      sc = to_ShortCode row (sco_Code rq)" by blast
qed (use consume_spent [of E rq w _ w'] assms failed_redeeming_changes_nothing in auto)

text \<open>C27: Issuing with override supersedes: the new code is the only active one of its pair until it expires,
  under a hash of the plain text the caller gets, of the configured size and alphabet, carrying the data; the
  other pairs keep their codes, and no earlier code of the pair is ever active again.\<close>

theorem issuing_supersedes:
  assumes "environment_ok E" "short_codes_ok (db w)" "\<not> in_tx w" "core_ShortCodeCreate E cfg rq w = (Ret sc, w')"
  shows "\<exists>code now. generated_hash E (sc_PlainCode sc) (s_code code) \<and>
    int (length (sc_PlainCode sc)) = Size cfg \<and> set (sc_PlainCode sc) \<subseteq> set URLCharList \<and>
    marshalled E (scc_Data rq) = Ret (s_data code) \<and> now \<in> range (x_now E) \<and> s_expires_at code = pg_ts0 (now + scc_TTL rq) \<and>
    sc = to_ShortCode code (sc_PlainCode sc) \<and>
    (\<forall>t < s_expires_at code.
       find_active (scc_Target rq, scc_Usage rq) t (short_codes (db w')) = Some code \<and>
       (\<forall>p. p \<noteq> (scc_Target rq, scc_Usage rq) \<longrightarrow>
          find_active p t (short_codes (db w')) = find_active p t (short_codes (db w)))) \<and>
    (\<forall>t r. find_active (scc_Target rq, scc_Usage rq) t (short_codes (db w')) = Some r \<longrightarrow> r = code) \<and>
    credentials (db w') = credentials (db w) \<and> short_codes_ok (db w')"
proof -
  note env = environment_okD [OF assms(1)]
  obtain i enc data now where cr:
    "sc = to_ShortCode (new_code (insert_request rq i enc data now)) (sc_PlainCode sc)"
    "generated_hash E (sc_PlainCode sc) enc" "int (length (sc_PlainCode sc)) = Size cfg"
    "set (sc_PlainCode sc) \<subseteq> set URLCharList" "marshalled E (scc_Data rq) = Ret data"
    "issued (insert_request rq i enc data now) (db w) (db w')" "now \<in> range (x_now E)"
    by (rule create_Ret [OF assms(4) env(2) assms(3) env(4)])
  let ?c = "new_code (insert_request rq i enc data now)"
  note f = issued_find [OF cr(6) assms(2), unfolded insert_request_simps]
  have "r = ?c" if "find_active (scc_Target rq, scc_Usage rq) t (short_codes (db w')) = Some r" for t r
    using only_new [OF cr(6) assms(2)] that by simp
  moreover have "short_codes_ok (db w')" "credentials (db w') = credentials (db w)"
    using f(3,4) [of "pg_ts0 (now + scc_TTL rq) - 1"] by simp_all
  ultimately show ?thesis
    using cr f(1,2) by (intro exI [of _ ?c] exI [of _ now]) auto
qed

text \<open>C17: Round trip: a code that was issued is redeemed by its plain text, in any later world whose codes are
  as the issue left them and while its expiry has not passed, with exactly the record that was issued; a second
  attempt with the same code is refused as not found.\<close>

theorem issued_code_redeems:
  assumes "reliable E" "short_codes_ok (db w)" "\<not> in_tx w" "core_ShortCodeCreate E cfg rq w = (Ret sc, w1)"
    "short_codes (db v) = short_codes (db w1)"
    "\<forall>t. x_pg_now E t < sc_ExpiresAt sc" "\<forall>t. x_now E t \<le> sc_ExpiresAt sc"
    "struct_valid E (consume_struct \<lparr>sco_Usage = scc_Usage rq, sco_Target = scc_Target rq, sco_Code = sc_PlainCode sc\<rparr>)"
  shows "\<exists>v' e v''. core_ShortCodeConsume E \<lparr>sco_Usage = scc_Usage rq, sco_Target = scc_Target rq,
        sco_Code = sc_PlainCode sc\<rparr> v = (Ret sc, v') \<and>
     core_ShortCodeConsume E \<lparr>sco_Usage = scc_Usage rq, sco_Target = scc_Target rq,
        sco_Code = sc_PlainCode sc\<rparr> v' = (Fail e, v'') \<and> errors_is e ErrShortCodeSelectNotFound \<and> db v'' = db v'"
proof -
  let ?rq = "\<lparr>sco_Usage = scc_Usage rq, sco_Target = scc_Target rq, sco_Code = sc_PlainCode sc\<rparr>"
  obtain v' where c: "core_ShortCodeConsume E ?rq v = (Ret sc, v')"
    "\<And>now. find_active (scc_Target rq, scc_Usage rq) now (short_codes (db v')) = None"
    by (rule issued_redeemable [OF assms(1-5) _ _ assms(8)]) (use assms(6,7) in simp_all)
  have "refused_with (core_ShortCodeConsume E ?rq) ErrShortCodeSelectNotFound v'"
    by (rule consume_absent [OF assms(1,8)]) (use c(2) in simp)
  with c(1) show ?thesis unfolding refused_with_def by blast
qed

text \<open>Each mail flow sends exactly one mail when it succeeds, to the address and in the language of the
  request, with the plain text of the code it stored (for a reset, with the identifier of the account that has
  the address), and none when it fails.\<close>

lemma flows_mail_what_they_store:
  assumes "environment_ok E" "\<not> in_tx w"
  shows "(\<forall>rq r w'. core_ShortCodeCreateRegister E cfg urls rq w = (r, w') \<longrightarrow>
      jobs w' = jobs w @ (case r of Ret sc \<Rightarrow> [mail_Register E cfg urls rq sc] | _ \<Rightarrow> [])) \<and>
    (\<forall>rq r w'. core_ShortCodeCreateEmailUpdate E cfg urls rq w = (r, w') \<longrightarrow>
      jobs w' = jobs w @ (case r of Ret sc \<Rightarrow> [mail_EmailUpdate E cfg urls rq sc] | _ \<Rightarrow> [])) \<and>
    (\<forall>rq r w'. core_ShortCodeCreatePasswordReset E cfg urls rq w = (r, w') \<longrightarrow>
      (case r of
         Ret sc \<Rightarrow> \<exists>row. by_email (scpr_Email rq) (credentials (db w)) = Some row \<and>
           jobs w' = jobs w @ [mail_PasswordReset E cfg urls rq (c_id row) sc]
       | _ \<Rightarrow> jobs w' = jobs w))"
proof -
  note tx = environment_okD(2) [OF assms(1)]
  show ?thesis
    using flow_jobs [OF tx assms(2)] by blast
qed

section \<open>Sessions\<close>

text \<open>C19: Signing in gives away nothing about who has an account: for an unknown address and for a wrong
  password the endpoint answers with the same status and body, after the same single key derivation, and
  leaves the tables alone.\<close>

theorem sign_in_reveals_nothing:
  assumes "reliable E" "status_contract H"
    "struct_valid E (token_create_struct \<lparr>tc_Email = email, tc_Password = password\<rparr>)"
    "case by_email email (credentials (db w)) of
       None \<Rightarrow> True
     | Some row \<Rightarrow> (\<exists>pw. generated_hash E pw (c_password row)) \<and>
         CompareArgon2 (x_idkey E) (x_argon_version E) password (c_password row) \<noteq> Ret ()"
  shows "\<exists>w'. rest_TokenCreate E H (Inr \<lparr>ht_Email = email, ht_Password = password\<rparr>) w = (Ret (Reply 401 ErrorBody), w') \<and>
    work w' = work w @ [derivation (resolved_params E)] \<and> db w' = db w"
proof -
  let ?rq = "\<lparr>tc_Email = email, tc_Password = password\<rparr>"
  have "\<exists>e w'. core_TokenCreate E ?rq w = (Fail e, w') \<and> db w' = db w \<and>
      (sentinels_of e = {ErrNoRows, ErrCredentialsSelectByEmailNotFound} \<or> sentinels_of e = {ErrInvalidPassword}) \<and>
      work w' = work w @ [derivation (resolved_params E)]"
  proof (cases "by_email email (credentials (db w))")
    case None
    then show ?thesis using sign_in_unknown [OF assms(1,3), of w] by auto
  next
    case (Some row)
    then obtain pw where "generated_hash E pw (c_password row)" using assms(4) by auto
    with Some assms(4) show ?thesis using sign_in_wrong [OF assms(1,3), of w row pw] by auto
  qed
  then obtain e w' where c: "core_TokenCreate E ?rq w = (Fail e, w')" "db w' = db w"
    "work w' = work w @ [derivation (resolved_params E)]" and
    s: "sentinels_of e = {ErrNoRows, ErrCredentialsSelectByEmailNotFound} \<or> sentinels_of e = {ErrInvalidPassword}"
    by blast
  have "h_status H token_create_map e = 401"
  proof (rule disjE [OF s])
    assume "sentinels_of e = {ErrNoRows, ErrCredentialsSelectByEmailNotFound}"
    then show ?thesis
      by (intro status_hit [OF assms(2), of ErrCredentialsSelectByEmailNotFound]) (auto simp: token_create_map_def)
  next
    assume "sentinels_of e = {ErrInvalidPassword}"
    then show ?thesis
      by (intro status_hit [OF assms(2), of ErrInvalidPassword]) (auto simp: token_create_map_def)
  qed
  with c show ?thesis by (simp add: rest_TokenCreate_def with_request_def respond_run error_reply_def)
qed

text \<open>C30: A session starts only with the password of the account that has the address, and its two tokens
  name that account, its current role and each other.\<close>

theorem sign_in_sound:
  assumes "json_keys_contract E" "core_TokenCreate E rq w = (Ret tok, w')"
  shows "\<exists>row. by_email (tc_Email rq) (credentials (db w)) = Some row \<and>
    CompareArgon2 (x_idkey E) (x_argon_version E) (tc_Password rq) (c_password row) = Ret () \<and>
    bound_pair E tok (c_id row) (c_role row) \<and> db w' = db w"
proof -
  obtain row w1 where row: "by_email (tc_Email rq) (credentials (db w)) = Some row"
    "CompareArgon2 (x_idkey E) (x_argon_version E) (tc_Password rq) (c_password row) = Ret ()"
    "signTokenPair E row w1 = (Ret tok, w')" "db w1 = db w"
    by (rule token_create_Ret [OF assms(2)])
  with signTokenPair_Ret [OF assms(1) row(3)] show ?thesis by auto
qed

text \<open>C18: A session is refreshed only by a pair that was issued together for an account that still exists:
  the refresh token is returned as it came, and the new access token names the same account and refresh
  token with the role the account has now. The access token of an anonymous session is never refreshed.\<close>

theorem refresh_sound:
  assumes "json_keys_contract E" "core_TokenRefresh E rq w = (Ret tok, w')"
  shows "\<exists>uid role jti row.
    issued_access E (tr_AccessToken rq) \<lparr>UserID = uid, Roles = role, RefreshTokenID = jti\<rparr> \<and>
    issued_refresh E (tr_RefreshToken rq) \<lparr>Jti = jti, RefreshUserID = from_ptr uid\<rparr> \<and>
    by_id (from_ptr uid) (credentials (db w)) = Some row \<and>
    issued_access E (AccessToken tok) \<lparr>UserID = uid, Roles = [c_role row], RefreshTokenID = jti\<rparr> \<and>
    RefreshToken tok = tr_RefreshToken rq \<and> db w' = db w \<and>
    \<not> issued_access E (tr_AccessToken rq) anon_claims"
proof -
  obtain ac rc row where r: "x_verify_access E (tick w) True (tr_AccessToken rq) = Inr ac"
    "x_verify_refresh E (Suc (tick w)) (tr_RefreshToken rq) = Inr rc"
    "from_ptr (UserID ac) = RefreshUserID rc" "RefreshTokenID ac = Jti rc"
    "by_id (RefreshUserID rc) (credentials (db w)) = Some row"
    "issued_access E (AccessToken tok) \<lparr>UserID = UserID ac, Roles = [c_role row], RefreshTokenID = Jti rc\<rparr>"
    "RefreshToken tok = tr_RefreshToken rq" "db w' = db w"
    by (rule token_refresh_Ret [OF assms(2)])
  note k = json_keysD [OF assms(1)]
  have ia: "issued_access E (tr_AccessToken rq) ac" and ir: "issued_refresh E (tr_RefreshToken rq) rc"
    using k(1) [OF r(1)] k(2) [OF r(2)] .
  have "issued_refresh E (tr_RefreshToken rq) \<lparr>Jti = Jti rc, RefreshUserID = RefreshUserID rc\<rparr>"
    using ir by (cases rc) simp
  moreover have "issued_access E (tr_AccessToken rq)
      \<lparr>UserID = UserID ac, Roles = Roles ac, RefreshTokenID = RefreshTokenID ac\<rparr>"
    using ia by (cases ac) simp
  moreover have "\<not> issued_access E (tr_AccessToken rq) anon_claims"
  proof
    assume "issued_access E (tr_AccessToken rq) anon_claims"
    then have "ac = anon_claims" using k(3) [OF ia] by blast
    then have "Jti rc = ''''" using r(4) by (simp add: anon_claims_def)
    then show False using k(5) [OF ir] by simp
  qed
  ultimately show ?thesis using r(3-8)
    by (intro exI [of _ "UserID ac"] exI [of _ "Roles ac"] exI [of _ "Jti rc"] exI [of _ row]) simp
qed


section \<open>Listing\<close>

text \<open>C32: Listing accounts: with page size \<open>l\<close> between 1 and 100, page \<open>n\<close> is the \<open>n\<close>-th slice of the accounts with
  one of the requested roles (all of them for no role), newest first, and the first \<open>m\<close> pages are together
  the first \<open>m * l\<close> accounts, none missing and none twice; the tables do not change.\<close>

theorem listing_pages:
  assumes "healthy E" "validator_contract E" "1 \<le> l" "l \<le> 100" "length roles \<le> 10"
    "set roles \<subseteq> set role_check_list"
  shows "\<exists>page. (\<forall>n w'. credentials (db w') = credentials (db w) \<longrightarrow>
        fst (core_CredentialsList E \<lparr>lr_Limit = l, lr_Offset = int n * l, lr_Roles = roles\<rparr> w') = Ret (page n)) \<and>
    (\<forall>m. concat (map page [0..<m]) = take (m * nat l) (map to_Credentials (listing roles (credentials (db w))))) \<and>
    sorted_wrt (\<lambda>a b. list_key b \<le> list_key a) (listing roles (credentials (db w))) \<and>
    set (listing roles (credentials (db w))) =
      {r \<in> set (credentials (db w)). roles = [] \<or> c_role r \<in> set roles}"
proof -
  let ?L = "listing roles (credentials (db w))"
  let ?page = "\<lambda>n. take (nat l) (drop (n * nat l) (map to_Credentials ?L))"
  have v: "struct_valid E (list_struct \<lparr>lr_Limit = l, lr_Offset = int n * l, lr_Roles = roles\<rparr>)" for n
    using assms(3-6)
    by (auto simp: list_struct_def struct_valid_def list_all_iff contract_tags [OF assms(2)] tag_simps)
  have public: "to_Credentials (public_row r) = to_Credentials r" for r
    by (simp add: to_Credentials_def public_row_def)
  have page: "fst (core_CredentialsList E \<lparr>lr_Limit = l, lr_Offset = int n * l, lr_Roles = roles\<rparr> w') = Ret (?page n)"
    if "credentials (db w') = credentials (db w)" for n w'
  proof -
    let ?q = "\<lparr>cl_Limit = l, cl_Offset = int n * l, cl_Roles = roles\<rparr>"
    have "nat (int n * l) = n * nat l" by (simp add: nat_mult_distrib)
    then have "fst (dao_CredentialsList E ?q w') = Ret (map public_row (take (nat l) (drop (n * nat l) ?L)))"
      using list_healthy [OF assms(1), of ?q w'] assms(3) that by (simp add: Let_def)
    then show ?thesis
      using v [of n]
      by (cases "dao_CredentialsList E ?q w'")
        (simp add: core_CredentialsList_def prog_simps validate_run public take_map drop_map comp_def)
  qed
  have "concat (map ?page [0..<m]) = take (m * nat l) (map to_Credentials ?L)" for m
    by (rule concat_pages)
  with page listing_descending set_listing show ?thesis
    by (intro exI [of _ ?page]) blast
qed

section \<open>Silent flows\<close>

text \<open>C29: The registration and reset flows answer 202 whether or not the address has an account, so that
  the answer does not tell; the one thing that differs is the mail: a registration code goes only to an address
  without an account, a reset code only to an account's address.\<close>

theorem mail_flows_are_silent:
  assumes "reliable E" "\<not> in_tx w" "0 \<le> Size cfg" "\<forall>u\<in>set KnownShortCodeUsages. usage_ttl cfg u \<noteq> 0"
    "\<forall>t. x_uuid_new E t \<notin> s_id ` set (short_codes (db w))"
    "struct_valid E (register_struct \<lparr>scr_Email = email, scr_Lang = lang\<rparr>)"
    "\<forall>i. x_uuid_string E i \<noteq> '''' \<and> rune_count (x_uuid_string E i) \<le> 1024"
  shows "(\<exists>w' sc. rest_ShortCodeCreateRegister E cfg urls H (Inr \<lparr>hm_Email = email, hm_Lang = lang\<rparr>) w = (Ret accepted, w') \<and>
      credentials (db w') = credentials (db w) \<and>
      jobs w' = jobs w @ (if by_email email (credentials (db w)) = None
        then [mail_Register E cfg urls \<lparr>scr_Email = email, scr_Lang = lang\<rparr> sc] else [])) \<and>
    (\<exists>w' sc. rest_ShortCodeCreatePasswordReset E cfg urls H (Inr \<lparr>hm_Email = email, hm_Lang = lang\<rparr>) w = (Ret accepted, w') \<and>
      credentials (db w') = credentials (db w) \<and>
      jobs w' = jobs w @ (case by_email email (credentials (db w)) of None \<Rightarrow> []
        | Some row \<Rightarrow> [mail_PasswordReset E cfg urls \<lparr>scpr_Email = email, scpr_Lang = lang\<rparr> (c_id row) sc]))"
proof
  have u: "usage_ttl cfg ShortCodeUsageRegister \<noteq> 0" "usage_ttl cfg ShortCodeUsageResetPassword \<noteq> 0"
    using assms(4) by (simp_all add: KnownShortCodeUsages_def)
  let ?r = "\<lparr>scr_Email = email, scr_Lang = lang\<rparr>" and ?p = "\<lparr>scpr_Email = email, scpr_Lang = lang\<rparr>"
  have p: "struct_valid E (password_reset_struct ?p)"
    using assms(6) by (simp add: password_reset_struct_def register_struct_def)
  obtain w1 sc1 where r1: "if by_email (scr_Email ?r) (credentials (db w)) = None
      then core_ShortCodeCreateRegister E cfg urls ?r w = (Ret sc1, w1)
      else \<exists>e. core_ShortCodeCreateRegister E cfg urls ?r w = (Fail e, w1) \<and> errors_is e ErrCredentialsInsertAlreadyExists"
    "credentials (db w1) = credentials (db w)" "jobs w1 = jobs w @ (if by_email (scr_Email ?r) (credentials (db w)) = None
      then [mail_Register E cfg urls ?r sc1] else [])"
    by (rule register_flow_silent [OF assms(1-3) u(1) _ assms(6)]) (use assms(5) in simp_all)
  have "rest_ShortCodeCreateRegister E cfg urls H (Inr \<lparr>hm_Email = email, hm_Lang = lang\<rparr>) w = (Ret accepted, w1)"
    using r1(1) accept_run by (auto simp: rest_ShortCodeCreateRegister_def with_request_def split: if_splits)
  with r1(2,3) show "\<exists>w' sc. rest_ShortCodeCreateRegister E cfg urls H (Inr \<lparr>hm_Email = email, hm_Lang = lang\<rparr>) w
        = (Ret accepted, w') \<and> credentials (db w') = credentials (db w) \<and>
      jobs w' = jobs w @ (if by_email email (credentials (db w)) = None then [mail_Register E cfg urls ?r sc] else [])"
    by (intro exI [of _ w1] exI [of _ sc1]) simp
  obtain w2 sc2 where r2: "if by_email (scpr_Email ?p) (credentials (db w)) \<noteq> None
      then core_ShortCodeCreatePasswordReset E cfg urls ?p w = (Ret sc2, w2)
      else \<exists>e. core_ShortCodeCreatePasswordReset E cfg urls ?p w = (Fail e, w2) \<and>
        errors_is e ErrCredentialsSelectByEmailNotFound"
    "credentials (db w2) = credentials (db w)" "jobs w2 = jobs w @ (case by_email (scpr_Email ?p) (credentials (db w)) of
      None \<Rightarrow> [] | Some row \<Rightarrow> [mail_PasswordReset E cfg urls ?p (c_id row) sc2])"
    by (rule reset_flow_silent [OF assms(1-3) u(2) _ p]) (use assms(5,7) in simp_all)
  have "rest_ShortCodeCreatePasswordReset E cfg urls H (Inr \<lparr>hm_Email = email, hm_Lang = lang\<rparr>) w = (Ret accepted, w2)"
    using r2(1) accept_run by (auto simp: rest_ShortCodeCreatePasswordReset_def with_request_def split: if_splits)
  with r2(2,3) show "\<exists>w' sc. rest_ShortCodeCreatePasswordReset E cfg urls H (Inr \<lparr>hm_Email = email, hm_Lang = lang\<rparr>) w
        = (Ret accepted, w') \<and> credentials (db w') = credentials (db w) \<and>
      jobs w' = jobs w @ (case by_email email (credentials (db w)) of None \<Rightarrow> []
        | Some row \<Rightarrow> [mail_PasswordReset E cfg urls ?p (c_id row) sc])"
    by (intro exI [of _ w2] exI [of _ sc2]) simp
qed

section \<open>From a code to a session\<close>

text \<open>C7: Registering works end to end: while nothing breaks, the code the registration flow mails for an unused
  address creates the account with any acceptable password before it expires, and that password then signs
  in to exactly that account.\<close>

theorem registering_works:
  assumes "reliable E" "service_ok (db w)" "\<not> in_tx w"
    "core_ShortCodeCreateRegister E cfg urls \<lparr>scr_Email = email, scr_Lang = lang\<rparr> w = (Ret sc, w1)"
    "\<forall>t. x_pg_now E t < sc_ExpiresAt sc" "\<forall>t. x_now E t \<le> sc_ExpiresAt sc"
    "\<forall>t. x_uuid_new E t \<notin> c_id ` set (credentials (db w))"
    "struct_valid E (credentials_create_struct
       \<lparr>cc_Email = email, cc_Password = password, cc_ShortCode = sc_PlainCode sc\<rparr>)"
  shows "\<exists>row tok w2 tok' w3.
    core_CredentialsCreate E \<lparr>cc_Email = email, cc_Password = password, cc_ShortCode = sc_PlainCode sc\<rparr> w1 = (Ret tok, w2) \<and>
    by_email email (credentials (db w2)) = Some row \<and> c_role row = RoleUser \<and> bound_pair E tok (c_id row) RoleUser \<and>
    core_TokenCreate E \<lparr>tc_Email = email, tc_Password = password\<rparr> w2 = (Ret tok', w3) \<and>
    bound_pair E tok' (c_id row) RoleUser"
proof -
  obtain tok w2 row where c: "core_CredentialsCreate E
      \<lparr>cc_Email = email, cc_Password = password, cc_ShortCode = sc_PlainCode sc\<rparr> w1 = (Ret tok, w2)"
    "registered E \<lparr>cc_Email = email, cc_Password = password, cc_ShortCode = sc_PlainCode sc\<rparr> (db w1) row (db w2)"
    "bound_pair E tok (c_id row) RoleUser" "by_email email (credentials (db w2)) = Some row"
    by (rule mailed_code_registers [OF assms])
  have r: "c_role row = RoleUser" "generated_hash E password (c_password row)"
    using c(2) by (simp_all add: registered_def)
  have st: "struct_valid E (token_create_struct \<lparr>tc_Email = email, tc_Password = password\<rparr>)"
    using assms(8) by (simp add: credentials_create_struct_def token_create_struct_def)
  obtain tok' w3 where "core_TokenCreate E \<lparr>tc_Email = email, tc_Password = password\<rparr> w2 = (Ret tok', w3)"
    "bound_pair E tok' (c_id row) (c_role row)"
    by (rule sign_in_run [OF assms(1) st, of w2 row]) (use c r in simp_all)
  with c r show ?thesis
    by (intro exI [of _ row] exI [of _ tok] exI [of _ w2] exI [of _ tok'] exI [of _ w3]) simp
qed

section \<open>On the sample service\<close>

text \<open>A validation code for the user, with the address \<open>me@a\<close>.\<close>

definition sample_issue :: ShortCodeCreateRequest where
  "sample_issue = \<lparr>scc_Usage = ShortCodeUsageValidateEmail, scc_Target = enc_uuid 13, scc_Data = Some ''me@a'',
     scc_TTL = 48 * hour, scc_Override = True\<rparr>"

lemma sample_issue_simps [simp]:
  "scc_Usage sample_issue = ShortCodeUsageValidateEmail" "scc_Target sample_issue = enc_uuid 13"
  "scc_Data sample_issue = Some ''me@a''" "scc_TTL sample_issue = 48 * hour" "scc_Override sample_issue"
  by (simp_all add: sample_issue_def)

lemma sample_issued:
  obtains sc w' where "core_ShortCodeCreate sample ShortCodesPresetDefault sample_issue sample_world = (Ret sc, w')"
proof -
  have "struct_valid sample (create_struct sample_issue)"
    using sample_uuid_string [of 13]
    by (simp add: create_struct_def contract_tags [OF sample_validator] tag_simps unknown_usage usage_names hour_def
        second_def)
  with create_run [OF sample_reliable, of sample_world sample_issue ShortCodesPresetDefault] sample_size that
  show thesis by auto
qed

text \<open>What the sample's clock makes of the expiry of a code.\<close>

lemma sample_expiry:
  assumes "core_ShortCodeCreate sample cfg rq w = (Ret sc, w')" "\<not> in_tx w" "0 < scc_TTL rq" "scc_TTL rq mod second = 0"
  shows "x_pg_now sample t < sc_ExpiresAt sc" "x_now sample t \<le> sc_ExpiresAt sc"
proof -
  note env = environment_okD [OF sample_ok]
  obtain i enc data now where cr:
    "sc = to_ShortCode (new_code (insert_request rq i enc data now)) (sc_PlainCode sc)" "now \<in> range (x_now sample)"
    by (rule create_Ret [OF assms(1) env(2) assms(2) env(4)])
  have "sc_ExpiresAt sc = pg_ts0 (now + scc_TTL rq)"
    by (subst cr(1)) (simp add: to_ShortCode_def)
  moreover have "now = 1000 * second" using cr(2) by auto
  moreover obtain k where "scc_TTL rq = second * k" using assms(4) by auto
  ultimately have "sc_ExpiresAt sc = 1000 * second + scc_TTL rq"
    by (simp add: pg_ts0_def second_def)
  with assms(3) show "x_pg_now sample t < sc_ExpiresAt sc" "x_now sample t \<le> sc_ExpiresAt sc" by simp_all
qed

lemma sample_code_struct:
  assumes "core_ShortCodeCreate sample ShortCodesPresetDefault rq w = (Ret sc, w')" "\<not> in_tx w"
  shows "sc_PlainCode sc \<noteq> '''' \<and> rune_count (sc_PlainCode sc) \<le> 1024"
proof -
  note env = environment_okD [OF sample_ok]
  have "int (length (sc_PlainCode sc)) = Size ShortCodesPresetDefault"
    by (rule create_Ret [OF assms(1) env(2) assms(2) env(4)])
  then have l: "length (sc_PlainCode sc) = 12" by (simp add: ShortCodesPresetDefault_def)
  then have "rune_count (sc_PlainCode sc) \<le> 1024" by (intro rune_count_le) simp
  with l show ?thesis by auto
qed

lemma sample_codes_ok: "short_codes_ok (db sample_world)"
  by (simp add: service_okD(2) sample_service_ok)

lemma sample_keeps_codes:
  "core_ShortCodeCreate sample cfg rq sample_world = (r, w') \<Longrightarrow> short_codes_ok (db w')"
  using keepsD [OF create_keeps_ok(1) [OF environment_okD(2) [OF sample_ok], where cfg = cfg and rq = rq], of sample_world]
    sample_codes_ok by simp

lemma sample_redeemable:
  assumes "core_ShortCodeCreate sample ShortCodesPresetDefault sample_issue sample_world = (Ret sc, w')"
  shows "struct_valid sample (consume_struct \<lparr>sco_Usage = scc_Usage sample_issue, sco_Target = scc_Target sample_issue,
      sco_Code = sc_PlainCode sc\<rparr>)"
  using sample_code_struct [OF assms] sample_uuid_string [of 13]
  by (simp add: consume_struct_def contract_tags [OF sample_validator] tag_simps unknown_usage usage_names)

text \<open>A registration code for an address without an account.\<close>

lemma sample_register_flow:
  obtains sc w' where "core_ShortCodeCreateRegister sample ShortCodesPresetDefault sample_urls
      \<lparr>scr_Email = ''new@a'', scr_Lang = ''en''\<rparr> sample_world = (Ret sc, w')"
proof -
  let ?rq = "\<lparr>scr_Email = ''new@a'', scr_Lang = ''en''\<rparr>"
  have st: "struct_valid sample (register_struct ?rq)"
    by (simp add: register_struct_def contract_tags [OF sample_validator] tag_simps builtin_tags KnownLangs_def
        rune_count_def)
  have new: "by_email ''new@a'' sample_accounts = None"
    by (simp add: by_email_def sample_accounts_def sample_account_def)
  have ttl: "usage_ttl ShortCodesPresetDefault ShortCodeUsageRegister \<noteq> 0"
    using sample_ttl(1) by (simp add: hour_def second_def)
  obtain w' sc where "if by_email (scr_Email ?rq) (credentials (db sample_world)) = None
       then core_ShortCodeCreateRegister sample ShortCodesPresetDefault sample_urls ?rq sample_world = (Ret sc, w')
       else \<exists>e. core_ShortCodeCreateRegister sample ShortCodesPresetDefault sample_urls ?rq sample_world = (Fail e, w') \<and>
         errors_is e ErrCredentialsInsertAlreadyExists"
    by (rule register_flow_silent [OF sample_reliable _ sample_size ttl _ st, of sample_world]) simp_all
  with new that show thesis by simp
qed

lemma sample_registering:
  assumes "core_ShortCodeCreateRegister sample ShortCodesPresetDefault sample_urls
      \<lparr>scr_Email = ''new@a'', scr_Lang = ''en''\<rparr> sample_world = (Ret sc, w')"
  shows "\<forall>t. x_pg_now sample t < sc_ExpiresAt sc" "\<forall>t. x_now sample t \<le> sc_ExpiresAt sc"
    "\<forall>t. x_uuid_new sample t \<notin> c_id ` set (credentials (db sample_world))"
    "struct_valid sample (credentials_create_struct
       \<lparr>cc_Email = ''new@a'', cc_Password = ''word'', cc_ShortCode = sc_PlainCode sc\<rparr>)"
proof -
  obtain w1 w2 where c: "frame sample_world w1" "core_ShortCodeCreate sample ShortCodesPresetDefault
      \<lparr>scc_Usage = ShortCodeUsageRegister, scc_Target = ''new@a'', scc_Data = None,
        scc_TTL = usage_ttl ShortCodesPresetDefault ShortCodeUsageRegister, scc_Override = True\<rparr> w1 = (Ret sc, w2)"
    using register_Ret [OF assms] by (metis ShortCodeCreateRegisterRequest.select_convs(1))
  have tx: "\<not> in_tx w1" using c(1) by (simp add: frame_def)
  have t: "0 < usage_ttl ShortCodesPresetDefault ShortCodeUsageRegister"
    "usage_ttl ShortCodesPresetDefault ShortCodeUsageRegister mod second = 0"
    by (simp_all add: sample_ttl(1) hour_def second_def)
  note ex = sample_expiry [OF c(2) tx, simplified, OF t]
  then show "\<forall>t. x_pg_now sample t < sc_ExpiresAt sc" "\<forall>t. x_now sample t \<le> sc_ExpiresAt sc" by simp_all
  show "\<forall>t. x_uuid_new sample t \<notin> c_id ` set (credentials (db sample_world))" using sample_fresh by simp
  show "struct_valid sample (credentials_create_struct
       \<lparr>cc_Email = ''new@a'', cc_Password = ''word'', cc_ShortCode = sc_PlainCode sc\<rparr>)"
    using sample_code_struct [OF c(2) tx]
    by (simp add: credentials_create_struct_def contract_tags [OF sample_validator] builtin_tags tag_simps
        rune_count_def)
qed

lemma failed_redeeming_run:
  obtains e w' where "core_ShortCodeConsume sample \<lparr>sco_Usage = ShortCodeUsageRegister, sco_Target = ''new@a'', sco_Code = ''x''\<rparr>
      sample_world = (Fail e, w')"
proof -
  let ?rq = "\<lparr>sco_Usage = ShortCodeUsageRegister, sco_Target = ''new@a'', sco_Code = ''x''\<rparr>"
  have "struct_valid sample (consume_struct ?rq)"
    by (simp add: consume_struct_def contract_tags [OF sample_validator] tag_simps unknown_usage usage_names
        rune_count_def)
  from consume_absent [OF sample_reliable this, of sample_world] show thesis
    using that by (auto simp: refused_with_def find_active_def)
qed

lemma code_redeemed_once_witness:
  "(\<exists>sc w1 w2. core_ShortCodeConsume sample \<lparr>sco_Usage = ShortCodeUsageValidateEmail, sco_Target = enc_uuid 13,
      sco_Code = sc_PlainCode sc\<rparr> w1 = (Ret sc, w2) \<and>
    (\<forall>now. find_active (enc_uuid 13, ShortCodeUsageValidateEmail) now (short_codes (db w2)) = None)) \<and>
   (\<exists>e w'. core_ShortCodeConsume sample \<lparr>sco_Usage = ShortCodeUsageRegister, sco_Target = ''new@a'', sco_Code = ''x''\<rparr>
      sample_world = (Fail e, w') \<and> db w' = db sample_world)"
proof
  obtain sc w1 where c: "core_ShortCodeCreate sample ShortCodesPresetDefault sample_issue sample_world = (Ret sc, w1)"
    by (rule sample_issued)
  let ?rq = "\<lparr>sco_Usage = scc_Usage sample_issue, sco_Target = scc_Target sample_issue, sco_Code = sc_PlainCode sc\<rparr>"
  obtain w2 where r: "core_ShortCodeConsume sample ?rq w1 = (Ret sc, w2)"
    by (rule issued_redeemable [OF sample_reliable _ _ c refl sample_expiry [OF c] sample_redeemable [OF c]])
      (simp_all add: sample_codes_ok hour_def second_def)
  have "short_codes_ok (db w1)" by (rule sample_keeps_codes [OF c])
  from code_redeemed_once [OF r this] r show "\<exists>sc w1 w2. core_ShortCodeConsume sample
      \<lparr>sco_Usage = ShortCodeUsageValidateEmail, sco_Target = enc_uuid 13, sco_Code = sc_PlainCode sc\<rparr> w1 = (Ret sc, w2) \<and>
      (\<forall>now. find_active (enc_uuid 13, ShortCodeUsageValidateEmail) now (short_codes (db w2)) = None)" by auto
  obtain e w' where f: "core_ShortCodeConsume sample \<lparr>sco_Usage = ShortCodeUsageRegister, sco_Target = ''new@a'',
      sco_Code = ''x''\<rparr> sample_world = (Fail e, w')" by (rule failed_redeeming_run)
  from code_redeemed_once [OF f sample_codes_ok] f sample_healthy
  show "\<exists>e w'. core_ShortCodeConsume sample \<lparr>sco_Usage = ShortCodeUsageRegister, sco_Target = ''new@a'', sco_Code = ''x''\<rparr>
      sample_world = (Fail e, w') \<and> db w' = db sample_world" by auto
qed

lemma issuing_supersedes_witness:
  "\<exists>sc w'. core_ShortCodeCreate sample ShortCodesPresetDefault sample_issue sample_world = (Ret sc, w') \<and>
     length (sc_PlainCode sc) = 12 \<and> set (sc_PlainCode sc) \<subseteq> set URLCharList"
proof -
  obtain sc w1 where c: "core_ShortCodeCreate sample ShortCodesPresetDefault sample_issue sample_world = (Ret sc, w1)"
    by (rule sample_issued)
  have "int (length (sc_PlainCode sc)) = Size ShortCodesPresetDefault \<and> set (sc_PlainCode sc) \<subseteq> set URLCharList"
    using issuing_supersedes [OF sample_ok sample_codes_ok _ c] by auto
  with c show ?thesis by (intro exI [of _ sc] exI [of _ w1]) (simp add: ShortCodesPresetDefault_def)
qed

lemma issued_code_redeems_witness:
  "\<exists>sc w1 w2. core_ShortCodeCreate sample ShortCodesPresetDefault sample_issue sample_world = (Ret sc, w1) \<and>
     core_ShortCodeConsume sample \<lparr>sco_Usage = ShortCodeUsageValidateEmail, sco_Target = enc_uuid 13,
       sco_Code = sc_PlainCode sc\<rparr> w1 = (Ret sc, w2)"
proof -
  obtain sc w1 where c: "core_ShortCodeCreate sample ShortCodesPresetDefault sample_issue sample_world = (Ret sc, w1)"
    by (rule sample_issued)
  have t: "0 < scc_TTL sample_issue" "scc_TTL sample_issue mod second = 0" by (simp_all add: hour_def second_def)
  have "\<forall>t. x_pg_now sample t < sc_ExpiresAt sc" "\<forall>t. x_now sample t \<le> sc_ExpiresAt sc"
    using sample_expiry [OF c _ t] by simp_all
  from issued_code_redeems [OF sample_reliable sample_codes_ok _ c refl this sample_redeemable [OF c]] c
  show ?thesis by auto
qed

lemma flows_mail_what_they_store_witness:
  "\<exists>sc w'. core_ShortCodeCreateRegister sample ShortCodesPresetDefault sample_urls
      \<lparr>scr_Email = ''new@a'', scr_Lang = ''en''\<rparr> sample_world = (Ret sc, w') \<and>
    jobs w' = [mail_Register sample ShortCodesPresetDefault sample_urls \<lparr>scr_Email = ''new@a'', scr_Lang = ''en''\<rparr> sc]"
proof -
  obtain sc w1 where f: "core_ShortCodeCreateRegister sample ShortCodesPresetDefault sample_urls
      \<lparr>scr_Email = ''new@a'', scr_Lang = ''en''\<rparr> sample_world = (Ret sc, w1)" by (rule sample_register_flow)
  have "jobs w1 = jobs sample_world @ [mail_Register sample ShortCodesPresetDefault sample_urls
      \<lparr>scr_Email = ''new@a'', scr_Lang = ''en''\<rparr> sc]"
    using flows_mail_what_they_store [OF sample_ok, of sample_world ShortCodesPresetDefault sample_urls] f by auto
  with f show ?thesis by auto
qed

lemma mail_flows_are_silent_witness:
  "\<exists>w'. rest_ShortCodeCreateRegister sample ShortCodesPresetDefault sample_urls sample_http
      (Inr \<lparr>hm_Email = ''user@a'', hm_Lang = ''en''\<rparr>) sample_world = (Ret accepted, w') \<and> jobs w' = []"
proof -
  have "struct_valid sample (register_struct \<lparr>scr_Email = ''user@a'', scr_Lang = ''en''\<rparr>)"
    by (simp add: register_struct_def contract_tags [OF sample_validator] tag_simps builtin_tags KnownLangs_def
        rune_count_def)
  moreover have "by_email ''user@a'' sample_accounts \<noteq> None"
    by (simp add: by_email_def sample_accounts_def sample_account_def)
  ultimately show ?thesis
    using mail_flows_are_silent [OF sample_reliable, of sample_world ShortCodesPresetDefault "''user@a''" "''en''"
        sample_urls sample_http] sample_size sample_ttl sample_uuid_string
    by (auto simp: KnownShortCodeUsages_def hour_def second_def)
qed

lemma registration_all_or_nothing_witness:
  "\<exists>w1 rq tok w2 row. core_CredentialsCreate sample rq w1 = (Ret tok, w2) \<and> registered sample rq (db w1) row (db w2) \<and>
     bound_pair sample tok (c_id row) RoleUser"
proof -
  obtain sc w1 where f: "core_ShortCodeCreateRegister sample ShortCodesPresetDefault sample_urls
      \<lparr>scr_Email = ''new@a'', scr_Lang = ''en''\<rparr> sample_world = (Ret sc, w1)" by (rule sample_register_flow)
  obtain tok w2 where c: "core_CredentialsCreate sample
      \<lparr>cc_Email = ''new@a'', cc_Password = ''word'', cc_ShortCode = sc_PlainCode sc\<rparr> w1 = (Ret tok, w2)"
    and ok: "service_ok (db w1)" "\<not> in_tx w1"
    by (rule mailed_code_registers [OF sample_reliable sample_service_ok _ f sample_registering [OF f]]) simp_all
  from registration_all_or_nothing [OF sample_ok ok c] c show ?thesis by blast
qed

lemma registering_works_witness:
  "\<exists>sc w1 w2 tok' w3. core_ShortCodeCreateRegister sample ShortCodesPresetDefault sample_urls
      \<lparr>scr_Email = ''new@a'', scr_Lang = ''en''\<rparr> sample_world = (Ret sc, w1) \<and>
     core_TokenCreate sample \<lparr>tc_Email = ''new@a'', tc_Password = ''word''\<rparr> w2 = (Ret tok', w3)"
proof -
  obtain sc w1 where f: "core_ShortCodeCreateRegister sample ShortCodesPresetDefault sample_urls
      \<lparr>scr_Email = ''new@a'', scr_Lang = ''en''\<rparr> sample_world = (Ret sc, w1)" by (rule sample_register_flow)
  from registering_works [OF sample_reliable sample_service_ok _ f sample_registering [OF f]] f
  show ?thesis by auto
qed

lemma email_comes_from_the_code_witness:
  "\<exists>w1 rq w2 new. fst (core_CredentialsUpdateEmail sample rq w1) = Ret (to_Credentials new) \<and>
     snd (core_CredentialsUpdateEmail sample rq w1) = w2 \<and> c_email new = ''me@a'' \<and>
     by_id 13 (credentials (db w2)) = Some new"
proof -
  obtain sc w1 where c: "core_ShortCodeCreate sample ShortCodesPresetDefault sample_issue sample_world = (Ret sc, w1)"
    by (rule sample_issued)
  note env = environment_okD [OF sample_ok]
  obtain i enc data now where cr:
    "sc = to_ShortCode (new_code (insert_request sample_issue i enc data now)) (sc_PlainCode sc)"
    "generated_hash sample (sc_PlainCode sc) enc" "marshalled sample (scc_Data sample_issue) = Ret data"
    "issued (insert_request sample_issue i enc data now) (db sample_world) (db w1)" "\<not> in_tx w1"
    by (rule create_Ret [OF c env(2) _ env(4)]) simp
  let ?c = "new_code (insert_request sample_issue i enc data now)"
  have ex: "sc_ExpiresAt sc = s_expires_at ?c"
    by (subst cr(1)) (simp add: to_ShortCode_def del: new_code_simps)
  have t: "0 < scc_TTL sample_issue" "scc_TTL sample_issue mod second = 0" by (simp_all add: hour_def second_def)
  note clocks = sample_expiry [OF c _ t, simplified ex]
  note found = issued_find [OF cr(4) sample_codes_ok, of "1000 * second"]
  have live: "1000 * second < pg_ts0 (now + scc_TTL sample_issue)" using clocks(1) by simp
  have act: "find_active (enc_uuid 13, ShortCodeUsageValidateEmail) (1000 * second) (short_codes (db w1)) = Some ?c"
    using found(1) live by simp
  have cs: "credentials (db w1) = sample_accounts" using found(4) live by simp
  have ok: "service_ok (db w1)"
    using found(3) live cs sample_accounts_ok by (simp add: service_ok_def accounts_ok_def)
  have cmp: "CompareArgon2 sample_idkey 19 (sc_PlainCode sc) (s_code ?c) = Ret ()"
    using own_password_accepted [OF env(5) cr(2)] by (simp add: io_CompareArgon2_def)
  have payload: "x_json_unmarshal sample (s_data ?c) = Inr ''me@a''"
    using cr(3) by (auto simp: marshalled_def sample_def)
  let ?rq = "\<lparr>cue_UserID = 13, cue_ShortCode = sc_PlainCode sc\<rparr>"
  have s1: "struct_valid sample [(FStr (cue_ShortCode ?rq), [Required, Max 1024])]"
    using sample_code_struct [OF c] by (simp add: contract_tags [OF sample_validator])
  have s2: "struct_valid sample (consume_struct \<lparr>sco_Usage = ShortCodeUsageValidateEmail,
      sco_Target = x_uuid_string sample (cue_UserID ?rq), sco_Code = cue_ShortCode ?rq\<rparr>)"
    using sample_redeemable [OF c] by simp
  have new: "by_email ''me@a'' sample_accounts = None"
    by (simp add: by_email_def sample_accounts_def sample_account_def)
  obtain n w2 where e: "core_CredentialsUpdateEmail sample ?rq w1 =
      (Ret (to_Credentials (set_email ''me@a'' n (sample_account 13 ''user@a'' RoleUser))), w2)"
    "credentials (db w2) = update_row (cue_UserID ?rq) (set_email ''me@a'' n) (credentials (db w1))"
    by (rule email_run [OF sample_reliable cr(5) ok s1 s2, of ?c "''me@a''" "sample_account 13 ''user@a'' RoleUser"])
      (use act clocks cmp payload cs new sample_user in simp_all)
  have "by_id 13 (credentials (db w2)) = Some (set_email ''me@a'' n (sample_account 13 ''user@a'' RoleUser))"
    using e(2) cs by (simp add: by_id_def update_row_def sample_accounts_def sample_account_def)
  moreover from this have "db w2 \<noteq> db w1"
    using cs sample_user by (auto simp: sample_account_def set_email_def)
  from email_comes_from_the_code [OF sample_ok ok cr(5) e(1) this] calculation obtain old new' n' where
    "by_id 13 (credentials (db w2)) = Some new'" "new' = set_email (c_email new') n' old" by auto
  ultimately show ?thesis using e(1)
    by (intro exI [of _ w1] exI [of _ ?rq] exI [of _ w2]
        exI [of _ "set_email ''me@a'' n (sample_account 13 ''user@a'' RoleUser)"]) simp
qed

lemma superadmin_provisioned_witness:
  "\<exists>r w'. core_CredentialsCreateSuperAdmin sample \<lparr>sa_Email = ''user@a'', sa_Password = ''word''\<rparr> sample_world = (r, w') \<and>
     (db w' = db sample_world \<or>
      (\<exists>row. by_email ''user@a'' (credentials (db w')) = Some row \<and> c_role row = RoleSuperAdmin))"
proof -
  let ?rq = "\<lparr>sa_Email = ''user@a'', sa_Password = ''word''\<rparr>"
  obtain r w' where c: "core_CredentialsCreateSuperAdmin sample ?rq sample_world = (r, w')"
    by (cases "core_CredentialsCreateSuperAdmin sample ?rq sample_world")
  from superadmin_provisioned [OF sample_ok sample_accounts_ok _ c] c show ?thesis
    by (auto simp: provisioned_def)
qed

lemma update_role_decides_witness:
  "\<exists>c w'. core_CredentialsUpdateRole sample
      \<lparr>cur_TargetUserID = 13, cur_CurrentUserID = 11, cur_Role = RoleAdmin\<rparr> sample_world = (Ret c, w') \<and>
     cr_Role c = RoleAdmin \<and>
     (\<exists>e v. core_CredentialsUpdateRole sample
        \<lparr>cur_TargetUserID = 13, cur_CurrentUserID = 21, cur_Role = RoleSuperAdmin\<rparr> sample_world = (Fail e, v) \<and>
        errors_is e ErrCredentialsUpdateRoleToHigher)"
proof -
  let ?up = "\<lparr>cur_TargetUserID = 13, cur_CurrentUserID = 11, cur_Role = RoleAdmin\<rparr>"
    and ?no = "\<lparr>cur_TargetUserID = 13, cur_CurrentUserID = 21, cur_Role = RoleSuperAdmin\<rparr>"
  have "role_decision ?no sample_accounts = Inl ErrCredentialsUpdateRoleToHigher"
    by (simp add: role_decision_def sample_accounts_def by_id_def sample_account_def rank_roles)
  then show ?thesis
    using update_role_decides [OF sample_healthy sample_validator sample_accounts_ok, of ?up]
      update_role_decides [OF sample_healthy sample_validator sample_accounts_ok, of ?no] promotion_decided
    by auto
qed

lemma sample_sign_in_struct:
  "struct_valid sample (token_create_struct \<lparr>tc_Email = ''user@a'', tc_Password = ''pass''\<rparr>)"
  "struct_valid sample (token_create_struct \<lparr>tc_Email = ''nobody@a'', tc_Password = ''pass''\<rparr>)"
  by (simp_all add: token_create_struct_def contract_tags [OF sample_validator] builtin_tags rune_count_def)

lemma sample_by_email: "by_email ''user@a'' sample_accounts = Some (sample_account 13 ''user@a'' RoleUser)"
  "by_email ''nobody@a'' sample_accounts = None"
  by (simp_all add: by_email_def sample_accounts_def sample_account_def)

lemma sample_signs_in:
  obtains tok w' where "core_TokenCreate sample \<lparr>tc_Email = ''user@a'', tc_Password = ''pass''\<rparr> sample_world = (Ret tok, w')"
    "bound_pair sample tok 13 RoleUser" "db w' = db sample_world"
proof (rule sign_in_run [OF sample_reliable sample_sign_in_struct(1), of sample_world "sample_account 13 ''user@a'' RoleUser"])
qed (use that sample_by_email sample_hash_generated in \<open>simp_all add: sample_account_def\<close>)

lemma sign_in_reveals_nothing_witness:
  "\<exists>w'. rest_TokenCreate sample sample_http (Inr \<lparr>ht_Email = ''nobody@a'', ht_Password = ''pass''\<rparr>) sample_world
      = (Ret (Reply 401 ErrorBody), w') \<and> work w' = [derivation (resolved_params sample)]"
  using sign_in_reveals_nothing [OF sample_reliable sample_http_status sample_sign_in_struct(2), of sample_world]
    sample_by_email(2) by auto

lemma sign_in_sound_witness:
  "\<exists>tok w'. core_TokenCreate sample \<lparr>tc_Email = ''user@a'', tc_Password = ''pass''\<rparr> sample_world = (Ret tok, w') \<and>
     bound_pair sample tok 13 RoleUser"
proof -
  obtain tok w' where c: "core_TokenCreate sample \<lparr>tc_Email = ''user@a'', tc_Password = ''pass''\<rparr> sample_world = (Ret tok, w')"
    by (rule sample_signs_in)
  from sign_in_sound [OF sample_keys c] c sample_by_email(1) show ?thesis by (auto simp: sample_account_def)
qed

text \<open>The pair a sign-in on the sample database gives, written out.\<close>

definition sample_pair :: Token where
  "sample_pair = \<lparr>AccessToken = CHR ''A'' # enc_claims \<lparr>UserID = Some 13, Roles = [RoleUser], RefreshTokenID = ''j2''\<rparr>,
     RefreshToken = CHR ''R'' # enc_str ''2'' @ enc_uuid 13\<rparr>"

lemma sample_sign_in:
  obtains w' where "core_TokenCreate sample \<lparr>tc_Email = ''user@a'', tc_Password = ''pass''\<rparr> sample_world
      = (Ret sample_pair, w')"
proof -
  let ?row = "sample_account 13 ''user@a'' RoleUser"
  have "by_email ''user@a'' (credentials (db sample_world)) = Some ?row" using sample_by_email by simp
  note s = select_email_healthy(1) [OF sample_healthy this]
  note c = own_password_accepted [OF sample_passwords sample_hash_generated [of "''pass''"]]
  have two: "show_nat 2 = ''2''" by code_simp
  have "core_TokenCreate sample \<lparr>tc_Email = ''user@a'', tc_Password = ''pass''\<rparr> sample_world =
      (Ret sample_pair, snd (core_TokenCreate sample \<lparr>tc_Email = ''user@a'', tc_Password = ''pass''\<rparr> sample_world))"
    using sample_sign_in_struct(1)
    by (simp add: core_TokenCreate_def prog_simps validate_run s c signTokenPair_def marshal_any_def claims_sign_def
        ask_err_run sample_marshal_def sample_sign_def sample_decode_def sample_pair_def numeral_2_eq_2 [symmetric] two)
      (simp add: sample_account_def)
  then show thesis by (rule that)
qed

lemma sample_pair_struct:
  "struct_valid sample (token_refresh_struct
     \<lparr>tr_AccessToken = AccessToken sample_pair, tr_RefreshToken = RefreshToken sample_pair\<rparr>)"
proof -
  have "length (enc_uuid 13) \<le> 39"
    unfolding enc_uuid_def using unat_bound [of "13 :: uuid"] by (intro show_nat_length) simp_all
  then have "length (AccessToken sample_pair) \<le> 1024" "length (RefreshToken sample_pair) \<le> 1024"
    by (simp_all add: sample_pair_def enc_claims_def enc_str_def role_names)
  then have "rune_count (AccessToken sample_pair) \<le> 1024" "rune_count (RefreshToken sample_pair) \<le> 1024"
    by (simp_all add: rune_count_le)
  moreover have "AccessToken sample_pair \<noteq> ''''" "RefreshToken sample_pair \<noteq> ''''"
    by (simp_all add: sample_pair_def)
  ultimately show ?thesis
    by (simp add: token_refresh_struct_def contract_tags [OF sample_validator])
qed



lemma refresh_sound_witness:
  "\<exists>tok v'. core_TokenRefresh sample \<lparr>tr_AccessToken = AccessToken sample_pair,
      tr_RefreshToken = RefreshToken sample_pair\<rparr> sample_world = (Ret tok, v') \<and> db v' = db sample_world"
proof -
  obtain w' where c: "core_TokenCreate sample \<lparr>tc_Email = ''user@a'', tc_Password = ''pass''\<rparr> sample_world
      = (Ret sample_pair, w')" by (rule sample_sign_in)
  obtain row w1 where "by_email ''user@a'' sample_accounts = Some row" "signTokenPair sample row w1 = (Ret sample_pair, w')"
    using token_create_Ret [OF c] by (metis TokenCreateRequest.select_convs(1) sample_world_simps(5))
  then have "bound_pair sample sample_pair 13 RoleUser"
    using signTokenPair_Ret(1) [OF sample_keys] sample_by_email(1) by (force simp: sample_account_def)
  then have b: "bound_pair sample \<lparr>AccessToken = tr_AccessToken \<lparr>tr_AccessToken = AccessToken sample_pair,
      tr_RefreshToken = RefreshToken sample_pair\<rparr>, RefreshToken = tr_RefreshToken \<lparr>tr_AccessToken = AccessToken sample_pair,
      tr_RefreshToken = RefreshToken sample_pair\<rparr>\<rparr> 13 RoleUser" by (simp add: bound_pair_def)
  have u: "by_id 13 (credentials (db sample_world)) = Some (sample_account 13 ''user@a'' RoleUser)"
    using sample_user by simp
  obtain tok v' where r: "core_TokenRefresh sample \<lparr>tr_AccessToken = AccessToken sample_pair,
      tr_RefreshToken = RefreshToken sample_pair\<rparr> sample_world = (Ret tok, v')"
    by (rule refresh_run [OF sample_reliable sample_pair_struct b u])
  from refresh_sound [OF sample_keys r] r show ?thesis by blast
qed

lemma listing_pages_witness:
  "\<exists>page. (\<forall>n. fst (core_CredentialsList sample \<lparr>lr_Limit = 2, lr_Offset = int n * 2, lr_Roles = []\<rparr> sample_world)
       = Ret (page n)) \<and>
     concat (map page [0..<2]) = take 4 (map to_Credentials (listing [] sample_accounts))"
proof -
  from listing_pages [OF sample_healthy sample_validator, of 2 "[]" sample_world] obtain page where
    "\<forall>n w'. credentials (db w') = credentials (db sample_world) \<longrightarrow>
        fst (core_CredentialsList sample \<lparr>lr_Limit = 2, lr_Offset = int n * 2, lr_Roles = []\<rparr> w') = Ret (page n)"
    "\<forall>m. concat (map page [0..<m]) = take (m * nat 2) (map to_Credentials (listing [] sample_accounts))"
    by auto
  then show ?thesis by (intro exI [of _ page]) (auto dest: spec [of _ 2])
qed

end
