(* ===== verification/Settings.thy ===== *)
theory Settings
  imports Config
begin

text \<open>
  The settings of the processes: \<open>internal/config/env/env.go\<close> reads the environment variables (under
  an optional prefix) with the defaults written there, and \<open>internal/config/app.config.default.go\<close>
  assembles the configuration. The parsers and \<open>LoadEnv\<close> of the configuration library are a parameter
  whose only assumed law is that an unset variable takes its default.
\<close>

section \<open>Defaults\<close>

definition SmtpTimeoutDefault :: "time" where "SmtpTimeoutDefault = 20 * second"
definition SmtpMaxConcurrentDefault :: "int" where "SmtpMaxConcurrentDefault = 16"
definition PlatformEmailUpdateUrlDefault :: "string" where "PlatformEmailUpdateUrlDefault = ''/ext/email/validate''"
definition PlatformPasswordResetUrlDefault :: "string" where "PlatformPasswordResetUrlDefault = ''/ext/password/reset''"
definition PlatformAccountCreateUrlDefault :: "string" where "PlatformAccountCreateUrlDefault = ''/ext/account/create''"
definition AppNameDefault :: "string" where "AppNameDefault = ''service-authentication''"
definition ServiceJsonKeysHostDefault :: "string" where "ServiceJsonKeysHostDefault = ''localhost''"
definition ServiceJsonKeysPortDefault :: "int" where "ServiceJsonKeysPortDefault = 8080"
definition RestPortDefault :: "int" where "RestPortDefault = 8080"
definition RestTimeoutReadDefault :: "time" where "RestTimeoutReadDefault = 15 * second"
definition RestTimeoutReadHeaderDefault :: "time" where "RestTimeoutReadHeaderDefault = 3 * second"
definition RestTimeoutWriteDefault :: "time" where "RestTimeoutWriteDefault = 30 * second"
definition RestTimeoutIdleDefault :: "time" where "RestTimeoutIdleDefault = 60 * second"
definition RestTimeoutRequestDefault :: "time" where "RestTimeoutRequestDefault = 60 * second"
definition RestTimeoutShutdownDefault :: "time" where "RestTimeoutShutdownDefault = 25 * second"
definition RestMaxRequestSizeDefault :: "int" where "RestMaxRequestSizeDefault = push_bit 20 2"
definition CorsAllowCredentialsDefault :: "bool" where "CorsAllowCredentialsDefault = False"
definition CorsMaxAgeDefault :: "int" where "CorsMaxAgeDefault = 3600"
definition PostgresMaxOpenConnsDefault :: "int" where "PostgresMaxOpenConnsDefault = 20"
definition PostgresMaxIdleConnsDefault :: "int" where "PostgresMaxIdleConnsDefault = 20"
definition CorsAllowedOriginsDefault :: "string list" where "CorsAllowedOriginsDefault = [''*'']"
definition CorsAllowedHeadersDefault :: "string list" where "CorsAllowedHeadersDefault = [''*'']"

lemmas setting_defaults =
  SmtpTimeoutDefault_def SmtpMaxConcurrentDefault_def PlatformEmailUpdateUrlDefault_def
  PlatformPasswordResetUrlDefault_def PlatformAccountCreateUrlDefault_def AppNameDefault_def
  ServiceJsonKeysHostDefault_def ServiceJsonKeysPortDefault_def RestPortDefault_def
  RestTimeoutReadDefault_def RestTimeoutReadHeaderDefault_def RestTimeoutWriteDefault_def
  RestTimeoutIdleDefault_def RestTimeoutRequestDefault_def RestTimeoutShutdownDefault_def
  RestMaxRequestSizeDefault_def CorsAllowCredentialsDefault_def CorsMaxAgeDefault_def
  PostgresMaxOpenConnsDefault_def PostgresMaxIdleConnsDefault_def CorsAllowedOriginsDefault_def
  CorsAllowedHeadersDefault_def

section \<open>The environment variables\<close>

text \<open>\<open>config.LoadEnv(raw, default, parser)\<close> of the configuration library, by parser: a value, or the end
  of the process when a set variable does not parse.\<close>

record env_loader =
  le_string :: "string \<Rightarrow> string \<Rightarrow> string outcome"
  le_int :: "string \<Rightarrow> int \<Rightarrow> int outcome"
  le_int64 :: "string \<Rightarrow> int \<Rightarrow> int outcome"
  le_duration :: "string \<Rightarrow> time \<Rightarrow> time outcome"
  le_bool :: "string \<Rightarrow> bool \<Rightarrow> bool outcome"
  le_strings :: "string \<Rightarrow> string list \<Rightarrow> string list outcome"

text \<open>The documented behaviour: the default of an unset variable; the string parser keeps its text.\<close>

definition loader_contract :: "env_loader \<Rightarrow> bool" where
  "loader_contract L \<longleftrightarrow> (\<forall>d. le_string L '''' d = Ret d) \<and> (\<forall>d. le_int L '''' d = Ret d) \<and>
     (\<forall>d. le_int64 L '''' d = Ret d) \<and>
     (\<forall>d. le_duration L '''' d = Ret d) \<and> (\<forall>d. le_bool L '''' d = Ret d) \<and>
     (\<forall>d. le_strings L '''' d = Ret d) \<and> (\<forall>s d. s \<noteq> '''' \<longrightarrow> le_string L s d = Ret s)"

lemma loader_contractD:
  assumes "loader_contract L"
  shows "le_string L s d = Ret (if s = '''' then d else s)" "le_int L '''' n = Ret n" "le_int64 L '''' n = Ret n"
    "le_duration L '''' t = Ret t" "le_bool L '''' b = Ret b" "le_strings L '''' ss = Ret ss"
  using assms by (simp_all add: loader_contract_def)

text \<open>The operating system's variables; one that is not set reads as the empty string.\<close>

type_synonym environ = "string \<Rightarrow> string"

definition prefixed :: "environ \<Rightarrow> environ" where
  "prefixed Getenv name = Getenv (Getenv ''SERVICE_AUTHENTICATION_ENV_PREFIX'' @ name)"

record settings =
  env_PostgresDsn :: "string"
  env_PostgresMaxOpenConns :: "int"
  env_PostgresMaxIdleConns :: "int"
  env_PlatformAuthUrl :: "string"
  env_PlatformAuthUpdateEmailUrl :: "string"
  env_PlatformAuthUpdatePasswordUrl :: "string"
  env_PlatformAuthRegisterUrl :: "string"
  env_ServiceJsonKeysHost :: "string"
  env_ServiceJsonKeysPort :: "int"
  env_SmtpAddr :: "string"
  env_SmtpSenderName :: "string"
  env_SmtpSenderEmail :: "string"
  env_SmtpSenderPassword :: "string"
  env_SmtpSenderDomain :: "string"
  env_SmtpTimeout :: "time"
  env_SmtpMaxConcurrent :: "int"
  env_SmtpForceUnencrypted :: "bool"
  env_AppName :: "string"
  env_Otel :: "bool"
  env_RestPort :: "int"
  env_RestMaxRequestSize :: "int"
  env_RestTimeoutRead :: "time"
  env_RestTimeoutReadHeader :: "time"
  env_RestTimeoutWrite :: "time"
  env_RestTimeoutIdle :: "time"
  env_RestTimeoutRequest :: "time"
  env_RestTimeoutShutdown :: "time"
  env_CorsAllowedOrigins :: "string list"
  env_CorsAllowedHeaders :: "string list"
  env_CorsAllowCredentials :: "bool"
  env_CorsMaxAge :: "int"
  env_GcloudProjectId :: "string"
  env_SuperAdminEmail :: "string"
  env_SuperAdminPassword :: "string"

definition loaded :: "'a outcome \<Rightarrow> ('a \<Rightarrow> 'b outcome) \<Rightarrow> 'b outcome" where
  "loaded r f = map_outcome_ret f r"

definition read_settings :: "env_loader \<Rightarrow> environ \<Rightarrow> settings outcome" where
  "read_settings L getEnv =
     loaded (le_int L (getEnv ''POSTGRES_MAX_OPEN_CONNS'') PostgresMaxOpenConnsDefault) (\<lambda>vPostgresMaxOpenConns.
     loaded (le_int L (getEnv ''POSTGRES_MAX_IDLE_CONNS'') PostgresMaxIdleConnsDefault) (\<lambda>vPostgresMaxIdleConns.
     loaded (le_string L (getEnv ''PLATFORM_AUTH_URL_UPDATE_EMAIL'') (getEnv ''PLATFORM_AUTH_URL'' @ PlatformEmailUpdateUrlDefault)) (\<lambda>vPlatformAuthUpdateEmailUrl.
     loaded (le_string L (getEnv ''PLATFORM_AUTH_URL_UPDATE_PASSWORD'') (getEnv ''PLATFORM_AUTH_URL'' @ PlatformPasswordResetUrlDefault)) (\<lambda>vPlatformAuthUpdatePasswordUrl.
     loaded (le_string L (getEnv ''PLATFORM_AUTH_URL_REGISTER'') (getEnv ''PLATFORM_AUTH_URL'' @ PlatformAccountCreateUrlDefault)) (\<lambda>vPlatformAuthRegisterUrl.
     loaded (le_string L (getEnv ''SERVICE_JSON_KEYS_HOST'') ServiceJsonKeysHostDefault) (\<lambda>vServiceJsonKeysHost.
     loaded (le_int L (getEnv ''SERVICE_JSON_KEYS_PORT'') ServiceJsonKeysPortDefault) (\<lambda>vServiceJsonKeysPort.
     loaded (le_duration L (getEnv ''SMTP_TIMEOUT'') SmtpTimeoutDefault) (\<lambda>vSmtpTimeout.
     loaded (le_int L (getEnv ''SMTP_MAX_CONCURRENT'') SmtpMaxConcurrentDefault) (\<lambda>vSmtpMaxConcurrent.
     loaded (le_bool L (getEnv ''SMTP_FORCE_UNENCRYPTED'') False) (\<lambda>vSmtpForceUnencrypted.
     loaded (le_string L (getEnv ''APP_NAME'') AppNameDefault) (\<lambda>vAppName.
     loaded (le_bool L (getEnv ''OTEL'') False) (\<lambda>vOtel.
     loaded (le_int L (getEnv ''REST_PORT'') RestPortDefault) (\<lambda>vRestPort.
     loaded (le_int64 L (getEnv ''REST_MAX_REQUEST_SIZE'') RestMaxRequestSizeDefault) (\<lambda>vRestMaxRequestSize.
     loaded (le_duration L (getEnv ''REST_TIMEOUT_READ'') RestTimeoutReadDefault) (\<lambda>vRestTimeoutRead.
     loaded (le_duration L (getEnv ''REST_TIMEOUT_READ_HEADER'') RestTimeoutReadHeaderDefault) (\<lambda>vRestTimeoutReadHeader.
     loaded (le_duration L (getEnv ''REST_TIMEOUT_WRITE'') RestTimeoutWriteDefault) (\<lambda>vRestTimeoutWrite.
     loaded (le_duration L (getEnv ''REST_TIMEOUT_IDLE'') RestTimeoutIdleDefault) (\<lambda>vRestTimeoutIdle.
     loaded (le_duration L (getEnv ''REST_TIMEOUT_REQUEST'') RestTimeoutRequestDefault) (\<lambda>vRestTimeoutRequest.
     loaded (le_duration L (getEnv ''REST_TIMEOUT_SHUTDOWN'') RestTimeoutShutdownDefault) (\<lambda>vRestTimeoutShutdown.
     loaded (le_strings L (getEnv ''REST_CORS_ALLOWED_ORIGINS'') CorsAllowedOriginsDefault) (\<lambda>vCorsAllowedOrigins.
     loaded (le_strings L (getEnv ''REST_CORS_ALLOWED_HEADERS'') CorsAllowedHeadersDefault) (\<lambda>vCorsAllowedHeaders.
     loaded (le_bool L (getEnv ''REST_CORS_ALLOW_CREDENTIALS'') CorsAllowCredentialsDefault) (\<lambda>vCorsAllowCredentials.
     loaded (le_int L (getEnv ''REST_CORS_MAX_AGE'') CorsMaxAgeDefault) (\<lambda>vCorsMaxAge.
     Ret
      \<lparr>env_PostgresDsn = getEnv ''POSTGRES_DSN'',
       env_PostgresMaxOpenConns = vPostgresMaxOpenConns,
       env_PostgresMaxIdleConns = vPostgresMaxIdleConns,
       env_PlatformAuthUrl = getEnv ''PLATFORM_AUTH_URL'',
       env_PlatformAuthUpdateEmailUrl = vPlatformAuthUpdateEmailUrl,
       env_PlatformAuthUpdatePasswordUrl = vPlatformAuthUpdatePasswordUrl,
       env_PlatformAuthRegisterUrl = vPlatformAuthRegisterUrl,
       env_ServiceJsonKeysHost = vServiceJsonKeysHost,
       env_ServiceJsonKeysPort = vServiceJsonKeysPort,
       env_SmtpAddr = getEnv ''SMTP_ADDR'',
       env_SmtpSenderName = getEnv ''SMTP_SENDER_NAME'',
       env_SmtpSenderEmail = getEnv ''SMTP_SENDER_EMAIL'',
       env_SmtpSenderPassword = getEnv ''SMTP_SENDER_PASSWORD'',
       env_SmtpSenderDomain = getEnv ''SMTP_SENDER_DOMAIN'',
       env_SmtpTimeout = vSmtpTimeout,
       env_SmtpMaxConcurrent = vSmtpMaxConcurrent,
       env_SmtpForceUnencrypted = vSmtpForceUnencrypted,
       env_AppName = vAppName,
       env_Otel = vOtel,
       env_RestPort = vRestPort,
       env_RestMaxRequestSize = vRestMaxRequestSize,
       env_RestTimeoutRead = vRestTimeoutRead,
       env_RestTimeoutReadHeader = vRestTimeoutReadHeader,
       env_RestTimeoutWrite = vRestTimeoutWrite,
       env_RestTimeoutIdle = vRestTimeoutIdle,
       env_RestTimeoutRequest = vRestTimeoutRequest,
       env_RestTimeoutShutdown = vRestTimeoutShutdown,
       env_CorsAllowedOrigins = vCorsAllowedOrigins,
       env_CorsAllowedHeaders = vCorsAllowedHeaders,
       env_CorsAllowCredentials = vCorsAllowCredentials,
       env_CorsMaxAge = vCorsMaxAge,
       env_GcloudProjectId = getEnv ''GCLOUD_PROJECT_ID'',
       env_SuperAdminEmail = getEnv ''SUPER_ADMIN_EMAIL'',
       env_SuperAdminPassword = getEnv ''SUPER_ADMIN_PASSWORD''\<rparr>))))))))))))))))))))))))"

definition load_settings :: "env_loader \<Rightarrow> environ \<Rightarrow> settings outcome" where
  "load_settings L Getenv = read_settings L (prefixed Getenv)"

section \<open>The configuration\<close>

record RestTimeouts =
  rt_Read :: time
  rt_ReadHeader :: time
  rt_Write :: time
  rt_Idle :: time
  rt_Request :: time
  rt_Shutdown :: time

record Cors =
  AllowedOrigins :: "string list"
  AllowedHeaders :: "string list"
  AllowCredentials :: bool
  MaxAge :: int

record Rest =
  rest_Port :: int
  rest_Timeouts :: RestTimeouts
  rest_MaxRequestSize :: int
  rest_Cors :: Cors

text \<open>The presets of the libraries the configuration chooses between, with the arguments it gives them.\<close>

datatype CredentialsProvider = LocalCredentialsProvider | GcloudCredentialsProvider string

record Dependencies =
  ServiceJsonKeysHost :: string
  ServiceJsonKeysPort :: int
  ServiceJsonKeysCredentials :: CredentialsProvider

record ProdSenderConfig =
  ps_Addr :: string
  ps_Name :: string
  ps_Email :: string
  ps_Password :: string
  ps_Domain :: string
  ps_ForceUnencryptedTls :: bool
  ps_Timeout :: time

datatype Sender = DebugSender | ProdSender ProdSenderConfig

datatype OtelConfig = OtelDisabled | OtelLocal time | OtelGcloud string time

datatype LogConfig = LoggerDev | LoggerProd string

datatype HttpLogConfig = HTTPLocal LogConfig | HTTPGcloud LogConfig

record PostgresPreset =
  pg_Dsn :: string
  pg_MaxOpenConns :: int
  pg_MaxIdleConns :: int

record App =
  App_Name :: string
  App_Rest :: Rest
  App_Dependencies :: Dependencies
  App_Permissions :: Permissions
  App_ShortCodes :: ShortCodes
  App_SmtpUrls :: SmtpUrls
  App_Smtp :: Sender
  App_Otel :: OtelConfig
  App_Logger :: LogConfig
  App_HttpLogger :: HttpLogConfig
  App_Postgres :: PostgresPreset

definition OtelFlushTimeout :: time where "OtelFlushTimeout = 2 * second"

definition newPostgresPreset :: "settings \<Rightarrow> PostgresPreset" where
  "newPostgresPreset s = \<lparr>pg_Dsn = env_PostgresDsn s, pg_MaxOpenConns = env_PostgresMaxOpenConns s,
     pg_MaxIdleConns = env_PostgresMaxIdleConns s\<rparr>"

definition AppPresetDefault :: "settings \<Rightarrow> App" where
  "AppPresetDefault s =
     \<lparr>App_Name = env_AppName s,
      App_Rest = \<lparr>rest_Port = env_RestPort s,
        rest_Timeouts = \<lparr>rt_Read = env_RestTimeoutRead s, rt_ReadHeader = env_RestTimeoutReadHeader s,
          rt_Write = env_RestTimeoutWrite s, rt_Idle = env_RestTimeoutIdle s,
          rt_Request = env_RestTimeoutRequest s, rt_Shutdown = env_RestTimeoutShutdown s\<rparr>,
        rest_MaxRequestSize = env_RestMaxRequestSize s,
        rest_Cors = \<lparr>AllowedOrigins = env_CorsAllowedOrigins s, AllowedHeaders = env_CorsAllowedHeaders s,
          AllowCredentials = env_CorsAllowCredentials s, MaxAge = env_CorsMaxAge s\<rparr>\<rparr>,
      App_Dependencies = \<lparr>ServiceJsonKeysHost = env_ServiceJsonKeysHost s,
        ServiceJsonKeysPort = env_ServiceJsonKeysPort s,
        ServiceJsonKeysCredentials =
          (if env_GcloudProjectId s = '''' then LocalCredentialsProvider
           else GcloudCredentialsProvider (env_ServiceJsonKeysHost s))\<rparr>,
      App_Permissions = PermissionsConfigDefault,
      App_ShortCodes = ShortCodesPresetDefault,
      App_SmtpUrls = \<lparr>UpdateEmail = env_PlatformAuthUpdateEmailUrl s,
        UpdatePassword = env_PlatformAuthUpdatePasswordUrl s, Register = env_PlatformAuthRegisterUrl s\<rparr>,
      App_Smtp =
        (if env_SmtpAddr s = '''' then DebugSender
         else ProdSender \<lparr>ps_Addr = env_SmtpAddr s, ps_Name = env_SmtpSenderName s,
           ps_Email = env_SmtpSenderEmail s, ps_Password = env_SmtpSenderPassword s,
           ps_Domain = env_SmtpSenderDomain s, ps_ForceUnencryptedTls = env_SmtpForceUnencrypted s,
           ps_Timeout = env_SmtpTimeout s\<rparr>),
      App_Otel =
        (if \<not> env_Otel s then OtelDisabled
         else if env_GcloudProjectId s = '''' then OtelLocal OtelFlushTimeout
         else OtelGcloud (env_GcloudProjectId s) OtelFlushTimeout),
      App_Logger =
        (if env_GcloudProjectId s = '''' then LoggerDev else LoggerProd (env_GcloudProjectId s)),
      App_HttpLogger =
        (if env_GcloudProjectId s = '''' then HTTPLocal LoggerDev
         else HTTPGcloud (LoggerProd (env_GcloudProjectId s))),
      App_Postgres = newPostgresPreset s\<rparr>"

section \<open>What is read\<close>

lemma loaded_Ret [simp]: "loaded (Ret a) f = f a"
  by (simp add: loaded_def)

lemma loaded_Ret_iff: "loaded r f = Ret b \<longleftrightarrow> (\<exists>a. r = Ret a \<and> f a = Ret b)"
  by (cases r) (simp_all add: loaded_def)

text \<open>Every field holds its variable, or its default when the variable is unset.\<close>

lemma read_settings_plain:
  assumes "read_settings L getEnv = Ret s"
  shows "env_PlatformAuthUrl s = getEnv ''PLATFORM_AUTH_URL''" "env_SmtpAddr s = getEnv ''SMTP_ADDR''"
    "env_GcloudProjectId s = getEnv ''GCLOUD_PROJECT_ID''" "env_PostgresDsn s = getEnv ''POSTGRES_DSN''"
    "env_SuperAdminEmail s = getEnv ''SUPER_ADMIN_EMAIL''"
    "env_SuperAdminPassword s = getEnv ''SUPER_ADMIN_PASSWORD''"
  using assms by (auto simp: read_settings_def loaded_Ret_iff)

lemma read_settings_loaded:
  assumes "read_settings L getEnv = Ret s"
  shows "le_string L (getEnv ''PLATFORM_AUTH_URL_UPDATE_EMAIL'')
      (getEnv ''PLATFORM_AUTH_URL'' @ PlatformEmailUpdateUrlDefault) = Ret (env_PlatformAuthUpdateEmailUrl s)"
    "le_string L (getEnv ''PLATFORM_AUTH_URL_UPDATE_PASSWORD'')
      (getEnv ''PLATFORM_AUTH_URL'' @ PlatformPasswordResetUrlDefault) = Ret (env_PlatformAuthUpdatePasswordUrl s)"
    "le_string L (getEnv ''PLATFORM_AUTH_URL_REGISTER'')
      (getEnv ''PLATFORM_AUTH_URL'' @ PlatformAccountCreateUrlDefault) = Ret (env_PlatformAuthRegisterUrl s)"
    "le_int L (getEnv ''POSTGRES_MAX_OPEN_CONNS'') PostgresMaxOpenConnsDefault = Ret (env_PostgresMaxOpenConns s)"
    "le_int L (getEnv ''POSTGRES_MAX_IDLE_CONNS'') PostgresMaxIdleConnsDefault = Ret (env_PostgresMaxIdleConns s)"
  using assms by (auto simp: read_settings_def loaded_Ret_iff)

lemma read_settings_rest:
  assumes "read_settings L getEnv = Ret s"
  shows "le_int L (getEnv ''REST_PORT'') RestPortDefault = Ret (env_RestPort s)"
    "le_int64 L (getEnv ''REST_MAX_REQUEST_SIZE'') RestMaxRequestSizeDefault = Ret (env_RestMaxRequestSize s)"
    "le_duration L (getEnv ''REST_TIMEOUT_READ'') RestTimeoutReadDefault = Ret (env_RestTimeoutRead s)"
    "le_duration L (getEnv ''REST_TIMEOUT_READ_HEADER'') RestTimeoutReadHeaderDefault = Ret (env_RestTimeoutReadHeader s)"
    "le_duration L (getEnv ''REST_TIMEOUT_WRITE'') RestTimeoutWriteDefault = Ret (env_RestTimeoutWrite s)"
    "le_duration L (getEnv ''REST_TIMEOUT_IDLE'') RestTimeoutIdleDefault = Ret (env_RestTimeoutIdle s)"
    "le_duration L (getEnv ''REST_TIMEOUT_REQUEST'') RestTimeoutRequestDefault = Ret (env_RestTimeoutRequest s)"
    "le_duration L (getEnv ''REST_TIMEOUT_SHUTDOWN'') RestTimeoutShutdownDefault = Ret (env_RestTimeoutShutdown s)"
    "le_strings L (getEnv ''REST_CORS_ALLOWED_ORIGINS'') CorsAllowedOriginsDefault = Ret (env_CorsAllowedOrigins s)"
    "le_strings L (getEnv ''REST_CORS_ALLOWED_HEADERS'') CorsAllowedHeadersDefault = Ret (env_CorsAllowedHeaders s)"
    "le_bool L (getEnv ''REST_CORS_ALLOW_CREDENTIALS'') CorsAllowCredentialsDefault = Ret (env_CorsAllowCredentials s)"
    "le_int L (getEnv ''REST_CORS_MAX_AGE'') CorsMaxAgeDefault = Ret (env_CorsMaxAge s)"
  using assms by (auto simp: read_settings_def loaded_Ret_iff)

lemma read_settings_smtp:
  assumes "read_settings L getEnv = Ret s"
  shows "env_SmtpAddr s = getEnv ''SMTP_ADDR''" "env_SmtpSenderName s = getEnv ''SMTP_SENDER_NAME''"
    "env_SmtpSenderEmail s = getEnv ''SMTP_SENDER_EMAIL''" "env_SmtpSenderPassword s = getEnv ''SMTP_SENDER_PASSWORD''"
    "env_SmtpSenderDomain s = getEnv ''SMTP_SENDER_DOMAIN''"
    "le_duration L (getEnv ''SMTP_TIMEOUT'') SmtpTimeoutDefault = Ret (env_SmtpTimeout s)"
    "le_int L (getEnv ''SMTP_MAX_CONCURRENT'') SmtpMaxConcurrentDefault = Ret (env_SmtpMaxConcurrent s)"
    "le_bool L (getEnv ''SMTP_FORCE_UNENCRYPTED'') False = Ret (env_SmtpForceUnencrypted s)"
  using assms by (auto simp: read_settings_def loaded_Ret_iff)

text \<open>With nothing set the process starts, on the defaults.\<close>

definition default_settings :: settings where
  "default_settings =
     \<lparr>env_PostgresDsn = '''',
      env_PostgresMaxOpenConns = PostgresMaxOpenConnsDefault,
      env_PostgresMaxIdleConns = PostgresMaxIdleConnsDefault,
      env_PlatformAuthUrl = '''',
      env_PlatformAuthUpdateEmailUrl = PlatformEmailUpdateUrlDefault,
      env_PlatformAuthUpdatePasswordUrl = PlatformPasswordResetUrlDefault,
      env_PlatformAuthRegisterUrl = PlatformAccountCreateUrlDefault,
      env_ServiceJsonKeysHost = ServiceJsonKeysHostDefault,
      env_ServiceJsonKeysPort = ServiceJsonKeysPortDefault,
      env_SmtpAddr = '''',
      env_SmtpSenderName = '''',
      env_SmtpSenderEmail = '''',
      env_SmtpSenderPassword = '''',
      env_SmtpSenderDomain = '''',
      env_SmtpTimeout = SmtpTimeoutDefault,
      env_SmtpMaxConcurrent = SmtpMaxConcurrentDefault,
      env_SmtpForceUnencrypted = False,
      env_AppName = AppNameDefault,
      env_Otel = False,
      env_RestPort = RestPortDefault,
      env_RestMaxRequestSize = RestMaxRequestSizeDefault,
      env_RestTimeoutRead = RestTimeoutReadDefault,
      env_RestTimeoutReadHeader = RestTimeoutReadHeaderDefault,
      env_RestTimeoutWrite = RestTimeoutWriteDefault,
      env_RestTimeoutIdle = RestTimeoutIdleDefault,
      env_RestTimeoutRequest = RestTimeoutRequestDefault,
      env_RestTimeoutShutdown = RestTimeoutShutdownDefault,
      env_CorsAllowedOrigins = CorsAllowedOriginsDefault,
      env_CorsAllowedHeaders = CorsAllowedHeadersDefault,
      env_CorsAllowCredentials = CorsAllowCredentialsDefault,
      env_CorsMaxAge = CorsMaxAgeDefault,
      env_GcloudProjectId = '''',
      env_SuperAdminEmail = '''',
      env_SuperAdminPassword = ''''\<rparr>"

lemma nothing_set:
  assumes "loader_contract L" "\<And>n. getEnv n = ''''"
  shows "read_settings L getEnv = Ret default_settings"
  by (simp add: read_settings_def default_settings_def assms loader_contractD [OF assms(1)])

end
