(* ===== verification/Bootstrap.thy ===== *)
theory Bootstrap
  imports Settings Availability
begin

text \<open>
  The bootstrap command (\<open>cmd/init/main.go\<close>): it does nothing unless both credentials of the super-admin
  are configured, and otherwise reconciles the account with them. Every failure ends the process.
  The last section runs it under \<open>reliable\<close>: the configured credentials then sign in.
\<close>

section \<open>The command\<close>

text \<open>What the libraries may refuse at the start of a process: telemetry and the database connection.\<close>

record process_env =
  pe_otel_init :: "OtelConfig \<Rightarrow> string option"
  pe_connect :: "nat \<Rightarrow> PostgresPreset \<Rightarrow> string option"

text \<open>\<open>lo.Must\<close>: the value, or a panic on an error.\<close>

definition Must :: "'a io \<Rightarrow> 'a io" where
  "Must m = (\<lambda>w. case m w of (Fail e, w') \<Rightarrow> (Panic ''lo.Must'', w') | r \<Rightarrow> r)"

fun err_result :: "string option \<Rightarrow> unit outcome" where
  "err_result None = Ret ()"
| "err_result (Some m) = Fail (Opaque m)"

definition init_main :: "process_env \<Rightarrow> ext \<Rightarrow> settings \<Rightarrow> unit io" where
  "init_main P E env =
     (let cfg = AppPresetDefault env in
      andThen (Must (lift (err_result (pe_otel_init P (App_Otel cfg))))) (\<lambda>_.
      if env_SuperAdminEmail env = '''' then ret ()
      else if env_SuperAdminPassword env = '''' then ret ()
      else
        andThen (Must (andThen (ask (\<lambda>t. pe_connect P t (App_Postgres cfg))) (\<lambda>r. lift (err_result r)))) (\<lambda>_.
        andThen (Must (core_CredentialsCreateSuperAdmin E
          \<lparr>sa_Email = env_SuperAdminEmail env, sa_Password = env_SuperAdminPassword env\<rparr>)) (\<lambda>_.
        ret ()))))"

abbreviation configured :: "settings \<Rightarrow> CredentialsCreateSuperAdminRequest" where
  "configured env \<equiv> \<lparr>sa_Email = env_SuperAdminEmail env, sa_Password = env_SuperAdminPassword env\<rparr>"

section \<open>What a run comes to\<close>

lemma Must_run: "Must m w = (case m w of (Fail e, w') \<Rightarrow> (Panic ''lo.Must'', w') | r \<Rightarrow> r)"
  by (simp add: Must_def)

lemma Must_never_fails: "Must m w \<noteq> (Fail e, w')"
  by (auto simp: Must_def split: prod.splits outcome.splits)

lemma err_result_no_panic [simp]: "err_result r \<noteq> Panic p"
  by (cases r) simp_all

text \<open>A run skips, panics before it reached the tables, or is the reconciliation with its error made a panic.\<close>

lemma init_main_cases:
  assumes "init_main P E env w = (r, w')"
  obtains (refused) p where "r = Panic p" "db w' = db w"
  | (skipped) "env_SuperAdminEmail env = '''' \<or> env_SuperAdminPassword env = ''''" "r = Ret ()" "w' = w"
  | (reconciled) t s where "env_SuperAdminEmail env \<noteq> ''''" "env_SuperAdminPassword env \<noteq> ''''"
      "core_CredentialsCreateSuperAdmin E (configured env) (w\<lparr>tick := t\<rparr>) = (s, w')"
      "(case s of Ret c \<Rightarrow> r = Ret () | Fail e \<Rightarrow> r = Panic ''lo.Must'' | Panic p \<Rightarrow> r = Panic p)"
proof (cases "err_result (pe_otel_init P (App_Otel (AppPresetDefault env)))")
  case (Ret u)
  show thesis
  proof (cases "env_SuperAdminEmail env = '''' \<or> env_SuperAdminPassword env = ''''")
    case True
    then show thesis using assms Ret
      by (intro skipped) (auto simp: init_main_def Let_def prog_simps Must_run split: if_splits)
  next
    case False
    let ?c = "err_result (pe_connect P (tick w) (App_Postgres (AppPresetDefault env)))"
    obtain s v where s: "core_CredentialsCreateSuperAdmin E (configured env) (w\<lparr>tick := Suc (tick w)\<rparr>) = (s, v)"
      by (cases "core_CredentialsCreateSuperAdmin E (configured env) (w\<lparr>tick := Suc (tick w)\<rparr>)")
    show thesis
    proof (cases ?c)
      case c: (Ret u)
      then have "w' = v \<and> (case s of Ret c \<Rightarrow> r = Ret () | Fail e \<Rightarrow> r = Panic ''lo.Must'' | Panic p \<Rightarrow> r = Panic p)"
        using assms Ret False s
        by (cases s) (auto simp: init_main_def Let_def prog_simps Must_run)
      then show thesis using False s by (intro reconciled [of "Suc (tick w)" s]) simp_all
    next
      case (Fail e)
      then show thesis using assms Ret False
        by (intro refused [of "''lo.Must''"]) (auto simp: init_main_def Let_def prog_simps Must_run)
    qed simp_all
  qed
next
  case (Fail e)
  then show thesis using assms
    by (intro refused [of "''lo.Must''"]) (auto simp: init_main_def Let_def prog_simps Must_run)
qed simp_all

section \<open>While nothing breaks\<close>

lemma find_account_healthy:
  assumes "healthy E"
  shows "find_account E m w = (Ret (by_email m (credentials (db w))), w\<lparr>tick := Suc (Suc (tick w))\<rparr>)"
proof (cases "by_email m (credentials (db w))")
  case None
  show ?thesis
  proof -
    obtain e where "sentinels_of e = {ErrNoRows, ErrCredentialsSelectByEmailNotFound}"
      "dao_CredentialsSelectByEmail E m w = (Fail e, w\<lparr>tick := Suc (Suc (tick w))\<rparr>)"
      using select_email_healthy(2) [OF assms None] by blast
    then show ?thesis using None by (simp add: find_account_def prog_simps errors_is_sentinels)
  qed
next
  case (Some r)
  then show ?thesis by (simp add: find_account_def prog_simps select_email_healthy(1) [OF assms Some])
qed

text \<open>Any change that keeps identifier and address and satisfies the checks goes through.\<close>

lemma change_row_healthy:
  assumes "healthy E" "accounts_ok (db w)" "by_id i (credentials (db w)) = Some old"
    "\<And>r. c_id (f r) = c_id r" "\<And>r. c_email (f r) = c_email r" "\<And>r. row_checks r \<Longrightarrow> row_checks (f r)"
  obtains w' where "dao_query E (sql_update i f) c w = (Ret (f old), w')"
    "account_updated i f (db w) (db w')" "in_tx w' = in_tx w"
  using update_healthy [OF assms(1,4,3) update_accepted [OF assms(2,4-6)]]
    update_present [OF update_accepted [OF assms(2,4-6)] assms(4,3)] that by simp

lemma super_admin_run:
  assumes "reliable E" "\<not> in_tx w" "accounts_ok (db w)" "struct_valid E (super_admin_struct rq)"
    and "by_email (sa_Email rq) (credentials (db w)) = None \<Longrightarrow> \<forall>t. x_uuid_new E t \<notin> c_id ` set (credentials (db w))"
  obtains c w' where "core_CredentialsCreateSuperAdmin E rq w = (Ret c, w')" "\<not> in_tx w'"
proof -
  note h = reliableD(2) [OF assms(1)]
  have v: "validator_contract E" by (simp add: environment_okD(3) reliableD(1) assms(1))
  obtain enc w1 where g: "io_GenerateArgon2 E (sa_Password rq) w = (Ret enc, w1)" "db w1 = db w"
    by (rule generate_run [OF assms(1)])
  let ?w1 = "w1\<lparr>in_tx := True\<rparr>"
  let ?now = "x_now E (tick w1)"
  let ?w2 = "?w1\<lparr>tick := Suc (Suc (Suc (tick w1)))\<rparr>"
  have "\<exists>row. fst (super_admin_tx E rq enc ?w1) = Ret row"
  proof (cases "by_email (sa_Email rq) (credentials (db w))")
    case None
    let ?irq = "\<lparr>ci_ID = x_uuid_new E (tick ?w2), ci_Email = sa_Email rq, ci_Password = enc,
        ci_Role = RoleSuperAdmin, ci_Now = ?now\<rparr>"
    let ?w3 = "?w2\<lparr>tick := Suc (tick ?w2)\<rparr>"
    have email: "sa_Email rq \<noteq> ''''"
      using assms(4) by (simp add: super_admin_struct_def contract_tags [OF v])
    have "insert_row (new_row ?irq) (credentials (db ?w3)) = Inr (credentials (db ?w3) @ [new_row ?irq])"
      using email assms(5) [OF None] None g(2)
      by (simp add: insert_row_Inr new_row_def row_checks_def role_check_list_def role_names by_email_None)
    from insert_healthy [OF h this] show ?thesis
      using None g(2) by (simp add: super_admin_tx_def prog_simps find_account_healthy [OF h])
  next
    case (Some old)
    then have old: "by_id (c_id old) (credentials (db ?w2)) = Some old"
      using assms(3) g(2) by (simp add: accounts.lookup_name_iff accounts_ok_def)
    have ok: "accounts_ok (db ?w2)" using assms(3) g(2) by simp
    obtain w3 where p: "dao_query E (sql_update (c_id old) (set_password enc ?now))
          (join_no_rows ErrCredentialsUpdatePasswordNotFound) ?w2 = (Ret (set_password enc ?now old), w3)"
        "account_updated (c_id old) (set_password enc ?now) (db ?w2) (db w3)"
      by (rule change_row_healthy [OF h ok old, where f = "set_password enc ?now"]) (simp_all add: row_checks_def)
    let ?row = "set_password enc ?now old"
    have row: "by_id (c_id old) (credentials (db w3)) = Some ?row" and ok3: "accounts_ok (db w3)"
      using p(2) old ok by (auto simp: account_updated_def)
    obtain w4 where q: "dao_query E (sql_update (c_id old) (set_role RoleSuperAdmin ?now))
          (join_no_rows ErrCredentialsUpdateRoleNotFound) w3 = (Ret (set_role RoleSuperAdmin ?now ?row), w4)"
      by (rule change_row_healthy [OF h ok3 row, where f = "set_role RoleSuperAdmin ?now"])
        (simp_all add: row_checks_def role_check_list_def role_names)
    show ?thesis
      using Some g(2) p(1) q
      by (simp add: super_admin_tx_def prog_simps find_account_healthy [OF h] dao_updates)
  qed
  then obtain row where row: "fst (super_admin_tx E rq enc ?w1) = Ret row" by blast
  obtain w4 where t: "x_within_tx E (super_admin_tx E rq enc) w1 = (Ret row, w4)" "\<not> in_tx w4"
    using row seq_tx_run [of "super_admin_tx E rq enc" w1]
    by (cases "super_admin_tx E rq enc ?w1") (simp add: reliableD(4) [OF assms(1)])
  have "core_CredentialsCreateSuperAdmin E rq w = (Ret (to_Credentials row), w4)"
    using assms(4) g(1) t(1) by (simp add: core_CredentialsCreateSuperAdmin_def prog_simps validate_run)
  then show thesis using t(2) by (rule that)
qed

text \<open>A whole run of the command.\<close>

lemma init_main_run:
  assumes "reliable E" "\<And>c. pe_otel_init P c = None" "\<And>t c. pe_connect P t c = None"
    and "service_ok (db w)" "\<not> in_tx w" "struct_valid E (super_admin_struct (configured env))"
    and "by_email (env_SuperAdminEmail env) (credentials (db w)) = None \<Longrightarrow>
      \<forall>t. x_uuid_new E t \<notin> c_id ` set (credentials (db w))"
  obtains w' row where "init_main P E env w = (Ret (), w')" "service_ok (db w')" "\<not> in_tx w'"
    "provisioned E (configured env) (db w) row (db w')"
proof -
  let ?w = "w\<lparr>tick := Suc (tick w)\<rparr>"
  have tx: "tx_contract (x_within_tx E)" and v: "validator_contract E"
    using environment_okD [OF reliableD(1) [OF assms(1)]] by simp_all
  have set: "env_SuperAdminEmail env \<noteq> ''''" "env_SuperAdminPassword env \<noteq> ''''"
    using assms(6) by (simp_all add: super_admin_struct_def contract_tags [OF v])
  obtain c w' where c: "core_CredentialsCreateSuperAdmin E (configured env) ?w = (Ret c, w')" "\<not> in_tx w'"
  proof (rule super_admin_run [OF assms(1), of ?w "configured env"])
  qed (use assms(4-7) service_okD(1) in simp_all)
  have "service_ok (db w')"
    using keepsD [OF keeps_account_services(2) [OF tx, of "configured env"], of ?w] c assms(4,5) by simp
  moreover obtain row where "provisioned E (configured env) (db w) row (db w')"
    using super_admin_result [OF c(1) tx] assms(4,5) service_okD(1) by auto
  moreover have "init_main P E env w = (Ret (), w')"
    using set c(1) by (simp add: init_main_def Let_def prog_simps Must_run assms(2,3))
  ultimately show thesis using that c(2) by blast
qed

end
