(* ===== verification/Shutdown.thy ===== *)
theory Shutdown
  imports ShortCodeService Steps "HOL-Library.Multiset"
begin

text \<open>
  The end of the server process: \<open>serve\<close> of \<open>cmd/rest/main.go\<close>, \<open>lib.Drain\<close> and the wait groups of the
  three services that mail codes (\<open>wg.Add\<close>, \<open>wg.Done\<close> and \<open>Wait\<close> in \<open>shortCodeCreate*.go\<close>), as a step
  relation in which the requests, the detached sends, the draining goroutine, the clock and \<open>serve\<close>
  interleave freely.
\<close>

section \<open>The process\<close>

text \<open>Where \<open>serve\<close> is: serving, in \<open>httpServer.Shutdown\<close>, in the \<open>select\<close> of \<open>lib.Drain\<close>, returned
  (with the error of the drain, which is only logged), or ended by a panic.\<close>

datatype serve_phase = Serving | ShuttingDown | Draining | Returned "go_error option" | Crashed

text \<open>
  The sends in flight carry the service whose wait group counts them. \<open>scheduled\<close> and \<open>ended\<close> are the
  mails handed to a goroutine and those whose goroutine ended, delivered or reported; \<open>waiting\<close> are the
  waiters the draining goroutine still has to wait for, \<open>None\<close> before it starts; \<open>done_closed\<close> is the
  channel it closes.
\<close>

record process =
  phase :: serve_phase
  requests :: nat
  in_flight :: "mail_job list"
  waiting :: "mail_service list option"
  done_closed :: bool
  expired :: bool
  scheduled :: "mail_job list"
  ended :: "mail_job list"

text \<open>The drains \<open>main\<close> hands to \<open>serve\<close>.\<close>

definition drains :: "mail_service list" where
  "drains = [MailRegister, MailEmailUpdate, MailPasswordReset]"

text \<open>\<open>sync.WaitGroup.Wait\<close> of a service returns when the sends it counts have ended.\<close>

definition Wait_returns :: "process \<Rightarrow> mail_service \<Rightarrow> bool" where
  "Wait_returns s waiter \<longleftrightarrow> list_all (\<lambda>j. mj_service j \<noteq> waiter) (in_flight s)"

definition drain_error :: go_error where
  "drain_error = Wrap ''drain in-flight work'' (Opaque ''context deadline exceeded'')"

definition start_process :: process where
  "start_process = \<lparr>phase = Serving, requests = 0, in_flight = [], waiting = None, done_closed = False,
     expired = False, scheduled = [], ended = []\<rparr>"

section \<open>Steps\<close>

text \<open>
  \<open>lib.Drain\<close>: the goroutine waits for one waiter after the other and closes the channel; the
  \<open>select\<close> returns nil once the channel is closed, or the error of the context once it has expired,
  and takes either branch when both are ready.
\<close>

inductive Drain_step :: "process \<Rightarrow> process \<Rightarrow> bool" where
  wait_next: "waiting s = Some (waiter # rest) \<Longrightarrow> Wait_returns s waiter \<Longrightarrow>
    Drain_step s (s\<lparr>waiting := Some rest\<rparr>)"
| close_done: "waiting s = Some [] \<Longrightarrow> \<not> done_closed s \<Longrightarrow> Drain_step s (s\<lparr>done_closed := True\<rparr>)"
| select_done: "done_closed s \<Longrightarrow> Drain_step s (s\<lparr>phase := Returned None\<rparr>)"
| select_expired: "expired s \<Longrightarrow> Drain_step s (s\<lparr>phase := Returned (Some drain_error)\<rparr>)"

text \<open>
  \<open>Shutdown\<close> stops the listeners, waits for the requests in progress and returns nil; it returns an
  error when its context expires or a listener does not close. Until it has returned nil a connection
  may still bring a request, after that none. The sends and the clock go on while \<open>serve\<close> is in \<open>Drain\<close>.
\<close>

inductive process_step :: "process \<Rightarrow> process \<Rightarrow> bool" where
  accept: "phase s \<in> {Serving, ShuttingDown} \<Longrightarrow> process_step s (s\<lparr>requests := Suc (requests s)\<rparr>)"
| schedule: "phase s \<in> {Serving, ShuttingDown} \<Longrightarrow> requests s > 0 \<Longrightarrow>
    process_step s (s\<lparr>in_flight := in_flight s @ [j], scheduled := scheduled s @ [j]\<rparr>)"
| respond: "phase s \<in> {Serving, ShuttingDown} \<Longrightarrow> requests s = Suc n \<Longrightarrow>
    process_step s (s\<lparr>requests := n\<rparr>)"
| send_ends: "phase s \<in> {Serving, ShuttingDown, Draining} \<Longrightarrow> in_flight s = js @ j # ks \<Longrightarrow>
    process_step s (s\<lparr>in_flight := js @ ks, ended := ended s @ [j]\<rparr>)"
| listen_fails: "phase s = Serving \<Longrightarrow> process_step s (s\<lparr>phase := Crashed\<rparr>)"
| signal: "phase s = Serving \<Longrightarrow> process_step s (s\<lparr>phase := ShuttingDown\<rparr>)"
| expire: "phase s \<in> {ShuttingDown, Draining} \<Longrightarrow> \<not> expired s \<Longrightarrow> process_step s (s\<lparr>expired := True\<rparr>)"
| shutdown_fails: "phase s = ShuttingDown \<Longrightarrow> process_step s (s\<lparr>phase := Crashed\<rparr>)"
| shutdown_done: "phase s = ShuttingDown \<Longrightarrow> requests s = 0 \<Longrightarrow>
    process_step s (s\<lparr>phase := Draining, waiting := Some drains\<rparr>)"
| drain: "phase s = Draining \<Longrightarrow> Drain_step s t \<Longrightarrow> process_step s t"

abbreviation process_reaches :: "process \<Rightarrow> process \<Rightarrow> bool" where
  "process_reaches \<equiv> process_step\<^sup>*\<^sup>*"

text \<open>Once \<open>serve\<close> has returned or panicked the process makes no further step.\<close>

definition stopped :: "process \<Rightarrow> bool" where
  "stopped s \<longleftrightarrow> phase s = Crashed \<or> (\<exists>e. phase s = Returned e)"

lemma stopped_final: "stopped s \<Longrightarrow> \<not> process_step s t"
  by (auto simp: stopped_def elim!: process_step.cases)

section \<open>The invariant\<close>

text \<open>
  Every scheduled mail is in flight or ended, and while the drain runs the services already waited for
  have nothing in flight; no request is left by then, so nothing can be added. The drains are all the
  services that mail.
\<close>

lemma drains_complete: "service \<in> set drains"
  by (cases service) (simp_all add: drains_def)

definition process_ok :: "process \<Rightarrow> bool" where
  "process_ok s \<longleftrightarrow>
     mset (scheduled s) = mset (in_flight s) + mset (ended s) \<and>
     (phase s \<in> {Serving, ShuttingDown} \<longrightarrow> waiting s = None \<and> \<not> done_closed s) \<and>
     (phase s = Draining \<longrightarrow> requests s = 0 \<and>
        (\<exists>rest. waiting s = Some rest \<and>
           (\<forall>j\<in>set (in_flight s). mj_service j \<in> set rest) \<and> (done_closed s \<longrightarrow> rest = []))) \<and>
     (phase s = Returned None \<longrightarrow> in_flight s = []) \<and>
     (\<forall>e. phase s = Returned (Some e) \<longrightarrow> expired s \<and> e = drain_error)"

lemma start_ok: "process_ok start_process"
  by (simp add: process_ok_def start_process_def)

lemma Drain_step_ok:
  assumes "Drain_step s t" "process_ok s" "phase s = Draining"
  shows "process_ok t"
  using assms by cases (auto simp: process_ok_def Wait_returns_def list_all_iff)

lemma process_step_ok:
  assumes "process_step s t" "process_ok s"
  shows "process_ok t"
  using assms(1)
proof cases
  case drain
  then show ?thesis using assms(2) Drain_step_ok by blast
qed (use assms(2) in \<open>auto simp: process_ok_def drains_complete\<close>)

interpretation server_process: preserved process_step process_ok
  by unfold_locales (rule process_step_ok)

lemma reached_ok: "process_reaches start_process s \<Longrightarrow> process_ok s"
  using server_process.reached start_ok by blast

section \<open>The stop is bounded\<close>

text \<open>What is left to do once \<open>serve\<close> drains: the sends, the waiters, the close, the timer and the
  \<open>select\<close>. Every step of the drain lowers it.\<close>

definition drain_work :: "process \<Rightarrow> nat" where
  "drain_work s = (if phase s = Draining then
     Suc (length (in_flight s) + (case waiting s of None \<Rightarrow> 0 | Some ws \<Rightarrow> length ws) +
          (if done_closed s then 0 else 1) + (if expired s then 0 else 1)) else 0)"

lemma drain_step:
  assumes "process_step s t" "phase s = Draining"
  shows "drain_work t < drain_work s" "phase t = Draining \<or> stopped t"
proof -
  have d: "drain_work t < drain_work s \<and> (phase t = Draining \<or> stopped t)" if "Drain_step s t"
    using that assms(2) by cases (simp_all add: drain_work_def stopped_def)
  have "drain_work t < drain_work s \<and> (phase t = Draining \<or> stopped t)"
    using assms(1)
  proof cases
    case drain
    then show ?thesis using d by blast
  qed (use assms(2) in \<open>simp_all add: drain_work_def stopped_def\<close>)
  then show "drain_work t < drain_work s" "phase t = Draining \<or> stopped t" by blast+
qed

text \<open>The drain is never stuck: whatever is in flight can end, and without anything in flight the
  goroutine gets to the end of its list.\<close>

lemma drain_progress:
  assumes "process_ok s" "phase s = Draining"
  shows "\<exists>t. process_step s t"
proof (cases "in_flight s")
  case (Cons j js)
  then show ?thesis
    using process_step.send_ends [of s "[]" j js] assms(2) by auto
next
  case Nil
  from assms obtain rest where w: "waiting s = Some rest" by (auto simp: process_ok_def)
  show ?thesis
  proof (cases rest)
    case (Cons x xs)
    then have "Wait_returns s x" using Nil by (simp add: Wait_returns_def)
    then show ?thesis using process_step.drain [OF _ wait_next [of s x xs]] w Cons assms(2) by auto
  next
    case Nil
    then show ?thesis
      using process_step.drain [OF _ close_done [of s]] process_step.drain [OF _ select_done [of s]] w assms(2)
      by blast
  qed
qed

lemma drain_run:
  assumes "process_reaches s t" "process_ok s" "phase s = Draining"
  shows "process_ok t \<and> (phase t = Draining \<or> (\<exists>e. phase t = Returned e))"
  using assms
proof (induction rule: rtranclp_induct)
  case (step t u)
  then have t: "process_ok t" "phase t = Draining"
    using stopped_final [of t u] by (auto simp: stopped_def)
  have "phase u \<noteq> Crashed" using step.hyps(2)
    by cases (use t in \<open>auto elim!: Drain_step.cases\<close>)
  then show ?case using process_step_ok [OF step.hyps(2) t(1)] drain_step(2) [OF step.hyps(2) t(2)]
    by (auto simp: stopped_def)
qed simp

lemma drain_bound:
  assumes "(process_step ^^ n) s t" "phase s = Draining"
  shows "n \<le> drain_work s"
  using assms
proof (induction n arbitrary: s)
  case (Suc n)
  from Suc.prems(1) obtain u where u: "process_step s u" "(process_step ^^ n) u t"
    using relpowp_Suc_D2 by metis
  note d = drain_step [OF u(1) Suc.prems(2)]
  show ?case
  proof (cases "phase u = Draining")
    case True
    then show ?thesis using Suc.IH [OF u(2)] d(1) by simp
  next
    case False
    then have "stopped u" using d(2) by simp
    then have "n = 0"
    proof (cases n)
      case (Suc m)
      then obtain v where "process_step u v" using relpowp_Suc_D2 [of m process_step u t] u(2) by blast
      then show ?thesis using stopped_final [OF \<open>stopped u\<close>] by blast
    qed
    then show ?thesis using d(1) by simp
  qed
qed simp

end
