(* ===== verification/Startup.thy ===== *)
theory Startup
  imports Bootstrap Router Shutdown
begin

text \<open>
  The start of the server process: \<open>main\<close> of \<open>cmd/rest/main.go\<close> up to the call of \<open>serve\<close>. It builds the
  clients, the services, the permission map, the router and the \<open>http.Server\<close> from the configuration, and
  every step that may fail is a \<open>lo.Must\<close>. The clients' constructors are parameters that may refuse.
\<close>

section \<open>The server that is built\<close>

text \<open>The constructors of the JSON-keys client: the dial options of a credentials provider, the client of an
  address, and the verifier of a kind of claims.\<close>

record client_libs =
  cl_options :: "CredentialsProvider \<Rightarrow> string + string"
  cl_client :: "string \<Rightarrow> string \<Rightarrow> string option"
  cl_verifier :: "string \<Rightarrow> string option"

text \<open>\<open>cors.Options\<close> and the fields of \<open>http.Server\<close>, with what the middlewares of the router were given.\<close>

record cors_options =
  co_AllowedOrigins :: "string list"
  co_AllowedHeaders :: "string list"
  co_AllowCredentials :: bool
  co_AllowedMethods :: "http_method list"
  co_MaxAge :: int

record http_server =
  hs_Addr :: string
  hs_ReadTimeout :: time
  hs_ReadHeaderTimeout :: time
  hs_WriteTimeout :: time
  hs_IdleTimeout :: time
  hs_RequestTimeout :: time
  hs_RequestSize :: int
  hs_Cors :: cors_options
  hs_HttpLogger :: HttpLogConfig
  hs_app :: app
  hs_permissions :: role_permissions

text \<open>\<open>smtp.NewBoundedSender\<close>: the configured sender with the number of mails it sends at a time.\<close>

datatype bounded_sender = BoundedSender Sender int

text \<open>What \<open>main\<close> hands to \<open>serve\<close>, with the sender of the mail services and the warning it has logged.\<close>

record process_start =
  ps_server :: http_server
  ps_shutdown :: time
  ps_drains :: "mail_service list"
  ps_sender :: bounded_sender
  ps_warned :: bool

definition Itoa :: "int \<Rightarrow> string" where
  "Itoa i = (if i < 0 then CHR ''-'' # show_nat (nat (- i)) else show_nat (nat i))"

definition cors_handler :: "Cors \<Rightarrow> cors_options" where
  "cors_handler cfg = \<lparr>co_AllowedOrigins = AllowedOrigins cfg, co_AllowedHeaders = AllowedHeaders cfg,
     co_AllowCredentials = AllowCredentials cfg, co_AllowedMethods = [HEAD, GET, POST, PUT, PATCH, DELETE],
     co_MaxAge = MaxAge cfg\<rparr>"

definition new_server :: "Rest \<Rightarrow> HttpLogConfig \<Rightarrow> app \<Rightarrow> role_permissions \<Rightarrow> http_server" where
  "new_server cfg logger A perms =
     \<lparr>hs_Addr = '':'' @ Itoa (rest_Port cfg),
      hs_ReadTimeout = rt_Read (rest_Timeouts cfg), hs_ReadHeaderTimeout = rt_ReadHeader (rest_Timeouts cfg),
      hs_WriteTimeout = rt_Write (rest_Timeouts cfg), hs_IdleTimeout = rt_Idle (rest_Timeouts cfg),
      hs_RequestTimeout = rt_Request (rest_Timeouts cfg), hs_RequestSize = rest_MaxRequestSize cfg,
      hs_Cors = cors_handler (rest_Cors cfg), hs_HttpLogger = logger, hs_app = A, hs_permissions = perms\<rparr>"

text \<open>The services are wired to the configured short codes and links; everything else of an \<open>app\<close> is the
  behaviour of the libraries, given as \<open>A\<close>.\<close>

definition wired :: "App \<Rightarrow> app \<Rightarrow> app" where
  "wired cfg A = A\<lparr>app_codes := App_ShortCodes cfg, app_urls := App_SmtpUrls cfg\<rparr>"

text \<open>What \<open>main\<close> ends with, when it gets to \<open>serve\<close>.\<close>

definition started :: "app \<Rightarrow> settings \<Rightarrow> role_permissions \<Rightarrow> process_start" where
  "started A env perms =
     (let cfg = AppPresetDefault env in
      \<lparr>ps_server = new_server (App_Rest cfg) (App_HttpLogger cfg) (wired cfg A) perms,
       ps_shutdown = rt_Shutdown (rest_Timeouts (App_Rest cfg)), ps_drains = drains,
       ps_sender = BoundedSender (App_Smtp cfg) (env_SmtpMaxConcurrent env),
       ps_warned = (App_Smtp cfg = DebugSender)\<rparr>)"

definition rest_main :: "process_env \<Rightarrow> client_libs \<Rightarrow> app \<Rightarrow> settings \<Rightarrow> process_start io" where
  "rest_main P L A env =
     (let cfg = AppPresetDefault env; deps = App_Dependencies cfg in
      andThen (Must (lift (err_result (pe_otel_init P (App_Otel cfg))))) (\<lambda>_.
      andThen (Must (andThen (ask (\<lambda>t. pe_connect P t (App_Postgres cfg))) (\<lambda>r. lift (err_result r)))) (\<lambda>_.
      andThen (Must (lift (go_result (cl_options L (ServiceJsonKeysCredentials deps))))) (\<lambda>jsonKeysCredentials.
      andThen (Must (lift (err_result (cl_client L
        (ServiceJsonKeysHost deps @ '':'' @ Itoa (ServiceJsonKeysPort deps)) jsonKeysCredentials)))) (\<lambda>_.
      andThen (Must (lift (err_result (cl_verifier L ''AccessTokenClaims'')))) (\<lambda>_.
      andThen (Must (lift (err_result (cl_verifier L ''RefreshTokenClaims'')))) (\<lambda>_.
      andThen (lift (granted_permissions (h_order (app_http A)) (App_Permissions cfg))) (\<lambda>perms.
      ret (started A env perms)))))))))"

section \<open>What a start comes to\<close>

lemma Must_lift [simp]: "Must (lift r) w = (case r of Fail e \<Rightarrow> (Panic ''lo.Must'', w) | r \<Rightarrow> (r, w))"
  by (cases r) (simp_all add: Must_def lift_def)

lemma result_cases: "err_result r = (case r of None \<Rightarrow> Ret () | Some m \<Rightarrow> Fail (Opaque m))"
  "go_result s = (case s of Inl m \<Rightarrow> Fail (Opaque m) | Inr a \<Rightarrow> Ret a)"
  by (cases r, simp_all) (cases s, simp_all)

lemma err_result_Ret [simp]: "err_result r = Ret u \<longleftrightarrow> r = None"
  by (cases r) simp_all

text \<open>The process starts exactly when nothing refuses, on the configured server; otherwise it ends with a panic,
  and in no case with the tables changed.\<close>

definition nothing_refuses :: "process_env \<Rightarrow> client_libs \<Rightarrow> settings \<Rightarrow> nat \<Rightarrow> bool" where
  "nothing_refuses P L env t \<longleftrightarrow>
     (let cfg = AppPresetDefault env; deps = App_Dependencies cfg in
      pe_otel_init P (App_Otel cfg) = None \<and> pe_connect P t (App_Postgres cfg) = None \<and>
      (\<exists>opts. cl_options L (ServiceJsonKeysCredentials deps) = Inr opts \<and>
         cl_client L (ServiceJsonKeysHost deps @ '':'' @ Itoa (ServiceJsonKeysPort deps)) opts = None) \<and>
      cl_verifier L ''AccessTokenClaims'' = None \<and> cl_verifier L ''RefreshTokenClaims'' = None)"

lemma rest_main_run:
  assumes "iteration_order (h_order (app_http A))"
  obtains perms where "startup A = Ret perms" "flattened default_mods default_deps (set role_check_list) perms"
    "nothing_refuses P L env (tick w) \<Longrightarrow> \<exists>w'. rest_main P L A env w = (Ret (started A env perms), w') \<and> db w' = db w"
    "\<not> nothing_refuses P L env (tick w) \<Longrightarrow> \<exists>p w'. rest_main P L A env w = (Panic p, w') \<and> db w' = db w"
proof -
  obtain perms where p: "granted_permissions (h_order (app_http A)) PermissionsConfigDefault = Ret perms"
    "flattened default_mods default_deps (set role_check_list) perms" by (rule default_granted [OF assms])
  have cfg: "App_Permissions (AppPresetDefault env) = PermissionsConfigDefault" by (simp add: AppPresetDefault_def)
  show thesis
  proof (rule that [OF _ p(2)])
    show "startup A = Ret perms" using p(1) by (simp add: startup_def)
    show "\<exists>w'. rest_main P L A env w = (Ret (started A env perms), w') \<and> db w' = db w" if "nothing_refuses P L env (tick w)"
      using that p(1) cfg
      by (auto simp: nothing_refuses_def rest_main_def started_def Let_def prog_simps Must_run lift_def)
    show "\<exists>p w'. rest_main P L A env w = (Panic p, w') \<and> db w' = db w" if "\<not> nothing_refuses P L env (tick w)"
      using that p(1) cfg
      by (auto simp: nothing_refuses_def rest_main_def Let_def prog_simps Must_run lift_def result_cases
          split: option.splits sum.splits)
  qed
qed

lemma rest_main_starts:
  assumes "iteration_order (h_order (app_http A))"
  shows "(\<exists>p w'. rest_main P L A env w = (Ret p, w')) \<longleftrightarrow> nothing_refuses P L env (tick w)"
  by (rule rest_main_run [OF assms, of P L env w]) (cases "nothing_refuses P L env (tick w)"; fastforce)

lemma rest_main_Ret:
  assumes "iteration_order (h_order (app_http A))" "rest_main P L A env w = (Ret p, w')"
  obtains perms where "startup A = Ret perms" "p = started A env perms" "db w' = db w"
proof (rule rest_main_run [OF assms(1), of P L env w])
  fix perms
  assume run: "startup A = Ret perms"
    "nothing_refuses P L env (tick w) \<Longrightarrow> \<exists>w'. rest_main P L A env w = (Ret (started A env perms), w') \<and> db w' = db w"
  have "nothing_refuses P L env (tick w)" using assms(2) rest_main_starts [OF assms(1)] by blast
  from run(2) [OF this] assms(2) show thesis using that [OF run(1)] by auto
qed

section \<open>What the environment asks for\<close>

text \<open>The server an operator describes with the variables \<open>e\<close>: each value is what the loader makes of its
  variable, with the documented default.\<close>

definition describes_server :: "env_loader \<Rightarrow> environ \<Rightarrow> http_server \<Rightarrow> bool" where
  "describes_server L e srv \<longleftrightarrow>
     (\<exists>port. le_int L (e ''REST_PORT'') 8080 = Ret port \<and> hs_Addr srv = '':'' @ Itoa port) \<and>
     le_duration L (e ''REST_TIMEOUT_READ'') (15 * second) = Ret (hs_ReadTimeout srv) \<and>
     le_duration L (e ''REST_TIMEOUT_READ_HEADER'') (3 * second) = Ret (hs_ReadHeaderTimeout srv) \<and>
     le_duration L (e ''REST_TIMEOUT_WRITE'') (30 * second) = Ret (hs_WriteTimeout srv) \<and>
     le_duration L (e ''REST_TIMEOUT_IDLE'') (60 * second) = Ret (hs_IdleTimeout srv) \<and>
     le_duration L (e ''REST_TIMEOUT_REQUEST'') (60 * second) = Ret (hs_RequestTimeout srv) \<and>
     le_int64 L (e ''REST_MAX_REQUEST_SIZE'') (2 * 1024 * 1024) = Ret (hs_RequestSize srv) \<and>
     le_strings L (e ''REST_CORS_ALLOWED_ORIGINS'') [''*''] = Ret (co_AllowedOrigins (hs_Cors srv)) \<and>
     le_strings L (e ''REST_CORS_ALLOWED_HEADERS'') [''*''] = Ret (co_AllowedHeaders (hs_Cors srv)) \<and>
     le_bool L (e ''REST_CORS_ALLOW_CREDENTIALS'') False = Ret (co_AllowCredentials (hs_Cors srv)) \<and>
     le_int L (e ''REST_CORS_MAX_AGE'') 3600 = Ret (co_MaxAge (hs_Cors srv))"

definition describes_sender :: "env_loader \<Rightarrow> environ \<Rightarrow> bounded_sender \<Rightarrow> bool" where
  "describes_sender L e sender \<longleftrightarrow>
     (\<exists>timeout plain n. le_duration L (e ''SMTP_TIMEOUT'') (20 * second) = Ret timeout \<and>
        le_bool L (e ''SMTP_FORCE_UNENCRYPTED'') False = Ret plain \<and>
        le_int L (e ''SMTP_MAX_CONCURRENT'') 16 = Ret n \<and>
        sender = BoundedSender
          (if e ''SMTP_ADDR'' = '''' then DebugSender
           else ProdSender \<lparr>ps_Addr = e ''SMTP_ADDR'', ps_Name = e ''SMTP_SENDER_NAME'',
             ps_Email = e ''SMTP_SENDER_EMAIL'', ps_Password = e ''SMTP_SENDER_PASSWORD'',
             ps_Domain = e ''SMTP_SENDER_DOMAIN'', ps_ForceUnencryptedTls = plain, ps_Timeout = timeout\<rparr>) n)"

lemma started_as_described:
  assumes "read_settings L e = Ret env"
  shows "describes_server L e (ps_server (started A env perms))" "describes_sender L e (ps_sender (started A env perms))"
    "le_duration L (e ''REST_TIMEOUT_SHUTDOWN'') (25 * second) = Ret (ps_shutdown (started A env perms))"
  using read_settings_rest [OF assms] read_settings_smtp [OF assms]
  by (simp_all add: describes_server_def describes_sender_def started_def new_server_def cors_handler_def
      AppPresetDefault_def Let_def setting_defaults)

text \<open>A browser may send every method a route has.\<close>

lemma routes_cross_origin: "((m, path), required, e) \<in> set routes \<Longrightarrow> m \<in> set (co_AllowedMethods (cors_handler cfg))"
  by (auto simp: routes_listed cors_handler_def)

end
