(* ===== verification/Migrations.thy ===== *)
theory Migrations
  imports Bootstrap
begin

text \<open>
  The migrations command (\<open>cmd/migrations/main.go\<close>) and the SQL files it applies
  (\<open>internal/models/migrations\<close>), up and down. Each file is a partial function on the schema and the rows;
  the runner that decides which of them are pending is the database library's and a parameter. The last
  section shows that upgrading a database of any earlier version succeeds and establishes the constraints
  every other theory assumes of the tables.
\<close>

section \<open>The schema\<close>

text \<open>
  A row of \<open>credentials\<close> in any version: \<open>password\<close> may be null, and there is no role before the column
  exists. A missing table or column is \<open>None\<close>; the plain indexes, which refuse nothing, are left out.
\<close>

record credentials_row =
  m_id :: uuid
  m_email :: string
  m_password :: "string option"
  m_role :: "string option"
  m_created_at :: time
  m_updated_at :: time

record schema =
  cred_table :: "credentials_row list option"
  role_default :: "string option"
  role_check :: "string list option"
  codes_table :: "dao_short_code list option"
  active_unique :: bool

definition empty_schema :: schema where
  "empty_schema = \<lparr>cred_table = None, role_default = None, role_check = None, codes_table = None, active_unique = False\<rparr>"

text \<open>A script gets the time of its transaction, and fails as a whole or not at all.\<close>

type_synonym script = "time \<Rightarrow> schema \<Rightarrow> string + schema"

section \<open>The scripts\<close>

definition credentials_table_up :: script where
  "credentials_table_up at s =
     (case cred_table s of
        Some _ \<Rightarrow> Inl ''relation credentials already exists''
      | None \<Rightarrow> Inr (s\<lparr>cred_table := Some [], role_default := None, role_check := None\<rparr>))"

definition credentials_table_down :: script where
  "credentials_table_down at s = Inr (s\<lparr>cred_table := None, role_default := None, role_check := None\<rparr>)"

definition short_codes_table_up :: script where
  "short_codes_table_up at s =
     (case codes_table s of
        Some _ \<Rightarrow> Inl ''relation short_codes already exists''
      | None \<Rightarrow> Inr (s\<lparr>codes_table := Some [], active_unique := False\<rparr>))"

definition short_codes_table_down :: script where
  "short_codes_table_down at s = Inr (s\<lparr>codes_table := None, active_unique := False\<rparr>)"

text \<open>\<open>ADD COLUMN role text NOT NULL DEFAULT 'user'\<close> fills the rows with the default.\<close>

definition add_credentials_roles_up :: script where
  "add_credentials_roles_up at s =
     (case (cred_table s, role_default s) of
        (None, _) \<Rightarrow> Inl ''relation credentials does not exist''
      | (_, Some _) \<Rightarrow> Inl ''column role already exists''
      | (Some rs, None) \<Rightarrow>
          Inr (s\<lparr>cred_table := Some (map (\<lambda>r. r\<lparr>m_role := Some ''user''\<rparr>) rs), role_default := Some ''user''\<rparr>))"

definition add_credentials_roles_down :: script where
  "add_credentials_roles_down at s =
     (case (cred_table s, role_default s) of
        (None, _) \<Rightarrow> Inl ''relation credentials does not exist''
      | (_, None) \<Rightarrow> Inl ''column role does not exist''
      | (Some rs, Some _) \<Rightarrow>
          Inr (s\<lparr>cred_table := Some (map (\<lambda>r. r\<lparr>m_role := None\<rparr>) rs), role_default := None, role_check := None\<rparr>))"

text \<open>\<open>ROW_NUMBER() OVER (PARTITION BY target, usage ORDER BY created_at DESC, id DESC)\<close> among the rows that
  are not deleted, and the cleanup that keeps the first of each partition.\<close>

definition newer :: "dao_short_code \<Rightarrow> dao_short_code \<Rightarrow> bool" where
  "newer q r \<longleftrightarrow> s_created_at r < s_created_at q \<or> s_created_at q = s_created_at r \<and> s_id r < s_id q"

definition row_number :: "dao_short_code list \<Rightarrow> dao_short_code \<Rightarrow> nat" where
  "row_number rs r = Suc (length (filter (\<lambda>q. live q \<and> pair_of q = pair_of r \<and> newer q r) rs))"

definition cleanup :: "time \<Rightarrow> dao_short_code list \<Rightarrow> dao_short_code list" where
  "cleanup at rs =
     (let ids = map s_id (filter (\<lambda>r. live r \<and> row_number rs r > 1) rs) in
      delete_where (\<lambda>r. s_id r \<in> set ids) at ''duplicate cleanup before unique index'' rs)"

definition short_codes_active_unique_up :: script where
  "short_codes_active_unique_up at s =
     (case codes_table s of
        None \<Rightarrow> Inl ''relation short_codes does not exist''
      | Some rs \<Rightarrow>
          if active_unique s then Inl ''relation short_codes_active_target_usage_uniq already exists''
          else if distinct (map pair_of (filter live (cleanup at rs)))
          then Inr (s\<lparr>codes_table := Some (cleanup at rs), active_unique := True\<rparr>)
          else Inl ''could not create unique index short_codes_active_target_usage_uniq'')"

definition short_codes_active_unique_down :: script where
  "short_codes_active_unique_down at s = Inr (s\<lparr>active_unique := False\<rparr>)"

text \<open>The remapping of the old default, and the check that every row has to pass.\<close>

definition remap_role :: "credentials_row \<Rightarrow> credentials_row" where
  "remap_role r = (if m_role r = Some ''user'' then r\<lparr>m_role := Some ''auth:user''\<rparr> else r)"

definition role_passes :: "string list \<Rightarrow> credentials_row \<Rightarrow> bool" where
  "role_passes roles r = (case m_role r of None \<Rightarrow> False | Some x \<Rightarrow> x \<in> set roles)"

definition fix_credentials_role_default_up :: script where
  "fix_credentials_role_default_up at s =
     (let roles = [''auth:anon'', ''auth:user'', ''auth:admin'', ''auth:superadmin''] in
      case (cred_table s, role_default s) of
        (None, _) \<Rightarrow> Inl ''relation credentials does not exist''
      | (_, None) \<Rightarrow> Inl ''column role does not exist''
      | (Some rs, Some _) \<Rightarrow>
          if role_check s \<noteq> None then Inl ''constraint credentials_role_check already exists''
          else if list_all (role_passes roles) (map remap_role rs)
          then Inr (s\<lparr>cred_table := Some (map remap_role rs), role_default := Some ''auth:user'',
             role_check := Some roles\<rparr>)
          else Inl ''check constraint credentials_role_check is violated by some row'')"

definition fix_credentials_role_default_down :: script where
  "fix_credentials_role_default_down at s =
     (case (cred_table s, role_default s) of
        (None, _) \<Rightarrow> Inl ''relation credentials does not exist''
      | (_, None) \<Rightarrow> Inl ''column role does not exist''
      | (Some rs, Some _) \<Rightarrow> Inr (s\<lparr>role_default := Some ''user'', role_check := None\<rparr>))"

text \<open>The migrations by name, in the order of their timestamps, each with its two scripts.\<close>

definition up_scripts :: "(string \<times> script) list" where
  "up_scripts =
     [(''20250126124400_credentials_table'', credentials_table_up),
      (''20250208151300_short_codes_table'', short_codes_table_up),
      (''20250319184100_add_credentials_roles'', add_credentials_roles_up),
      (''20260510140000_short_codes_active_unique'', short_codes_active_unique_up),
      (''20260723140000_fix_credentials_role_default'', fix_credentials_role_default_up)]"

definition down_scripts :: "(string \<times> script) list" where
  "down_scripts =
     [(''20250126124400_credentials_table'', credentials_table_down),
      (''20250208151300_short_codes_table'', short_codes_table_down),
      (''20250319184100_add_credentials_roles'', add_credentials_roles_down),
      (''20260510140000_short_codes_active_unique'', short_codes_active_unique_down),
      (''20260723140000_fix_credentials_role_default'', fix_credentials_role_default_down)]"

fun apply_all :: "(string \<times> script) list \<Rightarrow> script" where
  "apply_all [] at s = Inr s"
| "apply_all ((_, f) # fs) at s = (case f at s of Inl e \<Rightarrow> Inl e | Inr s' \<Rightarrow> apply_all fs at s')"

section \<open>The inventory of files\<close>

text \<open>An \<open>fs.FS\<close>: files, and directories with the error of reading them, if any, and the entries read, in
  the order of their names.\<close>

datatype fs_entry = File string | Dir string "string option" "fs_entry list"

fun entry_name :: "fs_entry \<Rightarrow> string" where
  "entry_name (File n) = n"
| "entry_name (Dir n _ _) = n"

definition path_join :: "string \<Rightarrow> string \<Rightarrow> string" where
  "path_join dir n = (if dir = ''.'' then n else dir @ ''/'' @ n)"

definition HasSuffix :: "string \<Rightarrow> string \<Rightarrow> bool" where
  "HasSuffix s suffix \<longleftrightarrow> length suffix \<le> length s \<and> drop (length s - length suffix) s = suffix"

definition TrimSuffix :: "string \<Rightarrow> string \<Rightarrow> string" where
  "TrimSuffix s suffix = (if HasSuffix s suffix then take (length s - length suffix) s else s)"

text \<open>The function \<open>listUpMigrations\<close> walks with: it adds to \<open>out\<close>, and returns the error it is given.\<close>

definition visit :: "string \<Rightarrow> bool \<Rightarrow> string option \<Rightarrow> string list \<Rightarrow> string list \<times> string option" where
  "visit path isDir err out =
     (case err of
        Some e \<Rightarrow> (out, Some e)
      | None \<Rightarrow>
          if isDir then (out, None)
          else if HasSuffix path ''.up.sql'' then (out @ [TrimSuffix path ''.up.sql''], None)
          else (out, None))"

text \<open>\<open>fs.WalkDir\<close> with it: each entry is visited before its own entries, a directory that cannot be read a
  second time with the error, and an error ends the walk.\<close>

fun walk_dir :: "string \<Rightarrow> fs_entry \<Rightarrow> string list \<Rightarrow> string list \<times> string option"
  and walk_entries :: "string \<Rightarrow> fs_entry list \<Rightarrow> string list \<Rightarrow> string list \<times> string option" where
  "walk_dir path (File n) out = visit path False None out"
| "walk_dir path (Dir n failed es) out =
     (case visit path True None out of
        (out, Some e) \<Rightarrow> (out, Some e)
      | (out, None) \<Rightarrow>
          (case failed of
             None \<Rightarrow> walk_entries path es out
           | Some e \<Rightarrow>
               (case visit path True (Some e) out of
                  (out, Some e) \<Rightarrow> (out, Some e)
                | (out, None) \<Rightarrow> walk_entries path es out)))"
| "walk_entries path [] out = (out, None)"
| "walk_entries path (e # es) out =
     (case walk_dir (path_join path (entry_name e)) e out of
        (out, Some err) \<Rightarrow> (out, Some err)
      | (out, None) \<Rightarrow> walk_entries path es out)"

definition listUpMigrations :: "string + fs_entry \<Rightarrow> string list" where
  "listUpMigrations f =
     (case f of
        Inl e \<Rightarrow> fst (visit ''.'' True (Some e) [])
      | Inr root \<Rightarrow> fst (walk_dir ''.'' root []))"

text \<open>The files \<open>//go:embed *.sql\<close> embeds.\<close>

definition embedded_migrations :: fs_entry where
  "embedded_migrations = Dir ''.'' None
     (concat (map (\<lambda>(n, _). [File (n @ ''.down.sql''), File (n @ ''.up.sql'')]) up_scripts))"

section \<open>The command\<close>

datatype log_line = Discovered nat | Listed string | Connecting | Applying | Examined nat

text \<open>
  \<open>postgres.NewContext\<close> is \<open>connect\<close>, and \<open>postgres.RunMigrationsContext\<close> is \<open>runner\<close>: given the
  migrations, the names of the applied ones and the database, it returns an error or none and the database.
  The result is how the process ends, the database and the log.
\<close>

type_synonym runner = "(string \<times> script) list \<Rightarrow> string list \<Rightarrow> schema \<Rightarrow> string option \<times> schema"

definition migrations_main ::
    "(PostgresPreset \<Rightarrow> string option) \<Rightarrow> runner \<Rightarrow> settings \<Rightarrow> string list \<Rightarrow> schema \<Rightarrow>
     unit outcome \<times> schema \<times> log_line list" where
  "migrations_main connect runner env applied s =
     (let discovered = listUpMigrations (Inr embedded_migrations);
          inventory = Discovered (length discovered) # map Listed discovered @ [Connecting] in
      case connect (newPostgresPreset env) of
        Some e \<Rightarrow> (Panic ''lo.Must'', s, inventory)
      | None \<Rightarrow>
          (case runner up_scripts applied s of
             (Some e, s') \<Rightarrow> (Panic ''lo.Must0'', s', inventory @ [Applying])
           | (None, s') \<Rightarrow> (Ret (), s', inventory @ [Applying, Examined (length discovered)])))"

text \<open>The documented behaviour of the runner: it applies what is pending, in order, at the time \<open>at\<close>.\<close>

definition runs_pending :: "time \<Rightarrow> runner \<Rightarrow> bool" where
  "runs_pending at runner \<longleftrightarrow>
     (\<forall>ms applied s s'. apply_all (filter (\<lambda>(n, _). n \<notin> set applied) ms) at s = Inr s' \<longrightarrow>
        runner ms applied s = (None, s'))"

section \<open>The inventory lists the migrations\<close>

text \<open>In a tree whose directories can all be read the names are those of the up files, in the order of the
  walk; an error cuts the list short.\<close>

fun readable :: "fs_entry \<Rightarrow> bool" where
  "readable (File n) = True"
| "readable (Dir n failed es) = (failed = None \<and> list_all readable es)"

fun file_paths :: "string \<Rightarrow> fs_entry \<Rightarrow> string list" where
  "file_paths path (File n) = [path]"
| "file_paths path (Dir n failed es) = concat (map (\<lambda>e. file_paths (path_join path (entry_name e)) e) es)"

definition up_names :: "string list \<Rightarrow> string list" where
  "up_names ps = map (\<lambda>p. TrimSuffix p ''.up.sql'') (filter (\<lambda>p. HasSuffix p ''.up.sql'') ps)"

lemma up_names_append [simp]: "up_names (ps @ qs) = up_names ps @ up_names qs" "up_names [] = []"
  by (simp_all add: up_names_def)

lemma visit_simps [simp]:
  "visit path d (Some e) out = (out, Some e)" "visit path True None out = (out, None)"
  "visit path False None out = (out @ up_names [path], None)"
  by (simp_all add: visit_def up_names_def)

lemma walk_readable:
  "readable e \<Longrightarrow> walk_dir path e out = (out @ up_names (file_paths path e), None)"
  "list_all readable es \<Longrightarrow> walk_entries path es out =
     (out @ up_names (concat (map (\<lambda>e. file_paths (path_join path (entry_name e)) e) es)), None)"
  by (induction path e out and path es out rule: walk_dir_walk_entries.induct) simp_all

lemma listed: "readable root \<Longrightarrow> listUpMigrations (Inr root) = up_names (file_paths ''.'' root)"
  by (simp add: listUpMigrations_def walk_readable)

lemma embedded_listed: "listUpMigrations (Inr embedded_migrations) = map fst up_scripts"
  by code_simp

section \<open>The cleanup of the active codes\<close>

lemma newer_linear: "s_id q \<noteq> s_id r \<Longrightarrow> newer q r \<or> newer r q"
  by (auto simp: newer_def)

lemma newer_trans: "newer p q \<Longrightarrow> newer q r \<Longrightarrow> newer p r"
  by (auto simp: newer_def)

lemma newer_irrefl [simp]: "\<not> newer r r"
  by (simp add: newer_def)

definition latest :: "dao_short_code list \<Rightarrow> dao_short_code \<Rightarrow> bool" where
  "latest rs r \<longleftrightarrow> (\<nexists>q. q \<in> set rs \<and> live q \<and> pair_of q = pair_of r \<and> newer q r)"

lemma row_number_latest: "row_number rs r > 1 \<longleftrightarrow> \<not> latest rs r"
  by (auto simp: row_number_def latest_def filter_empty_conv)

lemma cleanup_map:
  assumes "distinct (map s_id rs)"
  shows "cleanup at rs = map (\<lambda>r. if live r \<and> \<not> latest rs r
      then delete_mark at ''duplicate cleanup before unique index'' r else r) rs"
proof -
  have "s_id r \<in> set (map s_id (filter (\<lambda>r. live r \<and> row_number rs r > 1) rs)) \<longleftrightarrow> live r \<and> \<not> latest rs r"
    if "r \<in> set rs" for r
  proof -
    have "q = r" if "q \<in> set rs" "s_id q = s_id r" for q
      using assms that \<open>r \<in> set rs\<close> by (simp add: distinct_map inj_on_def)
    then show ?thesis using that unfolding row_number_latest by (auto simp: image_iff)
  qed
  then show ?thesis by (simp add: cleanup_def delete_where_def Let_def)
qed

lemma cleanup_ids [simp]: "map s_id (cleanup at rs) = map s_id rs"
  by (simp add: cleanup_def delete_where_def delete_mark_def Let_def)

lemma filter_marked: "filter live (map (\<lambda>r. if live r \<and> \<not> P r then delete_mark at c r else r) rs) =
    filter (\<lambda>r. live r \<and> P r) rs"
  by (induction rs) (auto simp: live_def delete_mark_def)

lemma cleanup_live: "distinct (map s_id rs) \<Longrightarrow> filter live (cleanup at rs) = filter (\<lambda>r. live r \<and> latest rs r) rs"
  using filter_marked by (simp add: cleanup_map)

text \<open>The index can be created afterwards, the rows are untouched where it could be created before, and no
  pair loses its newest code.\<close>

lemma cleanup_unique:
  assumes "distinct (map s_id rs)"
  shows "distinct (map pair_of (filter live (cleanup at rs)))"
proof -
  have "inj_on pair_of {r \<in> set rs. live r \<and> latest rs r}"
  proof (rule inj_onI)
    fix q r assume q: "q \<in> {r \<in> set rs. live r \<and> latest rs r}" and r: "r \<in> {r \<in> set rs. live r \<and> latest rs r}"
      and "pair_of q = pair_of r"
    then have "\<not> newer q r" "\<not> newer r q" unfolding latest_def by auto
    then have "s_id q = s_id r" using newer_linear by blast
    then show "q = r" using assms q r by (simp add: distinct_map inj_on_def)
  qed
  moreover have "distinct rs" using assms by (simp add: distinct_map)
  ultimately show ?thesis unfolding cleanup_live [OF assms] by (simp add: distinct_map)
qed

lemma cleanup_unneeded:
  assumes "distinct (map s_id rs)" "distinct (map pair_of (filter live rs))"
  shows "cleanup at rs = rs"
proof -
  have "latest rs r" if r: "r \<in> set rs" "live r" for r
  proof -
    have "q = r" if "q \<in> set rs" "live q" "pair_of q = pair_of r" for q
      using assms(2) r that by (simp add: distinct_map inj_on_def)
    then show ?thesis unfolding latest_def by fastforce
  qed
  then show ?thesis unfolding cleanup_map [OF assms(1)] by (intro map_idI) auto
qed

lemma cleanup_keeps_latest:
  assumes "distinct (map s_id rs)" "r \<in> set rs" "live r"
  shows "\<exists>q\<in>set (cleanup at rs). live q \<and> pair_of q = pair_of r \<and> (q = r \<or> newer q r)"
  using assms(2,3)
proof (induction "row_number rs r" arbitrary: r rule: less_induct)
  case less
  show ?case
  proof (cases "latest rs r")
    case True
    then have "r \<in> set (filter live (cleanup at rs))" using less.prems unfolding cleanup_live [OF assms(1)] by simp
    then show ?thesis by auto
  next
    case False
    then obtain q where q: "q \<in> set rs" "live q" "pair_of q = pair_of r" "newer q r" by (auto simp: latest_def)
    let ?above = "\<lambda>r. filter (\<lambda>q. live q \<and> pair_of q = pair_of r \<and> newer q r) rs"
    have "?above q = filter (\<lambda>p. newer p q) (?above r)"
      using q(3) newer_trans [OF _ q(4)] by (auto intro!: filter_cong)
    then have "length (?above q) < length (?above r)"
      using length_filter_less [of q "?above r" "\<lambda>p. newer p q"] q by simp
    then have "row_number rs q < row_number rs r" by (simp add: row_number_def)
    from less.hyps [OF this q(1,2)] q(3,4) show ?thesis using newer_trans by metis
  qed
qed

section \<open>Upgrading establishes the constraints\<close>

text \<open>The rows of the tables there are, and what a database with the first \<open>n\<close> migrations applied holds: the
  tables and columns of that version, its constraints, and no role but \<open>'user'\<close>, the default of versions
  3 and 4, and those \<open>CredentialsUpdateRole\<close> validates.\<close>

definition account_rows :: "schema \<Rightarrow> credentials_row list" where
  "account_rows s = (case cred_table s of None \<Rightarrow> [] | Some rs \<Rightarrow> rs)"

definition code_rows :: "schema \<Rightarrow> dao_short_code list" where
  "code_rows s = (case codes_table s of None \<Rightarrow> [] | Some rs \<Rightarrow> rs)"

definition roles_at :: "nat \<Rightarrow> string option set" where
  "roles_at n = (if n < 3 then {None} else Some ` (set role_check_list \<union> (if n < 5 then {''user''} else {})))"

definition version_ok :: "nat \<Rightarrow> schema \<Rightarrow> bool" where
  "version_ok n s \<longleftrightarrow>
     (cred_table s = None \<longleftrightarrow> n = 0) \<and> (codes_table s = None \<longleftrightarrow> n < 2) \<and>
     role_default s = (if n < 3 then None else if n < 5 then Some ''user'' else Some ''auth:user'') \<and>
     role_check s = (if n < 5 then None else Some role_check_list) \<and> active_unique s = (4 \<le> n) \<and>
     distinct (map m_id (account_rows s)) \<and> distinct (map m_email (account_rows s)) \<and>
     (\<forall>r\<in>set (account_rows s). m_email r \<noteq> '''' \<and> m_role r \<in> roles_at n) \<and>
     distinct (map s_id (code_rows s)) \<and> (4 \<le> n \<longrightarrow> distinct (map pair_of (filter live (code_rows s))))"

text \<open>What an upgrade makes of an account: the role it has, with \<open>auth:user\<close> for none and for the old default.\<close>

definition final_row :: "credentials_row \<Rightarrow> credentials_row" where
  "final_row r = r\<lparr>m_role := Some (case m_role r of None \<Rightarrow> ''auth:user''
     | Some x \<Rightarrow> if x = ''user'' then ''auth:user'' else x)\<rparr>"

definition to_row :: "credentials_row \<Rightarrow> dao_credentials" where
  "to_row r = \<lparr>c_id = m_id r, c_email = m_email r, c_password = (case m_password r of None \<Rightarrow> '''' | Some p \<Rightarrow> p),
     c_role = (case m_role r of None \<Rightarrow> '''' | Some x \<Rightarrow> x), c_created_at = m_created_at r, c_updated_at = m_updated_at r\<rparr>"

text \<open>The tables as the service sees them.\<close>

definition to_db :: "schema \<Rightarrow> db" where
  "to_db s = \<lparr>credentials = map to_row (account_rows s), short_codes = code_rows s\<rparr>"

definition upgraded :: "time \<Rightarrow> schema \<Rightarrow> schema \<Rightarrow> bool" where
  "upgraded at s s' \<longleftrightarrow> map final_row (account_rows s') = map final_row (account_rows s) \<and> cleanup at (code_rows s') = cleanup at (code_rows s)"

lemma final_row_of: "m_role r = None \<Longrightarrow> final_row (r\<lparr>m_role := Some ''user''\<rparr>) = final_row r"
  "final_row (remap_role r) = final_row r"
  by (simp_all add: final_row_def remap_role_def)

lemma remap_role_fields [simp]: "m_id (remap_role r) = m_id r" "m_email (remap_role r) = m_email r"
  by (simp_all add: remap_role_def)

lemma remap_role_known:
  assumes "m_role r \<in> roles_at 4"
  shows "m_role (remap_role r) \<in> roles_at 5" "role_passes role_check_list (remap_role r)"
  using assms by (auto simp: roles_at_def remap_role_def role_passes_def role_check_list_def)

lemma final_row_known: "m_role r \<in> roles_at 5 \<Longrightarrow> final_row r = r"
  by (cases r) (auto simp: final_row_def roles_at_def role_check_list_def)

lemmas version_simps = version_ok_def upgraded_def account_rows_def code_rows_def

lemma script_step:
  assumes "version_ok n s" "n < 5"
  shows "\<exists>s'. snd (up_scripts ! n) at s = Inr s' \<and> version_ok (Suc n) s' \<and> upgraded at s s'"
proof -
  consider "n = 0" | "n = 1" | "n = 2" | "n = 3" | "n = 4" using assms(2) by linarith
  then show ?thesis
  proof cases
    case 1
    then show ?thesis using assms(1)
      by (auto simp: up_scripts_def credentials_table_up_def version_simps)
  next
    case 2
    then show ?thesis using assms(1)
      by (auto simp: up_scripts_def short_codes_table_up_def version_simps roles_at_def)
  next
    case 3
    then obtain rs where "cred_table s = Some rs" using assms(1) by (auto simp: version_ok_def)
    with 3 show ?thesis using assms(1)
      by (auto simp: up_scripts_def add_credentials_roles_up_def version_simps roles_at_def final_row_of comp_def)
  next
    case 4
    then obtain rs where rs: "codes_table s = Some rs" using assms(1) by (auto simp: version_ok_def)
    then have ids: "distinct (map s_id rs)" using assms(1) by (simp add: version_simps)
    note unique = cleanup_unique [OF ids, of at]
    have "cleanup at (cleanup at rs) = cleanup at rs" by (rule cleanup_unneeded) (simp_all add: ids unique)
    with 4 rs ids unique show ?thesis using assms(1)
      by (simp add: up_scripts_def short_codes_active_unique_up_def version_simps roles_at_def)
  next
    case 5
    then obtain rs where rs: "cred_table s = Some rs" using assms(1) by (auto simp: version_ok_def)
    with 5 assms(1) have known: "m_role r \<in> roles_at 4" if "r \<in> set rs" for r
      using that by (simp add: version_simps)
    have roles: "[''auth:anon'', ''auth:user'', ''auth:admin'', ''auth:superadmin''] = role_check_list"
      by (simp add: role_check_list_def)
    have "list_all (role_passes role_check_list) (map remap_role rs)"
      using remap_role_known(2) [OF known] by (simp add: list_all_iff)
    with 5 rs show ?thesis using assms(1) remap_role_known(1) [OF known]
      by (auto simp: up_scripts_def fix_credentials_role_default_up_def roles version_simps final_row_of comp_def)
  qed
qed

lemma upgrade_step:
  assumes "n < 5" "version_ok n s"
  obtains s1 where "snd (up_scripts ! n) at s = Inr s1" "version_ok (Suc n) s1" "upgraded at s s1"
    "apply_all (drop n up_scripts) at s = apply_all (drop (Suc n) up_scripts) at s1"
proof -
  obtain s1 where s1: "snd (up_scripts ! n) at s = Inr s1" "version_ok (Suc n) s1" "upgraded at s s1"
    using script_step [OF assms(2,1)] by blast
  have "length up_scripts = 5" by (simp add: up_scripts_def)
  then have d: "drop n up_scripts = up_scripts ! n # drop (Suc n) up_scripts"
    using assms(1) by (simp add: Cons_nth_drop_Suc)
  obtain name f where f: "up_scripts ! n = (name, f)" by (cases "up_scripts ! n")
  have "apply_all (drop n up_scripts) at s = apply_all (drop (Suc n) up_scripts) at s1"
    unfolding d f using s1(1) f by simp
  with s1 that show thesis by blast
qed

lemma upgrade:
  assumes "n \<le> 5" "version_ok n s"
  shows "\<exists>s'. apply_all (drop n up_scripts) at s = Inr s' \<and> version_ok 5 s' \<and> upgraded at s s'"
  using assms
proof (induction "5 - n" arbitrary: n s)
  case 0
  then have "n = 5" "drop n up_scripts = []" by (simp_all add: up_scripts_def)
  with 0 show ?case by (simp add: upgraded_def)
next
  case (Suc k)
  then have "n < 5" by simp
  then obtain s1 where s1: "version_ok (Suc n) s1" "upgraded at s s1"
    "apply_all (drop n up_scripts) at s = apply_all (drop (Suc n) up_scripts) at s1"
    using upgrade_step [OF _ Suc.prems(2)] by metis
  have "k = 5 - Suc n" "Suc n \<le> 5" using Suc.hyps(2) \<open>n < 5\<close> by simp_all
  from Suc.hyps(1) [OF this s1(1)] show ?case unfolding s1(3) using s1(2) by (auto simp: upgraded_def)
qed

text \<open>The last version is the one the service assumes.\<close>

lemma latest_version:
  assumes "version_ok 5 s"
  shows "service_ok (to_db s)" "map final_row (account_rows s) = account_rows s" "cleanup at (code_rows s) = code_rows s"
proof -
  have rows: "row_checks (to_row r)" if "r \<in> set (account_rows s)" for r
    using assms that by (auto simp: version_ok_def row_checks_def to_row_def roles_at_def)
  have "c_id \<circ> to_row = m_id" "c_email \<circ> to_row = m_email" by (simp_all add: fun_eq_iff to_row_def)
  with assms rows show "service_ok (to_db s)"
    unfolding service_ok_def accounts_ok_def credentials_ok_def short_codes_ok_def codes_ok_def
    by (simp add: to_db_def version_ok_def)
  show "map final_row (account_rows s) = account_rows s"
    using assms by (intro map_idI) (simp add: version_ok_def final_row_known)
  show "cleanup at (code_rows s) = code_rows s"
    by (rule cleanup_unneeded) (use assms in \<open>simp_all add: version_ok_def\<close>)
qed

lemma upgrade_db:
  assumes "n \<le> 5" "version_ok n s"
  obtains s' where "apply_all (drop n up_scripts) at s = Inr s'" "version_ok 5 s'" "service_ok (to_db s')"
    "credentials (to_db s') = map (\<lambda>r. to_row (final_row r)) (account_rows s)" "short_codes (to_db s') = cleanup at (code_rows s)"
proof -
  obtain s' where s': "apply_all (drop n up_scripts) at s = Inr s'" "version_ok 5 s'" "upgraded at s s'"
    using upgrade [OF assms] by blast
  note latest = latest_version [OF s'(2)]
  have "account_rows s' = map final_row (account_rows s)" "code_rows s' = cleanup at (code_rows s)"
    using s'(3) latest(2,3) unfolding upgraded_def by metis+
  then show thesis by (intro that [OF s'(1,2) latest(1)]) (simp_all add: to_db_def)
qed

lemma filter_other_keys:
  "distinct (map fst (xs @ ys)) \<Longrightarrow> filter (\<lambda>(k, _). k \<notin> set (map fst xs)) (xs @ ys) = ys"
proof -
  assume d: "distinct (map fst (xs @ ys))"
  have "filter (\<lambda>(k, _). k \<notin> set (map fst xs)) xs = []" by (force simp: filter_empty_conv)
  moreover have "filter (\<lambda>(k, _). k \<notin> set (map fst xs)) ys = ys"
    using d by (force simp: filter_id_conv disjoint_iff)
  ultimately show ?thesis by simp
qed

lemma pending_scripts: "filter (\<lambda>(name, _). name \<notin> set (map fst (take n up_scripts))) up_scripts = drop n up_scripts"
proof -
  have "distinct (map fst (take n up_scripts @ drop n up_scripts))" unfolding append_take_drop_id by code_simp
  from filter_other_keys [OF this] show ?thesis by simp
qed

section \<open>Downgrading\<close>

text \<open>What a script leaves of the shape of the schema is undone by its down script; the rows of a dropped
  table or column, and the remapped roles, are not brought back.\<close>

definition shape :: "schema \<Rightarrow> bool \<times> string option \<times> string list option \<times> bool \<times> bool" where
  "shape s = (cred_table s = None, role_default s, role_check s, codes_table s = None, active_unique s)"

lemma script_undone:
  assumes "version_ok n s" "n < 5" "snd (up_scripts ! n) at s = Inr s'"
  shows "\<exists>s''. snd (down_scripts ! n) at' s' = Inr s'' \<and> shape s'' = shape s"
proof -
  consider "n = 0" | "n = 1" | "n = 2" | "n = 3" | "n = 4" using assms(2) by linarith
  then show ?thesis
  proof cases
    case 1
    then show ?thesis using assms(1,3)
      by (auto simp: up_scripts_def down_scripts_def credentials_table_up_def credentials_table_down_def
          version_ok_def shape_def)
  next
    case 2
    then show ?thesis using assms(1,3)
      by (auto simp: up_scripts_def down_scripts_def short_codes_table_up_def short_codes_table_down_def
          version_ok_def shape_def)
  next
    case 3
    then show ?thesis using assms(1,3)
      by (auto simp: up_scripts_def down_scripts_def add_credentials_roles_up_def add_credentials_roles_down_def
          version_ok_def shape_def)
  next
    case 4
    then show ?thesis using assms(1,3)
      by (auto simp: up_scripts_def down_scripts_def short_codes_active_unique_up_def
          short_codes_active_unique_down_def version_ok_def shape_def split: if_splits)
  next
    case 5
    then show ?thesis using assms(1,3)
      by (auto simp: up_scripts_def down_scripts_def fix_credentials_role_default_up_def Let_def
          fix_credentials_role_default_down_def version_ok_def shape_def split: if_splits)
  qed
qed

end
