(* ===== verification/Interleaving.thy ===== *)
theory Interleaving
  imports ShortCodeService Steps
begin

text \<open>
  Redemptions that overlap. \<open>core_ShortCodeConsume\<close> reads the code with one statement and retires it
  with another, inside the transaction of its caller; two requests can be between the two with the same
  code in hand. Here the statements of any number of redemptions and insertions interleave as Postgres
  runs them at its default isolation: a statement reads the committed rows, an \<open>UPDATE\<close> locks the rows it
  changes until its transaction ends and waits for a row another transaction has locked.
\<close>

section \<open>Sessions\<close>

text \<open>How far a redemption is: not started, holding the row it read and whose hash it compared, holding
  the lock of the row it retired (with the two clocks of that statement), committed, or given up.\<close>

datatype session =
    Waiting
  | Selected dao_short_code
  | Deleted dao_short_code time time
  | Redeemed dao_short_code
  | GivenUp

record shared =
  codes :: "dao_short_code list"
  sessions :: "nat \<Rightarrow> session"

definition locked :: "shared \<Rightarrow> uuid \<Rightarrow> bool" where
  "locked s i \<longleftrightarrow> (\<exists>k r clock at. sessions s k = Deleted r clock at \<and> s_id r = i)"

abbreviation stored :: "shared \<Rightarrow> db" where
  "stored s \<equiv> \<lparr>credentials = [], short_codes = codes s\<rparr>"

text \<open>
  The steps of session \<open>k\<close>, whose request is \<open>rqs k\<close>: the select with the checks that follow it, the
  delete, the commit, and giving up, which a refusal, a failure or an expired deadline may cause at any
  point. Another transaction may insert a code as \<open>ShortCodeInsert\<close> does, unless it would wait for a
  locked row.
\<close>

inductive redeem_step :: "ext \<Rightarrow> (nat \<Rightarrow> ShortCodeConsumeRequest) \<Rightarrow> shared \<Rightarrow> shared \<Rightarrow> bool" for E rqs where
  select: "sessions s k = Waiting \<Longrightarrow> struct_valid E (consume_struct (rqs k)) \<Longrightarrow>
    sql_shortCodeSelect (sco_Target (rqs k)) (sco_Usage (rqs k)) clock (stored s) = (Inr (r # rs), d) \<Longrightarrow>
    \<not> s_expires_at r < now \<Longrightarrow>
    CompareArgon2 (x_idkey E) (x_argon_version E) (sco_Code (rqs k)) (s_code r) = Ret () \<Longrightarrow>
    redeem_step E rqs s (s\<lparr>sessions := (sessions s)(k := Selected r)\<rparr>)"
| delete: "sessions s k = Selected r \<Longrightarrow> \<not> locked s (s_id r) \<Longrightarrow>
    sql_shortCodeDelete at ShortCodeDeleteConsumed (s_id r) clock (stored s) = (Inr (del # dels), d) \<Longrightarrow>
    redeem_step E rqs s (s\<lparr>sessions := (sessions s)(k := Deleted r clock at)\<rparr>)"
| commit: "sessions s k = Deleted r clock at \<Longrightarrow>
    sql_shortCodeDelete at ShortCodeDeleteConsumed (s_id r) clock (stored s) = (res, d) \<Longrightarrow>
    redeem_step E rqs s (s\<lparr>codes := short_codes d, sessions := (sessions s)(k := Redeemed r)\<rparr>)"
| give_up: "\<forall>r. sessions s k \<noteq> Redeemed r \<Longrightarrow>
    redeem_step E rqs s (s\<lparr>sessions := (sessions s)(k := GivenUp)\<rparr>)"
| insert: "insert_code (new_code rq) (cleared rq clock (codes s)) = Inr rs \<Longrightarrow>
    (\<forall>r\<in>set (codes s). locked s (s_id r) \<longrightarrow> r \<in> set (cleared rq clock (codes s))) \<Longrightarrow>
    redeem_step E rqs s (s\<lparr>codes := rs\<rparr>)"

abbreviation redeem_reaches :: "ext \<Rightarrow> (nat \<Rightarrow> ShortCodeConsumeRequest) \<Rightarrow> shared \<Rightarrow> shared \<Rightarrow> bool" where
  "redeem_reaches E rqs \<equiv> (redeem_step E rqs)\<^sup>*\<^sup>*"

definition fresh_sessions :: "dao_short_code list \<Rightarrow> shared" where
  "fresh_sessions rs = \<lparr>codes = rs, sessions = (\<lambda>_. Waiting)\<rparr>"

section \<open>One session alone is the service\<close>

text \<open>A redemption that returned a code is a run of its three steps with nothing in between.\<close>

lemma consume_is_a_run:
  assumes "core_ShortCodeConsume E (rqs k) w = (Ret sc, w')" "short_codes_ok (db w)"
  shows "\<exists>s r. redeem_reaches E rqs (fresh_sessions (short_codes (db w))) s \<and> sessions s k = Redeemed r \<and>
    sc = to_ShortCode r (sco_Code (rqs k)) \<and> codes s = short_codes (db w')"
proof -
  let ?rs = "short_codes (db w)" and ?c = ShortCodeDeleteConsumed
  obtain r clock1 clock2 at where c: "struct_valid E (consume_struct (rqs k))"
    "find_active (sco_Target (rqs k), sco_Usage (rqs k)) clock1 ?rs = Some r" "active_at clock2 r"
    "CompareArgon2 (x_idkey E) (x_argon_version E) (sco_Code (rqs k)) (s_code r) = Ret ()"
    "sc = to_ShortCode r (sco_Code (rqs k))"
    "db w' = (db w)\<lparr>short_codes := retire_code (s_id r) clock2 at ?c ?rs\<rparr>"
    by (rule consume_Ret [OF assms])
  let ?s0 = "fresh_sessions ?rs"
  let ?s1 = "?s0\<lparr>sessions := (sessions ?s0)(k := Selected r)\<rparr>"
  let ?s2 = "?s1\<lparr>sessions := (sessions ?s1)(k := Deleted r clock2 at)\<rparr>"
  let ?s3 = "?s2\<lparr>codes := retire_code (s_id r) clock2 at ?c ?rs, sessions := (sessions ?s2)(k := Redeemed r)\<rparr>"
  have "r \<in> set ?rs" using c(2) assms(2) by (simp add: short_codes_ok_def find_active_Some)
  then have "r \<in> set (filter (retire_match (s_id r) clock2) ?rs)" using c(3) by (simp add: retire_match_def)
  then obtain del dels where del: "map (delete_mark at ?c) (filter (retire_match (s_id r) clock2) ?rs) = del # dels"
    by (cases "filter (retire_match (s_id r) clock2) ?rs") simp_all
  obtain tail where "filter (\<lambda>r. pair_of r = (sco_Target (rqs k), sco_Usage (rqs k)) \<and> active_at clock1 r) ?rs = r # tail"
    using c(2) unfolding find_code_filter by (auto split: list.splits)
  then have "redeem_step E rqs ?s0 ?s1"
    using c(1,4) by (intro redeem_step.select [where now = "s_expires_at r"])
      (simp_all add: fresh_sessions_def sql_shortCodeSelect_def)
  moreover have "redeem_step E rqs ?s1 ?s2"
    using del by (intro redeem_step.delete) (simp_all add: fresh_sessions_def sql_shortCodeDelete_def locked_def)
  moreover have "redeem_step E rqs ?s2 ?s3"
    using redeem_step.commit [of ?s2 k r clock2 at] by (simp add: fresh_sessions_def sql_shortCodeDelete_def retire_code_def)
  ultimately have "redeem_reaches E rqs ?s0 ?s3" by (meson rtranclp.rtrancl_into_rtrancl rtranclp.rtrancl_refl)
  then show ?thesis using c(5,6) by (intro exI [of _ ?s3] exI [of _ r]) simp
qed

section \<open>The invariant\<close>

text \<open>
  At most one session holds the lock of a row, and the row is live; the row of a finished redemption is
  still stored, and dead; so nobody else can have retired it.
\<close>

definition row_of :: "uuid \<Rightarrow> dao_short_code list \<Rightarrow> dao_short_code option" where
  "row_of i rs = find (\<lambda>r. s_id r = i) rs"

fun session_ok :: "dao_short_code list \<Rightarrow> session \<Rightarrow> bool" where
  "session_ok rs (Deleted r clock at) \<longleftrightarrow> (\<exists>x. row_of (s_id r) rs = Some x \<and> active_at clock x)"
| "session_ok rs (Redeemed r) \<longleftrightarrow> (\<exists>x. row_of (s_id r) rs = Some x \<and> \<not> live x)"
| "session_ok rs _ \<longleftrightarrow> True"

fun has_taken :: "session \<Rightarrow> uuid \<Rightarrow> bool" where
  "has_taken (Deleted r clock at) i \<longleftrightarrow> s_id r = i"
| "has_taken (Redeemed r) i \<longleftrightarrow> s_id r = i"
| "has_taken _ i \<longleftrightarrow> False"

definition sessions_ok :: "shared \<Rightarrow> bool" where
  "sessions_ok s \<longleftrightarrow> codes_ok (codes s) \<and> (\<forall>k. session_ok (codes s) (sessions s k)) \<and>
     (\<forall>k l i. has_taken (sessions s k) i \<longrightarrow> has_taken (sessions s l) i \<longrightarrow> k = l)"

lemma session_moves:
  assumes "sessions_ok s" "session_ok (codes s) x"
    "\<And>i l. has_taken x i \<Longrightarrow> has_taken (sessions s l) i \<Longrightarrow> l = k"
  shows "sessions_ok (s\<lparr>sessions := (sessions s)(k := x)\<rparr>)"
  using assms unfolding sessions_ok_def by (simp add: fun_upd_def)

lemma row_of_delete_where: "row_of i (delete_where P at c rs) =
    map_option (\<lambda>r. if P r then delete_mark at c r else r) (row_of i rs)"
  by (induction rs) (simp_all add: row_of_def)

lemma row_of_snoc: "row_of i (rs @ [r]) = (case row_of i rs of None \<Rightarrow> if s_id r = i then Some r else None | x \<Rightarrow> x)"
  by (induction rs) (simp_all add: row_of_def)

lemma row_of_cleared: "\<exists>P at c. row_of i (cleared rq clock rs) =
    map_option (\<lambda>r. if P r then delete_mark at c r else r) (row_of i rs)"
  unfolding cleared_def supersede_codes_def by (auto simp: row_of_delete_where)

lemma row_of_set: "row_of i rs = Some r \<Longrightarrow> r \<in> set rs \<and> s_id r = i"
  by (auto simp: row_of_def find_Some_iff)

lemma row_of_unique: "distinct (map s_id rs) \<Longrightarrow> r \<in> set rs \<Longrightarrow> row_of (s_id r) rs = Some r"
  by (induction rs) (auto simp: row_of_def)

lemma cleared_ok: "codes_ok rs \<Longrightarrow> codes_ok (cleared rq clock rs)"
  by (simp add: cleared_def supersede_codes_def delete_where_ok)

text \<open>An insertion keeps dead rows dead and locked rows as they are.\<close>

lemma insert_keeps_rows:
  assumes "codes_ok rs" "insert_code (new_code rq) (cleared rq clock rs) = Inr rs'" "row_of i rs = Some x"
  shows "\<exists>y. row_of i rs' = Some y \<and> (\<not> live x \<longrightarrow> \<not> live y) \<and> (x \<in> set (cleared rq clock rs) \<longrightarrow> y = x)"
proof -
  obtain P at c where "row_of i (cleared rq clock rs) =
      map_option (\<lambda>r. if P r then delete_mark at c r else r) (row_of i rs)"
    using row_of_cleared by blast
  then obtain y where y: "row_of i (cleared rq clock rs) = Some y" "\<not> live x \<longrightarrow> \<not> live y"
    using assms(3) by auto
  have "distinct (map s_id (cleared rq clock rs))" using cleared_ok [OF assms(1)] by (simp add: codes_ok_def)
  then have "x \<in> set (cleared rq clock rs) \<longrightarrow> y = x"
    using y(1) row_of_unique row_of_set [OF assms(3)] by fastforce
  moreover have "row_of i rs' = Some y" using assms(2) y(1) by (auto simp: insert_code_Inr row_of_snoc)
  ultimately show ?thesis using y(2) by blast
qed

text \<open>The commit of a redemption kills its own row and no other.\<close>

lemma commit_rows:
  assumes "row_of i rs = Some x"
  shows "row_of i (delete_where (retire_match j clock) at c rs) =
    Some (if i = j \<and> active_at clock x then delete_mark at c x else x)"
  using assms row_of_set [OF assms] by (auto simp: row_of_delete_where retire_match_def)

text \<open>A session with a row stays right as long as the change of the table respects that row.\<close>

lemma session_follows:
  assumes "session_ok rs x"
    and "\<And>i a. has_taken x i \<Longrightarrow> row_of i rs = Some a \<Longrightarrow> \<exists>b. row_of i rs' = Some b \<and> (\<not> live a \<longrightarrow> \<not> live b) \<and>
      ((\<exists>r clock at. x = Deleted r clock at) \<longrightarrow> b = a)"
  shows "session_ok rs' x"
  using assms by (cases x) force+

lemma redeem_step_ok:
  assumes "redeem_step E rqs s t" "sessions_ok s"
  shows "sessions_ok t"
  using assms(1)
proof cases
  case (select k clock r rs d now)
  then show ?thesis using assms(2) by (auto intro: session_moves)
next
  case (delete k r at clock del dels d)
  have "filter (retire_match (s_id r) clock) (codes s) \<noteq> []"
    using delete(4) by (auto simp: sql_shortCodeDelete_def)
  then obtain x where x: "x \<in> set (codes s)" "s_id x = s_id r" "active_at clock x"
    by (auto simp: filter_empty_conv retire_match_def)
  then have row: "row_of (s_id r) (codes s) = Some x"
    using assms(2) row_of_unique [of "codes s" x] by (simp add: sessions_ok_def codes_ok_def)
  have "l = k" if "has_taken (sessions s l) (s_id r)" for l
  proof (cases "sessions s l")
    case (Deleted r' clock' at')
    then have "locked s (s_id r)" using that by (auto simp: locked_def)
    then show ?thesis using delete(3) by simp
  next
    case (Redeemed r')
    then have "session_ok (codes s) (Redeemed r')" using assms(2) unfolding sessions_ok_def by metis
    then show ?thesis using that Redeemed row x(3) by (auto simp: active_at_def)
  qed (use that in simp_all)
  then show ?thesis unfolding delete(1) using row x(3) by (intro session_moves [OF assms(2)]) auto
next
  case (commit k r clock at res d)
  have d: "short_codes d = delete_where (retire_match (s_id r) clock) at ShortCodeDeleteConsumed (codes s)"
    using commit(3) by (auto simp: sql_shortCodeDelete_def)
  have ok: "session_ok (codes s) (sessions s l)" for l using assms(2) by (simp add: sessions_ok_def)
  from ok [of k] commit(2) obtain x where x: "row_of (s_id r) (codes s) = Some x" "active_at clock x" by auto
  have taken: "has_taken (sessions s k) (s_id r)" using commit(2) by simp
  have others: "session_ok (short_codes d) (sessions s l)" if "l \<noteq> k" for l
  proof (rule session_follows [OF ok [of l]])
    fix i a assume i: "has_taken (sessions s l) i" "row_of i (codes s) = Some a"
    have "i \<noteq> s_id r" using assms(2) taken i(1) that unfolding sessions_ok_def by metis
    then show "\<exists>b. row_of i (short_codes d) = Some b \<and> (\<not> live a \<longrightarrow> \<not> live b) \<and>
        ((\<exists>r clock at. sessions s l = Deleted r clock at) \<longrightarrow> b = a)"
      using i(2) by (simp add: d commit_rows)
  qed
  have own: "session_ok (short_codes d) (Redeemed r)" using x by (simp add: d commit_rows)
  have "codes_ok (short_codes d)" using assms(2) by (simp add: d sessions_ok_def delete_where_ok)
  then show ?thesis
    using assms(2) others own taken unfolding sessions_ok_def commit(1) by (auto simp: fun_upd_def)
next
  case (give_up k)
  then show ?thesis using assms(2) by (auto intro: session_moves)
next
  case (insert rq clock rs)
  have ok: "codes_ok (codes s)" using assms(2) by (simp add: sessions_ok_def)
  have "session_ok rs (sessions s l)" for l
  proof (rule session_follows)
    show "session_ok (codes s) (sessions s l)" using assms(2) by (simp add: sessions_ok_def)
    fix i a assume i: "has_taken (sessions s l) i" "row_of i (codes s) = Some a"
    have "a \<in> set (cleared rq clock (codes s))" if "\<exists>r clock at. sessions s l = Deleted r clock at"
      using that i row_of_set [OF i(2)] insert(3) unfolding locked_def by fastforce
    with insert_keeps_rows [OF ok insert(2) i(2)]
    show "\<exists>b. row_of i rs = Some b \<and> (\<not> live a \<longrightarrow> \<not> live b) \<and>
        ((\<exists>r clock at. sessions s l = Deleted r clock at) \<longrightarrow> b = a)" by blast
  qed
  moreover have "codes_ok rs" using insert_code_ok [OF cleared_ok [OF ok] insert(2)] .
  ultimately show ?thesis using assms(2) unfolding sessions_ok_def insert(1) by simp
qed

lemma fresh_sessions_ok: "codes_ok rs \<Longrightarrow> sessions_ok (fresh_sessions rs)"
  by (simp add: sessions_ok_def fresh_sessions_def)

interpretation redemptions: preserved "redeem_step E rqs" sessions_ok for E rqs
  by unfold_locales (rule redeem_step_ok)

section \<open>What a session proved\<close>

fun carried :: "session \<Rightarrow> dao_short_code option" where
  "carried (Selected r) = Some r"
| "carried (Deleted r clock at) = Some r"
| "carried (Redeemed r) = Some r"
| "carried _ = None"

definition proved :: "ext \<Rightarrow> ShortCodeConsumeRequest \<Rightarrow> dao_short_code \<Rightarrow> bool" where
  "proved E rq r \<longleftrightarrow> pair_of r = (sco_Target rq, sco_Usage rq) \<and>
     CompareArgon2 (x_idkey E) (x_argon_version E) (sco_Code rq) (s_code r) = Ret ()"

definition all_proved :: "ext \<Rightarrow> (nat \<Rightarrow> ShortCodeConsumeRequest) \<Rightarrow> shared \<Rightarrow> bool" where
  "all_proved E rqs s \<longleftrightarrow> (\<forall>k r. carried (sessions s k) = Some r \<longrightarrow> proved E (rqs k) r)"

lemma redeem_step_proved:
  assumes "redeem_step E rqs s t" "all_proved E rqs s"
  shows "all_proved E rqs t"
  using assms(1)
proof cases
  case (select k clock r rs d now)
  then have "r \<in> set (filter (\<lambda>r. pair_of r = (sco_Target (rqs k), sco_Usage (rqs k)) \<and> active_at clock r) (codes s))"
    by (auto simp: sql_shortCodeSelect_def)
  then have "proved E (rqs k) r" using select(6) by (simp add: proved_def)
  then show ?thesis using assms(2) select(1) by (simp add: all_proved_def)
next
  case (delete k r at clock del dels d)
  then have "proved E (rqs k) r" using assms(2) unfolding all_proved_def by (metis carried.simps(1))
  then show ?thesis using assms(2) delete(1) by (simp add: all_proved_def)
next
  case (commit k r clock at res d)
  then have "proved E (rqs k) r" using assms(2) unfolding all_proved_def by (metis carried.simps(2))
  then show ?thesis using assms(2) commit(1) by (simp add: all_proved_def)
qed (use assms(2) in \<open>simp_all add: all_proved_def\<close>)

interpretation proofs_carried: preserved "redeem_step E rqs" "all_proved E rqs" for E rqs
  by unfold_locales (rule redeem_step_proved)

lemma redeemed_proved:
  "redeem_reaches E rqs (fresh_sessions rs) s \<Longrightarrow> carried (sessions s k) = Some r \<Longrightarrow> proved E (rqs k) r"
  using proofs_carried.reached [of E rqs "fresh_sessions rs" s] by (simp add: all_proved_def fresh_sessions_def)

text \<open>What a finished redemption excludes: another one of the same row, and finding the row active again.\<close>

lemma redeemed_once:
  "sessions_ok s \<Longrightarrow> sessions s k = Redeemed r \<Longrightarrow> sessions s l = Redeemed r' \<Longrightarrow> s_id r' = s_id r \<Longrightarrow> l = k"
  unfolding sessions_ok_def by (metis has_taken.simps(2))

lemma redeemed_gone:
  assumes "sessions_ok s" "sessions s k = Redeemed r" "find_active p now (codes s) = Some x"
  shows "s_id x \<noteq> s_id r"
proof -
  have "session_ok (codes s) (Redeemed r)" using assms(1,2) unfolding sessions_ok_def by metis
  then obtain y where y: "row_of (s_id r) (codes s) = Some y" "\<not> live y" by auto
  then show ?thesis using assms(1,3) row_of_unique [of "codes s" x]
    by (auto simp: sessions_ok_def find_active_Some codes_ok_def active_at_def)
qed

end
