(* ===== verification/Issuing.thy ===== *)
theory Issuing
  imports ShortCodeService Steps
begin

text \<open>
  Insertions of codes that overlap. \<open>ShortCodeInsert\<close> clears the pair with an \<open>UPDATE\<close>, may count what is
  left, and inserts, in one transaction that runs at read committed; two of them for the same pair rely on
  row locks and on the partial unique index. Here their statements interleave as Postgres runs them: the
  \<open>UPDATE\<close> takes the committed rows of its start, locks one after the other, waiting for the transaction
  that holds a row and looking at the row again when it gets it; the \<open>INSERT\<close> waits for a transaction that
  has inserted the same key, or deleted the row it collides with, and fails on a committed row.
\<close>

section \<open>Sessions\<close>

text \<open>The clock of the running \<open>UPDATE\<close> with the rows it still has to lock, the rows it has marked, and where the
  transaction is after it.\<close>

datatype issue_session =
    NotStarted
  | Clearing time "uuid list" "uuid set"
  | IsCleared "uuid set"
  | IsChecked "uuid set"
  | IsInserted "uuid set"
  | Issued
  | Lost
  | Failed

record issuing =
  committed :: "dao_short_code list"
  issues :: "nat \<Rightarrow> issue_session"

text \<open>The pair a request is for, the rows its \<open>UPDATE\<close> is for, and what it makes of them.\<close>

abbreviation pair_for :: "ShortCodeInsertRequest \<Rightarrow> pair" where
  "pair_for rq \<equiv> (si_Target rq, si_Usage rq)"

definition clear_match :: "ShortCodeInsertRequest \<Rightarrow> time \<Rightarrow> dao_short_code \<Rightarrow> bool" where
  "clear_match rq clock =
     (if si_Override rq then conflict_match (pair_for rq) clock else expired_match (pair_for rq) (si_Now rq))"

definition clear_rows :: "ShortCodeInsertRequest \<Rightarrow> uuid set \<Rightarrow> dao_short_code list \<Rightarrow> dao_short_code list" where
  "clear_rows rq ids =
     (if si_Override rq then delete_where (\<lambda>r. s_id r \<in> ids) (si_Now rq - second) ShortCodeDeleteOverride
      else delete_where (\<lambda>r. s_id r \<in> ids) (si_Now rq) ''expired before insert'')"

text \<open>The rows a session has locked, and the rows as its later statements see them.\<close>

fun held :: "issue_session \<Rightarrow> uuid set" where
  "held (Clearing clock todo ids) = ids"
| "held (IsCleared ids) = ids"
| "held (IsChecked ids) = ids"
| "held (IsInserted ids) = ids"
| "held _ = {}"

abbreviation held_elsewhere :: "issuing \<Rightarrow> nat \<Rightarrow> uuid \<Rightarrow> bool" where
  "held_elsewhere s k i \<equiv> \<exists>l. l \<noteq> k \<and> i \<in> held (issues s l)"

definition seen_by :: "ShortCodeInsertRequest list \<Rightarrow> issuing \<Rightarrow> nat \<Rightarrow> dao_short_code list" where
  "seen_by rqs s k = clear_rows (rqs ! k) (held (issues s k)) (committed s)"

definition to_insert :: "ShortCodeInsertRequest \<Rightarrow> issue_session \<Rightarrow> bool" where
  "to_insert rq x \<longleftrightarrow> (\<exists>ids. x = (if si_Override rq then IsCleared ids else IsChecked ids))"

abbreviation becomes :: "issuing \<Rightarrow> nat \<Rightarrow> issue_session \<Rightarrow> issuing" where
  "becomes s k x \<equiv> s\<lparr>issues := (issues s)(k := x)\<rparr>"

text \<open>
  The steps of session \<open>k\<close>, whose request is \<open>rqs ! k\<close>: \<open>UPDATE\<close> starts on the committed rows that match; it
  locks the next of them once nobody else holds it, and marks it if it still matches; the count of
  \<open>checkConflicts\<close> on what the transaction sees, whose clock may be any; the insert, which the indexes let in,
  or which they refuse for a committed row; the commit, which makes the marks and the row visible; and giving
  up, with a rollback, for whatever reason. A redemption may retire a row that nobody holds.
\<close>

inductive issue_step :: "ShortCodeInsertRequest list \<Rightarrow> issuing \<Rightarrow> issuing \<Rightarrow> bool" for rqs where
  start: "issues s k = NotStarted \<Longrightarrow> k < length rqs \<Longrightarrow>
    issue_step rqs s (becomes s k (Clearing clock (map s_id (filter (clear_match (rqs ! k) clock) (committed s))) {}))"
| lock: "issues s k = Clearing clock (i # todo) ids \<Longrightarrow> \<not> held_elsewhere s k i \<Longrightarrow>
    issue_step rqs s (becomes s k (Clearing clock todo
      (if \<exists>r\<in>set (committed s). s_id r = i \<and> clear_match (rqs ! k) clock r then insert i ids else ids)))"
| cleared: "issues s k = Clearing clock [] ids \<Longrightarrow> issue_step rqs s (becomes s k (IsCleared ids))"
| check: "issues s k = IsCleared ids \<Longrightarrow> \<not> si_Override (rqs ! k) \<Longrightarrow>
    sql_checkConflict (si_Target (rqs ! k)) (si_Usage (rqs ! k)) clock
      \<lparr>credentials = [], short_codes = seen_by rqs s k\<rparr> = (Inr n, d) \<Longrightarrow>
    issue_step rqs s (becomes s k (if n = 1 then Lost else IsChecked ids))"
| insert: "to_insert (rqs ! k) (issues s k) \<Longrightarrow>
    insert_code (new_code (rqs ! k)) (seen_by rqs s k) = Inr rs \<Longrightarrow>
    (\<nexists>l ids. l \<noteq> k \<and> issues s l = IsInserted ids \<and>
       (pair_for (rqs ! l) = pair_for (rqs ! k) \<or> si_ID (rqs ! l) = si_ID (rqs ! k))) \<Longrightarrow>
    issue_step rqs s (becomes s k (IsInserted (held (issues s k))))"
| violation: "to_insert (rqs ! k) (issues s k) \<Longrightarrow> r \<in> set (seen_by rqs s k) \<Longrightarrow>
    s_id r = si_ID (rqs ! k) \<or> live r \<and> pair_of r = pair_for (rqs ! k) \<and> \<not> held_elsewhere s k (s_id r) \<Longrightarrow>
    issue_step rqs s (becomes s k Lost)"
| commit: "issues s k = IsInserted ids \<Longrightarrow>
    issue_step rqs s (s\<lparr>committed := seen_by rqs s k @ [new_code (rqs ! k)], issues := (issues s)(k := Issued)\<rparr>)"
| fail: "issues s k \<noteq> Issued \<Longrightarrow> issues s k \<noteq> Lost \<Longrightarrow> k < length rqs \<Longrightarrow> issue_step rqs s (becomes s k Failed)"
| redeemed: "(\<forall>k. i \<notin> held (issues s k)) \<Longrightarrow>
    issue_step rqs s (s\<lparr>committed := retire_code i clock at c (committed s)\<rparr>)"

abbreviation issue_reaches :: "ShortCodeInsertRequest list \<Rightarrow> issuing \<Rightarrow> issuing \<Rightarrow> bool" where
  "issue_reaches rqs \<equiv> (issue_step rqs)\<^sup>*\<^sup>*"

definition idle_issues :: "dao_short_code list \<Rightarrow> issuing" where
  "idle_issues rs = \<lparr>committed = rs, issues = (\<lambda>_. NotStarted)\<rparr>"

section \<open>Rows that are marked\<close>

lemma clear_rows_where: "\<exists>at c. clear_rows rq ids rs = delete_where (\<lambda>r. s_id r \<in> ids) at c rs"
  by (auto simp: clear_rows_def)

lemma clear_rows_ids [simp]: "map s_id (clear_rows rq ids rs) = map s_id rs"
  using clear_rows_where [of rq ids rs] by auto

lemma clear_rows_id_set [simp]: "s_id ` set (clear_rows rq ids rs) = s_id ` set rs"
  using arg_cong [OF clear_rows_ids, of set rq ids rs] by (simp only: set_map)

lemma clear_rows_ok: "codes_ok rs \<Longrightarrow> codes_ok (clear_rows rq ids rs)"
  using clear_rows_where [of rq ids rs] by (auto simp: delete_where_ok)

lemma clear_rows_live: "filter live (clear_rows rq ids rs) = filter (\<lambda>r. live r \<and> s_id r \<notin> ids) rs"
  using clear_rows_where [of rq ids rs] by (auto simp: live_delete)

lemma live_in_clear_rows: "r \<in> set (clear_rows rq ids rs) \<and> live r \<longleftrightarrow> r \<in> set rs \<and> live r \<and> s_id r \<notin> ids"
  using arg_cong [OF clear_rows_live, of set, of rq ids rs] by auto

lemma live_clear_rowsD: "r \<in> set (clear_rows rq ids rs) \<Longrightarrow> live r \<Longrightarrow> r \<in> set rs \<and> s_id r \<notin> ids"
  using live_in_clear_rows by blast

lemma delete_mark_code [simp]: "s_code (delete_mark at c r) = s_code r"
  by (simp add: delete_mark_def)

text \<open>What deleting keeps of a row: its identifier, its pair and its code.\<close>

lemma delete_where_row:
  "r \<in> set (delete_where P at c rs) \<Longrightarrow> \<exists>q\<in>set rs. s_id q = s_id r \<and> pair_of q = pair_of r \<and> s_code q = s_code r"
  "q \<in> set rs \<Longrightarrow> \<exists>r\<in>set (delete_where P at c rs). s_id r = s_id q \<and> pair_of r = pair_of q \<and> s_code r = s_code q"
proof -
  let ?f = "\<lambda>r. if P r then delete_mark at c r else r"
  have f: "s_id (?f q) = s_id q \<and> pair_of (?f q) = pair_of q \<and> s_code (?f q) = s_code q" for q by simp
  have rows: "set (delete_where P at c rs) = ?f ` set rs" by (simp only: delete_where_def set_map)
  show "\<exists>q\<in>set rs. s_id q = s_id r \<and> pair_of q = pair_of r \<and> s_code q = s_code r" if r: "r \<in> set (delete_where P at c rs)"
  proof -
    from r obtain q where "q \<in> set rs" "r = ?f q" unfolding rows by blast
    then show ?thesis using f [of q] by metis
  qed
  show "\<exists>r\<in>set (delete_where P at c rs). s_id r = s_id q \<and> pair_of r = pair_of q \<and> s_code r = s_code q" if "q \<in> set rs"
    using f [of q] that unfolding rows by blast
qed

lemma clear_rows_row:
  "r \<in> set (clear_rows rq ids rs) \<Longrightarrow> \<exists>q\<in>set rs. s_id q = s_id r \<and> pair_of q = pair_of r \<and> s_code q = s_code r"
  "q \<in> set rs \<Longrightarrow> \<exists>r\<in>set (clear_rows rq ids rs). s_id r = s_id q \<and> pair_of r = pair_of q \<and> s_code r = s_code q"
  using clear_rows_where [of rq ids rs] delete_where_row by fastforce+

text \<open>When the index lets a row in that was cleared for.\<close>

definition can_insert :: "ShortCodeInsertRequest \<Rightarrow> uuid set \<Rightarrow> dao_short_code list \<Rightarrow> bool" where
  "can_insert rq ids rs \<longleftrightarrow> si_ID rq \<notin> s_id ` set rs \<and>
     (\<forall>r\<in>set rs. live r \<longrightarrow> pair_of r = pair_for rq \<longrightarrow> s_id r \<in> ids)"

lemma insert_cleared: "insert_code (new_code rq) (clear_rows rq ids rs) = Inr xs \<longleftrightarrow>
    can_insert rq ids rs \<and> xs = clear_rows rq ids rs @ [new_code rq]"
  unfolding insert_code_Inr can_insert_def clear_rows_ids clear_rows_live by (auto simp: image_iff)

section \<open>The invariant\<close>

text \<open>
  The constraints hold; a row is locked by one session; of sessions with the same key one has inserted, and
  its row still fits; rows are the old ones or those of finished sessions, whose rows stay. While a session
  that overrides runs, every live code of its pair is one it is about to clear or was issued since; so one
  that lost has lost to a session that issued.
\<close>

fun running :: "issue_session \<Rightarrow> bool" where
  "running (Clearing clock todo ids) = True"
| "running (IsCleared ids) = True"
| "running (IsChecked ids) = True"
| "running (IsInserted ids) = True"
| "running _ = False"

fun covered :: "issue_session \<Rightarrow> uuid set" where
  "covered (Clearing clock todo ids) = set todo \<union> ids"
| "covered x = held x"

definition distinct_requests :: "dao_short_code list \<Rightarrow> ShortCodeInsertRequest list \<Rightarrow> bool" where
  "distinct_requests rs rqs \<longleftrightarrow> distinct (map si_ID rqs) \<and> set (map si_ID rqs) \<inter> set (map s_id rs) = {}"

lemma distinct_requestsD:
  assumes "distinct_requests rs rqs" "k < length rqs"
  shows "si_ID (rqs ! k) \<notin> s_id ` set rs" "l < length rqs \<Longrightarrow> si_ID (rqs ! k) = si_ID (rqs ! l) \<Longrightarrow> k = l"
  using assms by (auto simp: distinct_requests_def distinct_conv_nth disjoint_iff)

definition issued_by :: "ShortCodeInsertRequest list \<Rightarrow> issuing \<Rightarrow> dao_short_code \<Rightarrow> bool" where
  "issued_by rqs s r \<longleftrightarrow> (\<exists>l. issues s l = Issued \<and> si_ID (rqs ! l) = s_id r \<and> pair_for (rqs ! l) = pair_of r)"

definition table_ok :: "ShortCodeInsertRequest list \<Rightarrow> issuing \<Rightarrow> bool" where
  "table_ok rqs s \<longleftrightarrow> codes_ok (committed s) \<and>
     (\<forall>k l i. i \<in> held (issues s k) \<longrightarrow> i \<in> held (issues s l) \<longrightarrow> k = l) \<and>
     (\<forall>k ids. issues s k = IsInserted ids \<longrightarrow> can_insert (rqs ! k) ids (committed s)) \<and>
     (\<forall>k l ids ids'. issues s k = IsInserted ids \<longrightarrow> issues s l = IsInserted ids' \<longrightarrow>
        pair_for (rqs ! k) = pair_for (rqs ! l) \<or> si_ID (rqs ! k) = si_ID (rqs ! l) \<longrightarrow> k = l)"

definition winners_ok :: "dao_short_code list \<Rightarrow> ShortCodeInsertRequest list \<Rightarrow> issuing \<Rightarrow> bool" where
  "winners_ok rs rqs s \<longleftrightarrow> distinct_requests rs rqs \<and> (\<forall>k. issues s k \<noteq> NotStarted \<longrightarrow> k < length rqs) \<and>
     (\<forall>r\<in>set (committed s). s_id r \<in> s_id ` set rs \<or> issued_by rqs s r) \<and>
     (\<forall>k. issues s k = Issued \<longrightarrow>
        (\<exists>r\<in>set (committed s). s_id r = si_ID (rqs ! k) \<and> pair_of r = pair_for (rqs ! k) \<and> s_code r = si_Code (rqs ! k))) \<and>
     (\<forall>k. si_Override (rqs ! k) \<longrightarrow> running (issues s k) \<longrightarrow>
        (\<forall>r\<in>set (committed s). live r \<longrightarrow> pair_of r = pair_for (rqs ! k) \<longrightarrow>
           s_id r \<in> covered (issues s k) \<or> issued_by rqs s r)) \<and>
     (\<forall>k. si_Override (rqs ! k) \<longrightarrow> issues s k = Lost \<longrightarrow>
        (\<exists>l. l \<noteq> k \<and> issues s l = Issued \<and> pair_for (rqs ! l) = pair_for (rqs ! k)))"

lemma idle_issues_ok:
  assumes "codes_ok rs"
  shows "table_ok rqs (idle_issues rs)" "distinct_requests rs rqs \<Longrightarrow> winners_ok rs rqs (idle_issues rs)"
  using assms by (simp_all add: table_ok_def winners_ok_def idle_issues_def)

text \<open>A session that moves without a commit.\<close>

lemma issuing_moves:
  assumes "table_ok rqs s" "\<And>i. i \<in> held x \<Longrightarrow> i \<in> held (issues s k) \<or> \<not> held_elsewhere s k i"
    "\<And>ids. x = IsInserted ids \<Longrightarrow> can_insert (rqs ! k) ids (committed s) \<and>
      (\<nexists>l ids. l \<noteq> k \<and> issues s l = IsInserted ids \<and> (pair_for (rqs ! l) = pair_for (rqs ! k) \<or> si_ID (rqs ! l) = si_ID (rqs ! k)))"
  shows "table_ok rqs (becomes s k x)"
proof -
  have held: "i \<in> held x \<Longrightarrow> i \<in> held (issues s l) \<Longrightarrow> l = k" for i l
    using assms(1,2) unfolding table_ok_def by blast
  have ins: "issues s l = IsInserted ids \<Longrightarrow> x = IsInserted ids' \<Longrightarrow>
      pair_for (rqs ! k) = pair_for (rqs ! l) \<or> si_ID (rqs ! k) = si_ID (rqs ! l) \<Longrightarrow> l = k" for l ids ids'
    using assms(3) by metis
  show ?thesis
    using assms(1,3) held ins unfolding table_ok_def by (auto split: if_splits)
qed

lemma table_step:
  assumes "issue_step rqs s t" "table_ok rqs s"
  shows "table_ok rqs t"
  using assms(1)
proof cases
  case (start k clock)
  then show ?thesis using assms(2) by (auto intro: issuing_moves)
next
  case (lock k clock i todo ids)
  then show ?thesis using assms(2) by (auto intro!: issuing_moves split: if_splits)
next
  case (cleared k clock ids)
  then show ?thesis using assms(2) by (auto intro: issuing_moves)
next
  case (check k ids clock n d)
  then show ?thesis using assms(2) by (auto intro!: issuing_moves split: if_splits)
next
  case (insert k rs)
  have "can_insert (rqs ! k) (held (issues s k)) (committed s)"
    using insert(3) unfolding seen_by_def insert_cleared by simp
  then show ?thesis unfolding insert(1) using insert(4) by (intro issuing_moves [OF assms(2)]) auto
next
  case (violation k r)
  then show ?thesis using assms(2) by (auto intro: issuing_moves)
next
  case (commit k ids)
  let ?rows = "seen_by rqs s k" and ?new = "new_code (rqs ! k)"
  have seen: "?rows = clear_rows (rqs ! k) ids (committed s)" using commit(2) by (simp add: seen_by_def)
  have "can_insert (rqs ! k) ids (committed s)" using assms(2) commit(2) by (simp add: table_ok_def)
  then have "insert_code ?new ?rows = Inr (?rows @ [?new])" unfolding seen insert_cleared by simp
  then have ok: "codes_ok (?rows @ [?new])"
    using clear_rows_ok assms(2) unfolding seen table_ok_def by (metis insert_code_ok)
  have "can_insert (rqs ! l) ids' (?rows @ [?new])" if l: "l \<noteq> k" "issues s l = IsInserted ids'" for l ids'
  proof -
    have c: "can_insert (rqs ! l) ids' (committed s)" using assms(2) l(2) by (simp add: table_ok_def)
    have "\<not> (pair_for (rqs ! k) = pair_for (rqs ! l) \<or> si_ID (rqs ! k) = si_ID (rqs ! l))"
      using assms(2) l commit(2) unfolding table_ok_def by metis
    then have "pair_of ?new \<noteq> pair_for (rqs ! l)" "s_id ?new \<noteq> si_ID (rqs ! l)" by simp_all
    with c show ?thesis unfolding can_insert_def seen by (auto dest: live_clear_rowsD)
  qed
  then show ?thesis using assms(2) ok unfolding commit(1) table_ok_def by (auto split: if_splits)
next
  case (fail k)
  then show ?thesis using assms(2) by (auto intro: issuing_moves)
next
  case (redeemed i clock at c)
  have live: "r \<in> set (committed s)" if "r \<in> set (retire_code i clock at c (committed s))" "live r" for r
    using that arg_cong [OF live_delete, of set] unfolding retire_code_def by fastforce
  have "s_id ` set (retire_code i clock at c (committed s)) = s_id ` set (committed s)"
    unfolding retire_code_def by (metis map_id_delete set_map)
  then have "can_insert (rqs ! l) ids (committed t)" if "can_insert (rqs ! l) ids (committed s)" for l ids
    using that live unfolding redeemed(1) can_insert_def by auto
  then show ?thesis using assms(2) unfolding redeemed(1) table_ok_def by (auto simp: codes.retire_invar)
qed

lemma issued_by_step:
  assumes "issue_step rqs s t" "issued_by rqs s r"
  shows "issued_by rqs t r"
  using assms by cases (auto simp: issued_by_def to_insert_def split: if_splits; metis issue_session.distinct)+

text \<open>The clauses of the second invariant for one session that moves, the rows as they are.\<close>

lemma winner_moves:
  assumes "winners_ok rs rqs s" "issues s k \<noteq> Issued" "x \<noteq> Issued" "k < length rqs"
    "\<And>r. si_Override (rqs ! k) \<Longrightarrow> running x \<Longrightarrow> r \<in> set (committed s) \<Longrightarrow> live r \<Longrightarrow> pair_of r = pair_for (rqs ! k) \<Longrightarrow>
      s_id r \<in> covered x \<or> running (issues s k) \<and> s_id r \<notin> covered (issues s k)"
    "si_Override (rqs ! k) \<Longrightarrow> x = Lost \<Longrightarrow> \<exists>l. l \<noteq> k \<and> issues s l = Issued \<and> pair_for (rqs ! l) = pair_for (rqs ! k)"
  shows "winners_ok rs rqs (becomes s k x)"
proof -
  have iss: "issued_by rqs (becomes s k x) r \<longleftrightarrow> issued_by rqs s r" for r
    using assms(2,3) by (auto simp: issued_by_def)
  have own: "s_id r \<in> covered x \<or> issued_by rqs s r" if "si_Override (rqs ! k)" "running x" "r \<in> set (committed s)" "live r"
    "pair_of r = pair_for (rqs ! k)" for r
    using assms(5) [OF that] assms(1) that unfolding winners_ok_def by blast
  have lost: "\<exists>j. j \<noteq> l \<and> issues (becomes s k x) j = Issued \<and> pair_for (rqs ! j) = pair_for (rqs ! l)"
    if o: "si_Override (rqs ! l)" and l: "issues (becomes s k x) l = Lost" for l
  proof (cases "l = k")
    case True
    then show ?thesis using assms(6) o l by auto
  next
    case False
    then have "issues s l = Lost" using l by simp
    then obtain j where "j \<noteq> l" "issues s j = Issued" "pair_for (rqs ! j) = pair_for (rqs ! l)"
      using assms(1) o unfolding winners_ok_def by blast
    moreover from this have "j \<noteq> k" using assms(2) by blast
    ultimately show ?thesis by auto
  qed
  have "winners_ok rs rqs (becomes s k x) \<longleftrightarrow> distinct_requests rs rqs \<and>
     (\<forall>l. issues (becomes s k x) l \<noteq> NotStarted \<longrightarrow> l < length rqs) \<and>
     (\<forall>r\<in>set (committed s). s_id r \<in> s_id ` set rs \<or> issued_by rqs s r) \<and>
     (\<forall>l. issues (becomes s k x) l = Issued \<longrightarrow>
        (\<exists>r\<in>set (committed s). s_id r = si_ID (rqs ! l) \<and> pair_of r = pair_for (rqs ! l) \<and> s_code r = si_Code (rqs ! l))) \<and>
     (\<forall>l. si_Override (rqs ! l) \<longrightarrow> running (issues (becomes s k x) l) \<longrightarrow>
        (\<forall>r\<in>set (committed s). live r \<longrightarrow> pair_of r = pair_for (rqs ! l) \<longrightarrow>
           s_id r \<in> covered (issues (becomes s k x) l) \<or> issued_by rqs s r))"
    unfolding winners_ok_def iss using lost by auto
  then show ?thesis using assms(1,3,4) own unfolding winners_ok_def by (auto split: if_splits)
qed

lemma winners_step:
  assumes "issue_step rqs s t" "winners_ok rs rqs s"
  shows "winners_ok rs rqs t"
proof -
  have len: "k < length rqs" if "issues s k \<noteq> NotStarted" for k
    using assms(2) that unfolding winners_ok_def by blast
  show ?thesis
    using assms(1)
  proof cases
    case (start k clock)
    have "clear_match (rqs ! k) clock r" if "si_Override (rqs ! k)" "live r" "pair_of r = pair_for (rqs ! k)" for r
      using that by (simp add: clear_match_def conflict_match_def undeleted_at_def live_def)
    then show ?thesis unfolding start(1) using start(2,3) by (intro winner_moves [OF assms(2)]) auto
  next
    case (lock k clock i todo ids)
    have "clear_match (rqs ! k) clock r" if "si_Override (rqs ! k)" "live r" "pair_of r = pair_for (rqs ! k)" for r
      using that by (simp add: clear_match_def conflict_match_def undeleted_at_def live_def)
    then show ?thesis unfolding lock(1) using lock(2) len [of k] by (intro winner_moves [OF assms(2)]) auto
  next
    case (cleared k clock ids)
    then show ?thesis using len [of k] by (auto intro!: winner_moves [OF assms(2)])
  next
    case (check k ids clock n d)
    then show ?thesis using len [of k] by (auto intro!: winner_moves [OF assms(2)] split: if_splits)
  next
    case (insert k rows)
    then show ?thesis using len [of k] by (auto intro!: winner_moves [OF assms(2)] simp: to_insert_def split: if_splits)
  next
    case (violation k r)
    obtain q where q: "q \<in> set (committed s)" "s_id q = s_id r" "pair_of q = pair_of r"
      using clear_rows_row(1) violation(3) unfolding seen_by_def by metis
    have other: "l \<noteq> k" if "issues s l = Issued" for l
      using violation(2) that by (auto simp: to_insert_def split: if_splits)
    have started: "issues s k \<noteq> NotStarted" using violation(2) by (auto simp: to_insert_def split: if_splits)
    have fresh: "si_ID (rqs ! k) \<noteq> s_id q"
    proof
      assume "si_ID (rqs ! k) = s_id q"
      then have "issued_by rqs s q"
        using assms(2) q(1) distinct_requestsD(1) [OF _ len [OF started]] unfolding winners_ok_def by (metis imageI)
      then obtain l where "issues s l = Issued" "si_ID (rqs ! l) = si_ID (rqs ! k)"
        using \<open>si_ID (rqs ! k) = s_id q\<close> by (auto simp: issued_by_def)
      moreover from this have "l < length rqs" by (intro len) simp
      ultimately show False
        using other assms(2) distinct_requestsD(2) [OF _ len [OF started], of rs l] unfolding winners_ok_def by metis
    qed
    have lost: "\<exists>l. l \<noteq> k \<and> issues s l = Issued \<and> pair_for (rqs ! l) = pair_for (rqs ! k)" if o: "si_Override (rqs ! k)"
    proof -
      have r: "live r" "pair_of r = pair_for (rqs ! k)" using violation(4) fresh q(2) by auto
      have "r \<in> set (committed s)" "s_id r \<notin> held (issues s k)"
        using live_clear_rowsD [OF _ r(1)] violation(3) unfolding seen_by_def by blast+
      moreover have "running (issues s k)" "covered (issues s k) = held (issues s k)"
        using violation(2) by (auto simp: to_insert_def split: if_splits)
      ultimately have "issued_by rqs s r" using assms(2) o r unfolding winners_ok_def by metis
      then show ?thesis using other r(2) by (auto simp: issued_by_def)
    qed
    have "issues s k \<noteq> Issued" using other by blast
    then show ?thesis unfolding violation(1) using lost len [OF started] by (intro winner_moves [OF assms(2)]) auto
  next
    case (commit k ids)
    let ?new = "new_code (rqs ! k)"
    have c: "committed t = clear_rows (rqs ! k) ids (committed s) @ [?new]" using commit by (simp add: seen_by_def)
    have iss: "issues t = (issues s)(k := Issued)" using commit by simp
    have new: "issued_by rqs t ?new" by (auto simp: issued_by_def iss)
    have old: "issued_by rqs t r" if "issued_by rqs s r" for r using issued_by_step [OF assms(1) that] .
    have same: "issued_by rqs t q \<longleftrightarrow> issued_by rqs t r" if "s_id q = s_id r" "pair_of q = pair_of r" for q r
      using that by (simp add: issued_by_def)
    have w: "distinct_requests rs rqs"
      "\<And>r. r \<in> set (committed s) \<Longrightarrow> s_id r \<in> s_id ` set rs \<or> issued_by rqs s r"
      "\<And>l. issues s l = Issued \<Longrightarrow>
        \<exists>r\<in>set (committed s). s_id r = si_ID (rqs ! l) \<and> pair_of r = pair_for (rqs ! l) \<and> s_code r = si_Code (rqs ! l)"
      "\<And>l r. si_Override (rqs ! l) \<Longrightarrow> running (issues s l) \<Longrightarrow> r \<in> set (committed s) \<Longrightarrow> live r \<Longrightarrow> pair_of r = pair_for (rqs ! l) \<Longrightarrow>
        s_id r \<in> covered (issues s l) \<or> issued_by rqs s r"
      "\<And>l. si_Override (rqs ! l) \<Longrightarrow> issues s l = Lost \<Longrightarrow> \<exists>j. j \<noteq> l \<and> issues s j = Issued \<and> pair_for (rqs ! j) = pair_for (rqs ! l)"
      using assms(2) unfolding winners_ok_def by blast+
    have "s_id r \<in> s_id ` set rs \<or> issued_by rqs t r" if "r \<in> set (committed t)" for r
    proof (cases "r = ?new")
      case False
      then have "r \<in> set (clear_rows (rqs ! k) ids (committed s))" using that unfolding c by simp
      then obtain q where "q \<in> set (committed s)" "s_id q = s_id r" "pair_of q = pair_of r"
        using clear_rows_row(1) by metis
      then show ?thesis using w(2) old same by metis
    qed (use new in simp)
    moreover have "\<exists>r\<in>set (committed t). s_id r = si_ID (rqs ! l) \<and> pair_of r = pair_for (rqs ! l) \<and> s_code r = si_Code (rqs ! l)"
      if l: "issues t l = Issued" for l
    proof (cases "l = k")
      case False
      then have "issues s l = Issued" using l unfolding iss by simp
      then obtain q where "q \<in> set (committed s)" "s_id q = si_ID (rqs ! l)" "pair_of q = pair_for (rqs ! l)"
        "s_code q = si_Code (rqs ! l)" using w(3) [of l] by blast
      then show ?thesis using clear_rows_row(2) [of q] unfolding c by (metis Un_iff set_append)
    qed (simp add: c)
    moreover have "s_id r \<in> covered (issues t l) \<or> issued_by rqs t r" if "si_Override (rqs ! l)" "running (issues t l)"
      "r \<in> set (committed t)" "live r" "pair_of r = pair_for (rqs ! l)" for l r
    proof (cases "r = ?new")
      case False
      then have "r \<in> set (committed s)" using that(3,4) unfolding c by (auto dest: live_clear_rowsD)
      moreover have "l \<noteq> k" using that(2) iss by auto
      ultimately show ?thesis using w(4) [of l r] that old iss by auto
    qed (use new in simp)
    moreover have "\<exists>j. j \<noteq> l \<and> issues t j = Issued \<and> pair_for (rqs ! j) = pair_for (rqs ! l)"
      if o: "si_Override (rqs ! l)" and l: "issues t l = Lost" for l
    proof -
      have "issues s l = Lost" using l unfolding iss by (cases "l = k") simp_all
      then obtain j where "j \<noteq> l" "issues s j = Issued" "pair_for (rqs ! j) = pair_for (rqs ! l)" using w(5) o by blast
      then show ?thesis by (intro exI [of _ j]) (simp add: iss)
    qed
    moreover have "l < length rqs" if "issues t l \<noteq> NotStarted" for l
      using that len [of l] len [of k] commit(2) unfolding iss by (auto split: if_splits)
    ultimately show ?thesis using w(1) unfolding winners_ok_def by blast
  next
    case (fail k)
    then show ?thesis by (auto intro!: winner_moves [OF assms(2)])
  next
    case (redeemed i clock at c)
    have live: "r \<in> set (committed s)" if "r \<in> set (committed t)" "live r" for r
      using that arg_cong [OF live_delete, of set] unfolding redeemed(1) retire_code_def by fastforce
    have iss: "issued_by rqs t = issued_by rqs s" by (simp add: fun_eq_iff issued_by_def redeemed(1))
    have rows: "r \<in> set (committed t) \<Longrightarrow> \<exists>q\<in>set (committed s). s_id q = s_id r \<and> pair_of q = pair_of r"
      "q \<in> set (committed s) \<Longrightarrow> \<exists>r\<in>set (committed t). s_id r = s_id q \<and> pair_of r = pair_of q \<and> s_code r = s_code q" for q r
      unfolding redeemed(1) retire_code_def using delete_where_row by fastforce+
    have same: "issued_by rqs s q \<longleftrightarrow> issued_by rqs s r" if "s_id q = s_id r" "pair_of q = pair_of r" for q r
      using that by (simp add: issued_by_def)
    have "s_id r \<in> s_id ` set rs \<or> issued_by rqs s r" if "r \<in> set (committed t)" for r
      using rows(1) [OF that] same assms(2) unfolding winners_ok_def by metis
    moreover have "\<exists>r\<in>set (committed t). s_id r = si_ID (rqs ! l) \<and> pair_of r = pair_for (rqs ! l) \<and> s_code r = si_Code (rqs ! l)"
      if "issues s l = Issued" for l
      using assms(2) that rows(2) unfolding winners_ok_def by metis
    moreover have "issues t = issues s" by (simp add: redeemed(1))
    ultimately show ?thesis using assms(2) live unfolding winners_ok_def iss by simp
  qed
qed

section \<open>One session alone is the service\<close>

lemma clear_rows_all:
  assumes "codes_ok rs"
  shows "clear_rows rq {i. \<exists>r\<in>set rs. s_id r = i \<and> clear_match rq clock r} rs = cleared rq clock rs"
proof -
  have "r = q" if "r \<in> set rs" "q \<in> set rs" "s_id r = s_id q" for r q
    using assms that unfolding codes_ok_def distinct_map inj_on_def by blast
  then have "s_id r \<in> {i. \<exists>q\<in>set rs. s_id q = i \<and> clear_match rq clock q} \<longleftrightarrow> clear_match rq clock r" if "r \<in> set rs" for r
    using that by blast
  then have c: "delete_where (\<lambda>r. s_id r \<in> {i. \<exists>q\<in>set rs. s_id q = i \<and> clear_match rq clock q}) at c rs =
      delete_where (clear_match rq clock) at c rs" for at c
    unfolding delete_where_def by (intro map_cong) simp_all
  have m: "si_Override rq \<Longrightarrow> clear_match rq clock = conflict_match (pair_for rq) clock"
    "\<not> si_Override rq \<Longrightarrow> clear_match rq clock = expired_match (pair_for rq) (si_Now rq)"
    by (simp_all add: clear_match_def fun_eq_iff)
  show ?thesis
    by (cases "si_Override rq") (simp_all only: clear_rows_def if_True if_False c, simp_all add: m cleared_def supersede_codes_def)
qed

lemma locks_run:
  assumes "issues s k = Clearing clock todo ids" "\<And>l. l \<noteq> k \<Longrightarrow> issues s l = NotStarted"
  shows "issue_reaches rqs s (becomes s k (Clearing clock []
    (ids \<union> {i \<in> set todo. \<exists>r\<in>set (committed s). s_id r = i \<and> clear_match (rqs ! k) clock r})))"
  using assms
proof (induction todo arbitrary: s ids)
  case Nil
  then have "becomes s k (Clearing clock [] (ids \<union> {i \<in> set []. \<exists>r\<in>set (committed s). s_id r = i \<and>
      clear_match (rqs ! k) clock r})) = s" by (cases s) (auto simp: fun_upd_idem)
  then show ?case by (metis rtranclp.rtrancl_refl)
next
  case (Cons i todo)
  let ?hit = "\<exists>r\<in>set (committed s). s_id r = i \<and> clear_match (rqs ! k) clock r"
  let ?t = "becomes s k (Clearing clock todo (if ?hit then insert i ids else ids))"
  have "\<not> held_elsewhere s k i" using Cons.prems(2) by auto
  then have step: "issue_step rqs s ?t" by (rule issue_step.lock [OF Cons.prems(1)])
  have com: "committed ?t = committed s" by simp
  have same: "becomes ?t k x = becomes s k x" for x by simp
  have hits: "(if ?hit then insert i ids else ids) \<union>
        {i \<in> set todo. \<exists>r\<in>set (committed s). s_id r = i \<and> clear_match (rqs ! k) clock r} =
      ids \<union> {j \<in> set (i # todo). \<exists>r\<in>set (committed s). s_id r = j \<and> clear_match (rqs ! k) clock r}"
    by auto
  have "issue_reaches rqs ?t (becomes ?t k (Clearing clock [] ((if ?hit then insert i ids else ids) \<union>
      {i \<in> set todo. \<exists>r\<in>set (committed ?t). s_id r = i \<and> clear_match (rqs ! k) clock r})))"
    by (rule Cons.IH) (use Cons.prems(2) in simp_all)
  then have "issue_reaches rqs ?t (becomes ?t k (Clearing clock [] ((if ?hit then insert i ids else ids) \<union>
      {i \<in> set todo. \<exists>r\<in>set (committed s). s_id r = i \<and> clear_match (rqs ! k) clock r})))"
    unfolding com .
  then have "issue_reaches rqs s (becomes ?t k (Clearing clock [] ((if ?hit then insert i ids else ids) \<union>
      {i \<in> set todo. \<exists>r\<in>set (committed s). s_id r = i \<and> clear_match (rqs ! k) clock r})))"
    by (rule converse_rtranclp_into_rtranclp [where r = "issue_step rqs", OF step])
  then show ?case unfolding same hits .
qed

text \<open>The clock of the check can be late enough to find nothing: the index has the last word.\<close>

lemma late_check: "\<exists>clock. sql_checkConflict t u clock d = (Inr 0, d)"
proof -
  have "\<exists>c. \<forall>r\<in>set rs. s_expires_at r \<le> c" for rs
    by (induction rs) (simp, metis linear order_trans set_ConsD)
  then obtain clock where "\<forall>r\<in>set (short_codes d). s_expires_at r \<le> clock" by blast
  then have "\<not> (conflict_match (t, u) clock r \<and> clock < s_expires_at r)" if "r \<in> set (short_codes d)" for r
    using that by (auto simp: not_less)
  then show ?thesis unfolding sql_checkConflict_def by (metis (no_types, lifting) filter_False list.size(3))
qed

lemma insert_is_a_run:
  assumes "codes_ok rs" "insert_code (new_code (rqs ! k)) (cleared (rqs ! k) clock rs) = Inr rs'" "k < length rqs"
  shows "\<exists>s. issue_reaches rqs (idle_issues rs) s \<and> issues s k = Issued \<and> committed s = rs'"
proof -
  let ?rq = "rqs ! k" and ?m = "clear_match (rqs ! k) clock"
  let ?ids = "{i. \<exists>r\<in>set rs. s_id r = i \<and> ?m r}"
  let ?s0 = "idle_issues rs"
  let ?s1 = "becomes ?s0 k (Clearing clock (map s_id (filter ?m rs)) {})"
  let ?s2 = "becomes ?s1 k (Clearing clock [] ?ids)"
  let ?s3 = "becomes ?s2 k (IsCleared ?ids)"
  have sel: "committed ?s0 = rs" "issues ?s0 l = NotStarted" for l by (simp_all add: idle_issues_def)
  have "issue_step rqs ?s0 ?s1" using issue_step.start [of ?s0 k rqs clock] assms(3) sel by simp
  moreover have "issue_reaches rqs ?s1 ?s2"
  proof -
    have "{i \<in> set (map s_id (filter ?m rs)). \<exists>r\<in>set rs. s_id r = i \<and> ?m r} = ?ids" by auto
    then show ?thesis using locks_run [of ?s1 k clock "map s_id (filter ?m rs)" "{}" rqs] sel by simp
  qed
  moreover have "issue_step rqs ?s2 ?s3" using issue_step.cleared [of ?s2 k clock ?ids rqs] by simp
  ultimately have r3: "issue_reaches rqs ?s0 ?s3" by (meson rtranclp.rtrancl_into_rtrancl converse_rtranclp_into_rtranclp)
  obtain x where x: "issue_reaches rqs ?s3 (becomes ?s3 k x)" "to_insert ?rq x" "held x = ?ids"
  proof (cases "si_Override ?rq")
    case True
    then show thesis using that [of "IsCleared ?ids"] by (simp add: to_insert_def)
  next
    case False
    obtain c where "sql_checkConflict (si_Target ?rq) (si_Usage ?rq) c
        \<lparr>credentials = [], short_codes = seen_by rqs ?s3 k\<rparr> = (Inr 0, \<lparr>credentials = [], short_codes = seen_by rqs ?s3 k\<rparr>)"
      using late_check by blast
    then have "issue_step rqs ?s3 (becomes ?s3 k (IsChecked ?ids))"
      using issue_step.check [of ?s3 k ?ids rqs c 0] False by simp
    then have "issue_reaches rqs ?s3 (becomes ?s3 k (IsChecked ?ids))" by (rule r_into_rtranclp)
    then show thesis by (rule that) (use False in \<open>simp_all add: to_insert_def\<close>)
  qed
  let ?s4 = "becomes ?s3 k x"
  let ?s5 = "becomes ?s4 k (IsInserted ?ids)"
  let ?s6 = "?s5\<lparr>committed := seen_by rqs ?s5 k @ [new_code ?rq], issues := (issues ?s5)(k := Issued)\<rparr>"
  have seen: "seen_by rqs ?s4 k = cleared ?rq clock rs" "seen_by rqs ?s5 k = cleared ?rq clock rs"
    using x(3) clear_rows_all [OF assms(1)] sel by (simp_all add: seen_by_def)
  have "issue_step rqs ?s4 (becomes ?s4 k (IsInserted (held (issues ?s4 k))))"
    by (rule issue_step.insert [where rs = rs']) (use x(2) assms(2) seen sel in auto)
  then have "issue_step rqs ?s4 ?s5" using x(3) by simp
  moreover have "issue_step rqs ?s5 ?s6" using issue_step.commit [of ?s5 k ?ids rqs] by simp
  ultimately have "issue_reaches rqs ?s0 ?s6" using r3 x(1) by (meson rtranclp.rtrancl_into_rtrancl rtranclp_trans)
  moreover have "rs' = cleared ?rq clock rs @ [new_code ?rq]" using assms(2) unfolding insert_code_Inr by simp
  ultimately show ?thesis using seen(2) by (intro exI [of _ ?s6]) simp
qed

section \<open>Every run\<close>

interpretation issue_tables: preserved "issue_step rqs" "table_ok rqs" for rqs
  by unfold_locales (rule table_step)

interpretation issue_winners: preserved "issue_step rqs" "winners_ok rs rqs" for rs rqs
  by unfold_locales (rule winners_step)

lemma issued_ok:
  assumes "codes_ok rs" "issue_reaches rqs (idle_issues rs) s"
  shows "table_ok rqs s" "distinct_requests rs rqs \<Longrightarrow> winners_ok rs rqs s"
  using issue_tables.reached [OF assms(2)] issue_winners.reached [OF assms(2)] idle_issues_ok [OF assms(1)] by blast+

end
