(* ===== verification/RoleUpdates.thy ===== *)
theory RoleUpdates
  imports Reachability
begin

text \<open>
  Role updates that overlap. \<open>CredentialsUpdateRole.Exec\<close> reads the target, reads the actor, decides, and
  writes, with four calls that share no transaction and take no lock, so the rows it decided on may have
  changed when it writes. Here the statements of any number of role updates interleave with each other and
  with the other changes of the table.
\<close>

section \<open>Sessions\<close>

datatype update_session =
    Idle
  | TargetRead dao_credentials
  | BothRead dao_credentials dao_credentials
  | Written dao_credentials
  | Unchanged dao_credentials
  | Refused

record role_state =
  accounts_now :: "dao_credentials list"
  updates :: "nat \<Rightarrow> update_session"

abbreviation table_db :: "role_state \<Rightarrow> db" where
  "table_db s \<equiv> \<lparr>credentials = accounts_now s, short_codes = []\<rparr>"

text \<open>
  The steps of session \<open>k\<close>, whose request is \<open>rqs k\<close>: the read of the target after the validation and the
  self-update guard, the read of the actor, then the decision on the two rows read, with the write or
  without; or giving up. Other transactions register a user or change an address or a password.
\<close>

inductive role_step ::
    "ext \<Rightarrow> (nat \<Rightarrow> CoreUpdateRoleRequest) \<Rightarrow> role_state \<Rightarrow> role_state \<Rightarrow> bool" for E rqs where
  read_target: "updates s k = Idle \<Longrightarrow> struct_valid E [(FStr (cur_Role (rqs k)), [Required, TagRole])] \<Longrightarrow>
    cur_CurrentUserID (rqs k) \<noteq> cur_TargetUserID (rqs k) \<Longrightarrow>
    sql_credentialsSelect (cur_TargetUserID (rqs k)) clock (table_db s) = (Inr (target # rs), d) \<Longrightarrow>
    role_step E rqs s (s\<lparr>updates := (updates s)(k := TargetRead target)\<rparr>)"
| read_actor: "updates s k = TargetRead target \<Longrightarrow>
    sql_credentialsSelect (cur_CurrentUserID (rqs k)) clock (table_db s) = (Inr (actor # rs), d) \<Longrightarrow>
    role_step E rqs s (s\<lparr>updates := (updates s)(k := BothRead target actor)\<rparr>)"
| write_role: "updates s k = BothRead target actor \<Longrightarrow>
    Priority PermissionsConfigDefault (cur_Role (rqs k)) = Ret n \<Longrightarrow>
    Priority PermissionsConfigDefault (c_role target) = Ret t \<Longrightarrow>
    Priority PermissionsConfigDefault (c_role actor) = Ret c \<Longrightarrow>
    role_guards (rqs k) n t c = Ret () \<Longrightarrow> n \<noteq> t \<Longrightarrow>
    sql_credentialsUpdateRole (cur_Role (rqs k)) now (cur_TargetUserID (rqs k)) clock (table_db s) = (Inr (row # rs), d) \<Longrightarrow>
    role_step E rqs s (s\<lparr>accounts_now := credentials d, updates := (updates s)(k := Written row)\<rparr>)"
| no_change: "updates s k = BothRead target actor \<Longrightarrow>
    Priority PermissionsConfigDefault (cur_Role (rqs k)) = Ret n \<Longrightarrow>
    Priority PermissionsConfigDefault (c_role target) = Ret n \<Longrightarrow>
    Priority PermissionsConfigDefault (c_role actor) = Ret c \<Longrightarrow>
    role_guards (rqs k) n n c = Ret () \<Longrightarrow>
    role_step E rqs s (s\<lparr>updates := (updates s)(k := Unchanged target)\<rparr>)"
| refuse: "updates s k \<in> {Idle, TargetRead target, BothRead target actor} \<Longrightarrow>
    role_step E rqs s (s\<lparr>updates := (updates s)(k := Refused)\<rparr>)"
| registered: "insert_row row (accounts_now s) = Inr rs \<Longrightarrow> c_role row = RoleUser \<Longrightarrow>
    role_step E rqs s (s\<lparr>accounts_now := rs\<rparr>)"
| changed: "f \<in> {set_email m now, set_password p now} \<Longrightarrow> update_table i f (accounts_now s) = Inr rs \<Longrightarrow>
    role_step E rqs s (s\<lparr>accounts_now := rs\<rparr>)"

abbreviation role_reaches ::
    "ext \<Rightarrow> (nat \<Rightarrow> CoreUpdateRoleRequest) \<Rightarrow> role_state \<Rightarrow> role_state \<Rightarrow> bool" where
  "role_reaches E rqs \<equiv> (role_step E rqs)\<^sup>*\<^sup>*"

definition idle_updates :: "dao_credentials list \<Rightarrow> role_state" where
  "idle_updates rs = \<lparr>accounts_now = rs, updates = (\<lambda>_. Idle)\<rparr>"

section \<open>What interleaving cannot break\<close>

text \<open>No row and no row read outranks \<open>m\<close>; the table keeps its constraints.\<close>

fun rows_read :: "update_session \<Rightarrow> dao_credentials set" where
  "rows_read (TargetRead t) = {t}"
| "rows_read (BothRead t a) = {t, a}"
| "rows_read _ = {}"

definition ranks_ok :: "int \<Rightarrow> role_state \<Rightarrow> bool" where
  "ranks_ok m s \<longleftrightarrow> credentials_ok (accounts_now s) \<and>
     (\<forall>r\<in>set (accounts_now s). rank (c_role r) \<le> m) \<and>
     (\<forall>k. \<forall>r\<in>rows_read (updates s k). rank (c_role r) \<le> m)"

lemma select_rows:
  assumes "sql_credentialsSelect i clock (table_db s) = (Inr (r # rs), d)"
  shows "r \<in> set (accounts_now s) \<and> c_id r = i"
proof -
  have "filter (\<lambda>r. c_id r = i) (accounts_now s) = r # rs" using assms by (simp add: sql_credentialsSelect_def)
  then have "r \<in> set (filter (\<lambda>r. c_id r = i) (accounts_now s))" by simp
  then show ?thesis by simp
qed

lemma role_written:
  assumes "sql_credentialsUpdateRole role now i clock (table_db s) = (Inr rows, d)"
  shows "update_table i (set_role role now) (accounts_now s) = Inr (credentials d)"
  using assms unfolding sql_credentialsUpdateRole_def
  by (auto simp: sql_update_def set_role_def [abs_def] split: sum.splits)

lemma update_table_keeps:
  assumes "update_table i f rs = Inr rs'" "\<And>r. c_id (f r) = c_id r" "credentials_ok rs"
    and "\<And>r. r \<in> set rs \<Longrightarrow> P r" "\<And>r. r \<in> set rs \<Longrightarrow> P r \<Longrightarrow> P (f r)"
  shows "credentials_ok rs'" "\<forall>r\<in>set rs'. P r" "map c_id rs' = map c_id rs"
proof -
  show "credentials_ok rs'" by (rule update_table_ok [OF assms(3,2,1)])
  have rs': "rs' = update_row i f rs" using assms(1) by (simp add: update_table_Inr)
  then show "\<forall>r\<in>set rs'. P r" using assms(4,5) by (auto simp: update_row_def)
  show "map c_id rs' = map c_id rs" by (simp add: rs' update_row_def assms(2))
qed

lemma role_step_ok:
  assumes "role_step E rqs s t" "ranks_ok m s" "rank RoleUser \<le> m"
  shows "ranks_ok m t \<and> set (map c_id (accounts_now s)) \<subseteq> set (map c_id (accounts_now t))"
  using assms(1)
proof cases
  case (read_target k clock target rs d)
  then show ?thesis using assms(2) select_rows [OF read_target(5)] by (simp add: ranks_ok_def)
next
  case (read_actor k target clock actor rs d)
  then have "rank (c_role target) \<le> m" using assms(2) unfolding ranks_ok_def by (metis rows_read.simps(1) singletonI)
  then show ?thesis using assms(2) select_rows [OF read_actor(3)] read_actor(1) by (simp add: ranks_ok_def)
next
  case (write_role k target actor n t c now clock row rs d)
  have actor: "rank (c_role actor) \<le> m"
    using assms(2) write_role(2) unfolding ranks_ok_def by (metis rows_read.simps(2) insertI1 insertI2)
  have "rank (cur_Role (rqs k)) \<le> rank (c_role actor)"
    using write_role(6) unfolding role_guards_Ret rank_Ret [OF write_role(3)] rank_Ret [OF write_role(5)] by auto
  with actor have new: "rank (cur_Role (rqs k)) \<le> m" by simp
  have ranks: "rank (c_role r) \<le> m" if "r \<in> set (accounts_now s)" for r
    using assms(2) that by (simp add: ranks_ok_def)
  have "credentials_ok (accounts_now s)" using assms(2) by (simp add: ranks_ok_def)
  note kept = update_table_keeps [OF role_written [OF write_role(8)] _ this, where P = "\<lambda>r. rank (c_role r) \<le> m"]
  have "credentials_ok (credentials d)" by (rule kept(1)) (use ranks new in simp_all)
  moreover have "\<forall>r\<in>set (credentials d). rank (c_role r) \<le> m" by (rule kept(2)) (use ranks new in simp_all)
  moreover have "map c_id (credentials d) = map c_id (accounts_now s)"
    by (rule kept(3)) (use ranks new in simp_all)
  ultimately show ?thesis using assms(2) write_role(1) by (simp add: ranks_ok_def flip: set_map)
next
  case (no_change k target actor n c)
  then show ?thesis using assms(2) by (simp add: ranks_ok_def)
next
  case (refuse k target actor)
  then show ?thesis using assms(2) by (simp add: ranks_ok_def)
next
  case (registered row rs)
  then show ?thesis using assms(2,3) insert_row_ok by (auto simp: ranks_ok_def insert_row_Inr)
next
  case (changed f a now p i rs)
  have f: "c_id (f r) = c_id r" "c_role (f r) = c_role r" for r using changed(2) by auto
  have ranks: "rank (c_role r) \<le> m" if "r \<in> set (accounts_now s)" for r
    using assms(2) that by (simp add: ranks_ok_def)
  have "credentials_ok (accounts_now s)" using assms(2) by (simp add: ranks_ok_def)
  note kept = update_table_keeps [OF changed(3) f(1) this, where P = "\<lambda>r. rank (c_role r) \<le> m"]
  have "credentials_ok rs" by (rule kept(1)) (use ranks in \<open>simp_all add: f\<close>)
  moreover have "\<forall>r\<in>set rs. rank (c_role r) \<le> m" by (rule kept(2)) (use ranks in \<open>simp_all add: f\<close>)
  moreover have "map c_id rs = map c_id (accounts_now s)" by (rule kept(3)) (use ranks in \<open>simp_all add: f\<close>)
  ultimately show ?thesis using assms(2) changed(1) by (simp add: ranks_ok_def flip: set_map)
qed

interpretation role_updates: preserved "role_step E rqs" "\<lambda>s. ranks_ok m s \<and> rank RoleUser \<le> m" for E rqs m
  by unfold_locales (blast dest: role_step_ok)

lemma role_reaches_ok:
  assumes "role_reaches E rqs s t" "ranks_ok m s" "rank RoleUser \<le> m"
  shows "ranks_ok m t \<and> set (map c_id (accounts_now s)) \<subseteq> set (map c_id (accounts_now t))"
proof
  show "ranks_ok m t" using role_updates.reached [OF assms(1)] assms(2,3) by blast
  show "set (map c_id (accounts_now s)) \<subseteq> set (map c_id (accounts_now t))"
    by (rule role_updates.related [OF assms(1), where m = m]) (use assms(2,3) role_step_ok in blast)+
qed

end
