(* ===== verification/PasswordUpdates.thy ===== *)
theory PasswordUpdates
  imports Interleaving Reachability
begin

text \<open>
  Changes of a password that overlap. \<open>CredentialsUpdatePassword.Exec\<close> proves the right to the change and
  writes the new hash in one transaction: with a reset code it redeems the code first, with the statements of
  \<open>Interleaving\<close>, and with the current password it compares a row it reads without locking it, so the password
  that was proved may have been replaced when the transaction writes. Here the statements of any number of
  changes interleave with each other and with the other changes of the tables.
\<close>

section \<open>Sessions\<close>

text \<open>Waiting, or busy with its reset code; with the row whose password it compared; with the row it wrote,
  committed; given up.\<close>

datatype change_session =
    NotProven
  | Proven dao_credentials
  | PasswordSet dao_credentials
  | GaveUp

text \<open>The two tables; the rows of \<open>reset_codes\<close> are those of \<open>short_codes\<close>, with how far each session is with
  the code it was given.\<close>

record password_state =
  rows_now :: "dao_credentials list"
  reset_codes :: shared
  changes :: "nat \<Rightarrow> change_session"

abbreviation accounts_stored :: "password_state \<Rightarrow> db" where
  "accounts_stored s \<equiv> \<lparr>credentials = rows_now s, short_codes = []\<rparr>"

text \<open>The redemption a change with a code asks for.\<close>

definition reset_consume :: "ext \<Rightarrow> CoreUpdatePasswordRequest \<Rightarrow> ShortCodeConsumeRequest" where
  "reset_consume E rq = \<lparr>sco_Usage = ShortCodeUsageResetPassword, sco_Target = x_uuid_string E (cup_UserID rq),
     sco_Code = cup_ShortCode rq\<rparr>"

abbreviation resets :: "ext \<Rightarrow> (nat \<Rightarrow> CoreUpdatePasswordRequest) \<Rightarrow> nat \<Rightarrow> ShortCodeConsumeRequest" where
  "resets E rqs \<equiv> (\<lambda>k. reset_consume E (rqs k))"

text \<open>
  The steps of session \<open>k\<close>, whose request is \<open>rqs k\<close>. With a code: the select and the delete of its
  redemption, and the update of the account with the commit of both that follows at once. With the current
  password: the read and the comparison, and the update with its commit. Giving up undoes the delete of a code.
  Other transactions insert codes, register accounts or change an address or a role.
\<close>

inductive password_step ::
    "ext \<Rightarrow> (nat \<Rightarrow> CoreUpdatePasswordRequest) \<Rightarrow> password_state \<Rightarrow> password_state \<Rightarrow> bool"
    for E rqs where
  redeeming: "redeem_step E (resets E rqs) (reset_codes s) c \<Longrightarrow>
    (\<forall>k r. sessions c k = Redeemed r \<longrightarrow> sessions (reset_codes s) k = Redeemed r) \<Longrightarrow>
    password_step E rqs s (s\<lparr>reset_codes := c\<rparr>)"
| write_by_code: "changes s k = NotProven \<Longrightarrow> struct_valid E (update_password_struct (rqs k)) \<Longrightarrow>
    cup_ShortCode (rqs k) \<noteq> '''' \<Longrightarrow> sessions (reset_codes s) k = Deleted r clock at \<Longrightarrow>
    generated_hash E (cup_Password (rqs k)) enc \<Longrightarrow>
    sql_credentialsUpdatePassword enc now (cup_UserID (rqs k)) clock' (accounts_stored s) = (Inr (row # rs), d) \<Longrightarrow>
    sql_shortCodeDelete at ShortCodeDeleteConsumed (s_id r) clock (stored (reset_codes s)) = (res, cd) \<Longrightarrow>
    password_step E rqs s (s\<lparr>rows_now := credentials d,
      reset_codes := (reset_codes s)\<lparr>codes := short_codes cd, sessions := (sessions (reset_codes s))(k := Redeemed r)\<rparr>,
      changes := (changes s)(k := PasswordSet row)\<rparr>)"
| by_password: "changes s k = NotProven \<Longrightarrow> struct_valid E (update_password_struct (rqs k)) \<Longrightarrow>
    cup_ShortCode (rqs k) = '''' \<Longrightarrow> cup_CurrentPassword (rqs k) \<noteq> '''' \<Longrightarrow>
    sql_credentialsSelect (cup_UserID (rqs k)) clock (accounts_stored s) = (Inr (row # rs), d) \<Longrightarrow>
    CompareArgon2 (x_idkey E) (x_argon_version E) (cup_CurrentPassword (rqs k)) (c_password row) = Ret () \<Longrightarrow>
    password_step E rqs s (s\<lparr>changes := (changes s)(k := Proven row)\<rparr>)"
| write_password: "changes s k = Proven seen \<Longrightarrow> generated_hash E (cup_Password (rqs k)) enc \<Longrightarrow>
    sql_credentialsUpdatePassword enc now (cup_UserID (rqs k)) clock (accounts_stored s) = (Inr (row # rs), d) \<Longrightarrow>
    password_step E rqs s (s\<lparr>rows_now := credentials d, changes := (changes s)(k := PasswordSet row)\<rparr>)"
| give_up: "\<forall>row. changes s k \<noteq> PasswordSet row \<Longrightarrow> \<forall>r. sessions (reset_codes s) k \<noteq> Redeemed r \<Longrightarrow>
    password_step E rqs s (s\<lparr>reset_codes := (reset_codes s)\<lparr>sessions := (sessions (reset_codes s))(k := GivenUp)\<rparr>,
      changes := (changes s)(k := GaveUp)\<rparr>)"
| account_added: "insert_row row (rows_now s) = Inr rs \<Longrightarrow> password_step E rqs s (s\<lparr>rows_now := rs\<rparr>)"
| account_changed: "f \<in> {set_email m now, set_role p now} \<Longrightarrow> update_table i f (rows_now s) = Inr rs \<Longrightarrow>
    password_step E rqs s (s\<lparr>rows_now := rs\<rparr>)"

abbreviation password_reaches ::
    "ext \<Rightarrow> (nat \<Rightarrow> CoreUpdatePasswordRequest) \<Rightarrow> password_state \<Rightarrow> password_state \<Rightarrow> bool" where
  "password_reaches E rqs \<equiv> (password_step E rqs)\<^sup>*\<^sup>*"

definition idle_changes :: "dao_credentials list \<Rightarrow> dao_short_code list \<Rightarrow> password_state" where
  "idle_changes rs cs = \<lparr>rows_now = rs, reset_codes = fresh_sessions cs, changes = (\<lambda>_. NotProven)\<rparr>"

section \<open>The codes of a run\<close>

text \<open>Seen from the table of codes, a run of changes is a run of redemptions and insertions.\<close>

lemma codes_follow:
  assumes "password_step E rqs s t"
  shows "redeem_reaches E (resets E rqs) (reset_codes s) (reset_codes t)"
  using assms
proof cases
  case (write_by_code k r clock at enc now clock' row rs d res cd)
  then show ?thesis using r_into_rtranclp [of "redeem_step E (resets E rqs)", OF redeem_step.commit [OF write_by_code(5,8)]] by simp
next
  case (give_up k)
  then show ?thesis using r_into_rtranclp [of "redeem_step E (resets E rqs)", OF redeem_step.give_up [OF give_up(3)]] by simp
qed simp_all

lemma codes_of_run:
  "password_reaches E rqs s t \<Longrightarrow> redeem_reaches E (resets E rqs) (reset_codes s) (reset_codes t)"
  by (induction rule: rtranclp_induct) (auto intro: rtranclp_trans codes_follow)

lemma redeemed_stays: "redeem_step E rqs s t \<Longrightarrow> sessions s k = Redeemed r \<Longrightarrow> sessions t k = Redeemed r"
  by (induction rule: redeem_step.induct) auto

section \<open>What a session proved\<close>

text \<open>That the password it presented was the account's at some moment of the run, or the code it redeemed.\<close>

definition had_password ::
    "ext \<Rightarrow> (nat \<Rightarrow> CoreUpdatePasswordRequest) \<Rightarrow> password_state \<Rightarrow> password_state \<Rightarrow> nat \<Rightarrow> bool" where
  "had_password E rqs s0 s k \<longleftrightarrow> (\<exists>t row. password_reaches E rqs s0 t \<and> password_reaches E rqs t s \<and>
     by_id (cup_UserID (rqs k)) (rows_now t) = Some row \<and>
     CompareArgon2 (x_idkey E) (x_argon_version E) (cup_CurrentPassword (rqs k)) (c_password row) = Ret ())"

definition entitled ::
    "ext \<Rightarrow> (nat \<Rightarrow> CoreUpdatePasswordRequest) \<Rightarrow> password_state \<Rightarrow> password_state \<Rightarrow> nat \<Rightarrow> bool" where
  "entitled E rqs s0 s k \<longleftrightarrow>
     (if cup_ShortCode (rqs k) \<noteq> '''' then \<exists>code. sessions (reset_codes s) k = Redeemed code
      else had_password E rqs s0 s k)"

lemma entitled_mono:
  assumes "entitled E rqs s0 s k" "password_step E rqs s t"
  shows "entitled E rqs s0 t k"
proof -
  have "had_password E rqs s0 t k" if "had_password E rqs s0 s k"
    using that assms(2) unfolding had_password_def by (meson rtranclp.rtrancl_into_rtrancl)
  moreover have "sessions (reset_codes t) k = Redeemed code" if "sessions (reset_codes s) k = Redeemed code" for code
    using codes_follow [OF assms(2)] that by (induction rule: rtranclp_induct) (auto intro: redeemed_stays)
  ultimately show ?thesis using assms(1) unfolding entitled_def by metis
qed

section \<open>The invariant\<close>

text \<open>Every session that got past its proof was entitled to it, no session redeemed a code without its change,
  and every account of the start has its password of then or the one a session set for it.\<close>

definition set_by ::
    "ext \<Rightarrow> (nat \<Rightarrow> CoreUpdatePasswordRequest) \<Rightarrow> password_state \<Rightarrow> uuid \<Rightarrow> string \<Rightarrow> bool" where
  "set_by E rqs s i p \<longleftrightarrow> (\<exists>k row. changes s k = PasswordSet row \<and> cup_UserID (rqs k) = i \<and> c_password row = p \<and>
     generated_hash E (cup_Password (rqs k)) p)"

definition passwords_ok ::
    "ext \<Rightarrow> (nat \<Rightarrow> CoreUpdatePasswordRequest) \<Rightarrow> password_state \<Rightarrow> password_state \<Rightarrow> bool" where
  "passwords_ok E rqs s0 s \<longleftrightarrow> password_reaches E rqs s0 s \<and>
     (\<forall>k. changes s k \<notin> {NotProven, GaveUp} \<longrightarrow> entitled E rqs s0 s k) \<and>
     (\<forall>k r. sessions (reset_codes s) k = Redeemed r \<longrightarrow> (\<exists>row. changes s k = PasswordSet row)) \<and>
     (\<forall>i old. by_id i (rows_now s0) = Some old \<longrightarrow> (\<exists>new. by_id i (rows_now s) = Some new \<and>
        (c_password new = c_password old \<or> set_by E rqs s i (c_password new))))"

lemma password_written:
  assumes "sql_credentialsUpdatePassword enc now i clock \<lparr>credentials = rs, short_codes = cs\<rparr> = (Inr (row # rows), d)"
  shows "update_table i (set_password enc now) rs = Inr (credentials d)" "c_password row = enc" "c_id row = i"
proof -
  have f: "(\<lambda>r. r\<lparr>c_password := enc, c_updated_at := pg_ts0 now\<rparr>) = set_password enc now"
    by (simp add: set_password_def [abs_def])
  from assms obtain rs' where u: "update_table i (set_password enc now) rs = Inr rs'" "filter (\<lambda>r. c_id r = i) rs' = row # rows"
    "d = \<lparr>credentials = rs', short_codes = cs\<rparr>"
    unfolding sql_credentialsUpdatePassword_def sql_update_def f by (auto split: sum.splits)
  then show "update_table i (set_password enc now) rs = Inr (credentials d)" by simp
  have "row \<in> set (filter (\<lambda>r. c_id r = i) rs')" using u(2) by simp
  then have "row \<in> set rs'" and i: "c_id row = i" by simp_all
  have "rs' = update_row i (set_password enc now) rs" using u(1) by (simp add: update_table_Inr)
  then have "row \<in> (\<lambda>r. if c_id r = i then set_password enc now r else r) ` set rs"
    using \<open>row \<in> set rs'\<close> by (simp only: update_row_def set_map)
  then obtain q where q: "row = (if c_id q = i then set_password enc now q else q)" by (rule imageE)
  have "c_id q = i" using i unfolding q by (cases "c_id q = i") simp_all
  then show "c_password row = enc" unfolding q by simp
  show "c_id row = i" by (rule i)
qed

lemma set_stays:
  assumes "password_step E rqs s t" "changes s k = PasswordSet row"
  shows "changes t k = PasswordSet row"
  using assms(1)
proof cases
  case (write_by_code l)
  then show ?thesis using assms(2) by (cases "l = k") simp_all
next
  case (by_password l)
  then show ?thesis using assms(2) by (cases "l = k") simp_all
next
  case (write_password l)
  then show ?thesis using assms(2) by (cases "l = k") simp_all
next
  case (give_up l)
  then show ?thesis using assms(2) by (cases "l = k") simp_all
qed (use assms(2) in simp_all)

lemma still_set:
  assumes "set_by E rqs s i p" "password_step E rqs s t"
  shows "set_by E rqs t i p"
proof -
  obtain k row where "changes s k = PasswordSet row" "cup_UserID (rqs k) = i" "c_password row = p"
    "generated_hash E (cup_Password (rqs k)) p" using assms(1) unfolding set_by_def by blast
  with set_stays [OF assms(2) this(1)] show ?thesis unfolding set_by_def by blast
qed

text \<open>A redemption is committed with a change only.\<close>

lemma spent_with_change:
  assumes "password_step E rqs s t" "sessions (reset_codes t) k = Redeemed r"
    "\<And>r. sessions (reset_codes s) k = Redeemed r \<Longrightarrow> \<exists>row. changes s k = PasswordSet row"
  shows "\<exists>row. changes t k = PasswordSet row"
proof (cases "\<exists>r. sessions (reset_codes s) k = Redeemed r")
  case True
  then show ?thesis using assms(1,3) set_stays by blast
next
  case False
  from assms(1) show ?thesis
  proof cases
    case (redeeming c)
    then show ?thesis using assms(2) False by auto
  next
    case (write_by_code l)
    then show ?thesis using assms(2) False by (cases "l = k") simp_all
  next
    case (give_up l)
    then show ?thesis using assms(2) False by (cases "l = k") simp_all
  qed (use assms(2) False in simp_all)
qed

text \<open>How one step treats the row of an account.\<close>

lemma update_row_cases:
  assumes "sql_credentialsUpdatePassword enc now j clock (accounts_stored s) = (Inr (row # rs), d)"
    "by_id i (rows_now s) = Some old"
  shows "\<exists>new. by_id i (credentials d) = Some new \<and> (if i = j then c_password new = enc else new = old)"
  using accounts.update_lookup [of "set_password enc now", OF _ password_written(1) [OF assms(1)], of i] assms(2)
  by (cases "i = j") auto

lemma password_step_row:
  assumes "password_step E rqs s t" "by_id i (rows_now s) = Some old"
  shows "\<exists>new. by_id i (rows_now t) = Some new \<and> (c_password new = c_password old \<or> set_by E rqs t i (c_password new))"
  using assms(1)
proof cases
  case (write_by_code k r clock at enc now clock' row rs d res cd)
  have "set_by E rqs t (cup_UserID (rqs k)) enc"
    unfolding set_by_def using write_by_code(1,6) password_written(2) [OF write_by_code(7)]
    by (intro exI [of _ k] exI [of _ row]) simp
  then show ?thesis using update_row_cases [OF write_by_code(7) assms(2)] write_by_code(1)
    by (auto split: if_splits)
next
  case (write_password k seen enc now clock row rs d)
  have "set_by E rqs t (cup_UserID (rqs k)) enc"
    unfolding set_by_def using write_password(1,3) password_written(2) [OF write_password(4)]
    by (intro exI [of _ k] exI [of _ row]) simp
  then show ?thesis using update_row_cases [OF write_password(4) assms(2)] write_password(1)
    by (auto split: if_splits)
next
  case (account_added row rs)
  then have "by_id i rs = Some old"
    using accounts.insert_lookup [OF account_added(2), of i] accounts.insert_fresh [OF account_added(2)] assms(2) by auto
  then show ?thesis using account_added(1) by simp
next
  case (account_changed f m now p j rs)
  have f: "c_id (f r) = c_id r" "c_password (f r) = c_password r" for r using account_changed(2) by auto
  note l = accounts.update_lookup [OF f(1) account_changed(3), of i]
  then show ?thesis using assms(2) f(2) account_changed(1) by (cases "i = j") auto
qed (use assms(2) in auto)

lemma select_by_id:
  assumes "sql_credentialsSelect i clock \<lparr>credentials = rs, short_codes = cs\<rparr> = (Inr (row # rows), d)"
  shows "by_id i rs = Some row"
  using assms by (auto simp: sql_credentialsSelect_def by_id_def find_filter)

lemma password_step_entitled:
  assumes "password_step E rqs s t" "password_reaches E rqs s0 s"
    "\<And>k. changes s k \<notin> {NotProven, GaveUp} \<Longrightarrow> entitled E rqs s0 s k" "changes t k \<notin> {NotProven, GaveUp}"
  shows "entitled E rqs s0 t k"
proof (cases "changes s k \<in> {NotProven, GaveUp}")
  case False
  then show ?thesis using entitled_mono assms(1,3) by blast
next
  case True
  have moved: "changes t k \<noteq> changes s k" using True assms(4) by auto
  from assms(1) show ?thesis
  proof cases
    case (write_by_code l)
    then have "l = k" using moved by (auto split: if_splits)
    then show ?thesis using write_by_code(1,4) by (simp add: entitled_def)
  next
    case (by_password l clock row rs d)
    then have "l = k" using moved by (auto split: if_splits)
    moreover note select_by_id [OF by_password(6)] by_password(7)
    ultimately have "had_password E rqs s0 t k"
      using assms(2) r_into_rtranclp [of "password_step E rqs", OF assms(1)] unfolding had_password_def
      by (intro exI [of _ s] exI [of _ row] conjI) simp_all
    then show ?thesis using by_password(4) \<open>l = k\<close> by (simp add: entitled_def)
  next
    case (write_password l seen enc now clock row rs d)
    then have "l = k" using moved by (auto split: if_splits)
    then show ?thesis using write_password(2) True by simp
  next
    case (give_up l)
    then show ?thesis using moved assms(4) by (auto split: if_splits)
  qed (use moved in auto)
qed

lemma passwords_step:
  assumes "password_step E rqs s t" "passwords_ok E rqs s0 s"
  shows "passwords_ok E rqs s0 t"
  unfolding passwords_ok_def
proof (intro conjI allI impI)
  show "password_reaches E rqs s0 t"
    using assms unfolding passwords_ok_def by (meson rtranclp.rtrancl_into_rtrancl)
  show "entitled E rqs s0 t k" if "changes t k \<notin> {NotProven, GaveUp}" for k
    using password_step_entitled [OF assms(1) _ _ that] assms(2) unfolding passwords_ok_def by blast
  show "\<exists>row. changes t k = PasswordSet row" if "sessions (reset_codes t) k = Redeemed r" for k r
    using spent_with_change [OF assms(1) that] assms(2) unfolding passwords_ok_def by blast
  fix i old assume "by_id i (rows_now s0) = Some old"
  then obtain mid where mid: "by_id i (rows_now s) = Some mid"
    "c_password mid = c_password old \<or> set_by E rqs s i (c_password mid)"
    using assms(2) unfolding passwords_ok_def by blast
  then show "\<exists>new. by_id i (rows_now t) = Some new \<and> (c_password new = c_password old \<or> set_by E rqs t i (c_password new))"
    using password_step_row [OF assms(1) mid(1)] still_set [OF _ assms(1)] by metis
qed

interpretation password_changes: preserved "password_step E rqs" "passwords_ok E rqs s0" for E rqs s0
  by unfold_locales (rule passwords_step)

lemma password_run_ok:
  assumes "password_reaches E rqs (idle_changes rs cs) s"
  shows "passwords_ok E rqs (idle_changes rs cs) s"
proof (rule password_changes.reached [OF assms])
  show "passwords_ok E rqs (idle_changes rs cs) (idle_changes rs cs)"
    by (simp add: passwords_ok_def idle_changes_def fresh_sessions_def)
qed

text \<open>The codes a run redeemed, by what is known of overlapping redemptions.\<close>

definition spent_for :: "ext \<Rightarrow> CoreUpdatePasswordRequest \<Rightarrow> shared \<Rightarrow> nat \<Rightarrow> dao_short_code \<Rightarrow> bool" where
  "spent_for E rq s k code \<longleftrightarrow> sessions s k = Redeemed code \<and>
     pair_of code = (x_uuid_string E (cup_UserID rq), ShortCodeUsageResetPassword) \<and>
     CompareArgon2 (x_idkey E) (x_argon_version E) (cup_ShortCode rq) (s_code code) = Ret () \<and>
     (\<forall>l r. sessions s l = Redeemed r \<and> s_id r = s_id code \<longrightarrow> l = k) \<and>
     (\<forall>p now x. find_active p now (codes s) = Some x \<longrightarrow> s_id x \<noteq> s_id code)"

lemma code_spent:
  assumes "codes_ok cs" "password_reaches E rqs (idle_changes rs cs) s" "sessions (reset_codes s) k = Redeemed code"
  shows "spent_for E (rqs k) (reset_codes s) k code"
proof -
  have run: "redeem_reaches E (resets E rqs) (fresh_sessions cs) (reset_codes s)"
    using codes_of_run [OF assms(2)] by (simp add: idle_changes_def)
  have ok: "sessions_ok (reset_codes s)" by (rule redemptions.reached [OF run fresh_sessions_ok [OF assms(1)]])
  have "proved E (reset_consume E (rqs k)) code" using redeemed_proved [OF run, of k code] assms(3) by simp
  then have "pair_of code = (x_uuid_string E (cup_UserID (rqs k)), ShortCodeUsageResetPassword)"
    "CompareArgon2 (x_idkey E) (x_argon_version E) (cup_ShortCode (rqs k)) (s_code code) = Ret ()"
    by (simp_all add: proved_def reset_consume_def)
  then show ?thesis unfolding spent_for_def
    using assms(3) redeemed_once [OF ok assms(3)] redeemed_gone [OF ok assms(3)] by blast
qed

end
