(* ===== verification/Mails.thy ===== *)
theory Mails
  imports ShortCodeService
begin

text \<open>
  The mail templates (\<open>internal/models/mails\<close>): which template each service renders, in which languages it
  exists, which fields it executes, and the link it contains; and the reading of that link by the web client
  it opens. The rest of a template is fixed text.
\<close>

section \<open>Templates\<close>

definition TemplateVarShortCode :: string where "TemplateVarShortCode = ''ShortCode''"
definition TemplateVarTarget :: string where "TemplateVarTarget = ''Target''"
definition TemplateVarURL :: string where "TemplateVarURL = ''URL''"
definition TemplateVarDuration :: string where "TemplateVarDuration = ''Duration''"
definition TemplateVarBanner :: string where "TemplateVarBanner = ''Banner''"
definition TemplateVarPurpose :: string where "TemplateVarPurpose = ''_Purpose''"

definition LangFR :: string where "LangFR = ''fr''"
definition LangEN :: string where "LangEN = ''en''"

text \<open>A template by the file it is embedded from, the fields its text executes, in order, and its link: literal
  text and fields.\<close>

datatype piece = Lit string | Field string

record template =
  t_file :: string
  t_fields :: "string list"
  t_link :: "piece list"

definition code_link :: "piece list" where
  "code_link = [Field ''URL'', Lit ''?shortCode='', Field ''ShortCode'', Lit ''&target='', Field ''Target'']"

definition code_template :: "string \<Rightarrow> template" where
  "code_template file = \<lparr>t_file = file, t_fields = [''Duration'', ''URL'', ''ShortCode'', ''Target''], t_link = code_link\<rparr>"

definition source_template :: "string \<Rightarrow> template" where
  "source_template file = \<lparr>t_file = file, t_fields = [''Duration'', ''URL'', ''ShortCode'', ''Target'', ''Source''],
     t_link = code_link @ [Lit ''&source='', Field ''Source'']\<rparr>"

definition emailUpdateEn :: template where "emailUpdateEn = source_template ''en/email-update.html''"
definition passwordResetEn :: template where "passwordResetEn = code_template ''en/password-reset.html''"
definition registerEn :: template where "registerEn = code_template ''en/register.html''"
definition emailUpdateFr :: template where "emailUpdateFr = source_template ''fr/email-update.html''"
definition passwordResetFr :: template where "passwordResetFr = code_template ''fr/password-reset.html''"
definition registerFr :: template where "registerFr = code_template ''fr/register.html''"

lemmas template_defs = code_template_def source_template_def code_link_def emailUpdateEn_def passwordResetEn_def
  registerEn_def emailUpdateFr_def passwordResetFr_def registerFr_def

text \<open>A \<open>*template.Template\<close> with its associated templates, by name.\<close>

type_synonym template_set = "(string \<times> template) list"

record MailTemplates =
  TplEmailUpdate :: template_set
  TplPasswordReset :: template_set
  TplRegister :: template_set

text \<open>\<open>template.New(lang).Parse(...)\<close>, then the variants added by \<open>.New(lang).Parse(...)\<close>.\<close>

definition parsed_mails :: MailTemplates where
  "parsed_mails = \<lparr>TplEmailUpdate = [(LangEN, emailUpdateEn)],
     TplPasswordReset = [(LangEN, passwordResetEn)], TplRegister = [(LangEN, registerEn)]\<rparr>"

definition Mails :: MailTemplates where
  "Mails = \<lparr>TplEmailUpdate = TplEmailUpdate parsed_mails @ [(LangFR, emailUpdateFr)],
     TplPasswordReset = TplPasswordReset parsed_mails @ [(LangFR, passwordResetFr)],
     TplRegister = TplRegister parsed_mails @ [(LangFR, registerFr)]\<rparr>"

text \<open>The template each \<open>sendMail\<close> passes, and the variant of the mail's language.\<close>

fun mail_template_set :: "mail_service \<Rightarrow> template_set" where
  "mail_template_set MailEmailUpdate = TplEmailUpdate Mails"
| "mail_template_set MailPasswordReset = TplPasswordReset Mails"
| "mail_template_set MailRegister = TplRegister Mails"

definition mail_template :: "mail_job \<Rightarrow> template option" where
  "mail_template j = map_of (mail_template_set (mj_service j)) (mj_lang j)"

section \<open>Rendering a link and reading it back\<close>

text \<open>A field that holds a string is rendered as it is (\<open>text/template\<close> escapes nothing); the link uses
  no other.\<close>

fun render_link :: "(string \<times> mail_value) list \<Rightarrow> piece list \<Rightarrow> string option" where
  "render_link data [] = Some ''''"
| "render_link data (Lit s # ps) = map_option ((@) s) (render_link data ps)"
| "render_link data (Field n # ps) =
     (case map_of data n of
        Some (MStr s) \<Rightarrow> map_option ((@) s) (render_link data ps)
      | _ \<Rightarrow> None)"

text \<open>The pairs of a query string whose values need no decoding.\<close>

definition query_pair :: "string \<Rightarrow> string \<times> string" where
  "query_pair s = (case split_on (CHR ''='') s of [] \<Rightarrow> ('''', '''') | [k] \<Rightarrow> (k, '''') | k # v # _ \<Rightarrow> (k, v))"

definition link_query :: "string \<Rightarrow> (string \<times> string) list" where
  "link_query link =
     (case split_on (CHR ''?'') link of
        base # query # _ \<Rightarrow> map query_pair (split_on (CHR ''&'') query)
      | _ \<Rightarrow> [])"

text \<open>Characters that stand for themselves in a query: letters, digits, hyphen and underscore.\<close>

definition url_safe :: "string \<Rightarrow> bool" where
  "url_safe s \<longleftrightarrow> set s \<subseteq> set url_alphabet"

lemma url_safe_free:
  assumes "url_safe s"
  shows "CHR ''='' \<notin> set s" "CHR ''&'' \<notin> set s" "CHR ''?'' \<notin> set s" "CHR ''%'' \<notin> set s" "CHR ''+'' \<notin> set s"
proof -
  have "CHR ''='' \<notin> set url_alphabet" "CHR ''&'' \<notin> set url_alphabet" "CHR ''?'' \<notin> set url_alphabet"
    "CHR ''%'' \<notin> set url_alphabet" "CHR ''+'' \<notin> set url_alphabet"
    by (simp_all add: url_alphabet_def)
  then show "CHR ''='' \<notin> set s" "CHR ''&'' \<notin> set s" "CHR ''?'' \<notin> set s" "CHR ''%'' \<notin> set s" "CHR ''+'' \<notin> set s"
    using assms unfolding url_safe_def by blast+
qed

lemma code_url_safe: "set s \<subseteq> set URLCharList \<Longrightarrow> url_safe s"
proof -
  have "set URLCharList \<subseteq> set url_alphabet" by (simp add: URLCharList_def url_alphabet_def)
  then show "set s \<subseteq> set URLCharList \<Longrightarrow> url_safe s" by (auto simp: url_safe_def)
qed

lemma encoded_url_safe: "url_safe (b64_encode url_alphabet s)"
  using url64.encode_chars by (auto simp: url_safe_def)

lemma query_pair_run: "CHR ''='' \<notin> set k \<Longrightarrow> CHR ''='' \<notin> set v \<Longrightarrow> query_pair (k @ CHR ''='' # v) = (k, v)"
  by (simp add: query_pair_def split_on_append split_on_free)

lemma split_two: "c \<notin> set s \<Longrightarrow> c \<notin> set t \<Longrightarrow> split_on c (s @ c # t) = [s, t]"
  by (simp add: split_on_append split_on_free)

lemma split_three: "c \<notin> set s \<Longrightarrow> c \<notin> set t \<Longrightarrow> c \<notin> set u \<Longrightarrow> split_on c (s @ c # t @ c # u) = [s, t, u]"
  by (simp add: split_on_append split_on_free)

lemma link_query_run:
  assumes "CHR ''?'' \<notin> set url" "CHR ''?'' \<notin> set query"
  shows "link_query (url @ CHR ''?'' # query) = map query_pair (split_on (CHR ''&'') query)"
  by (simp add: link_query_def split_two [OF assms])

lemma link_query_two:
  assumes "CHR ''?'' \<notin> set url" "url_safe code" "url_safe target"
  shows "link_query (url @ ''?shortCode='' @ code @ ''&target='' @ target) =
    [(''shortCode'', code), (''target'', target)]"
proof -
  note free = url_safe_free [OF assms(2)] url_safe_free [OF assms(3)]
  let ?p = "''shortCode'' @ CHR ''='' # code" and ?q = "''target'' @ CHR ''='' # target"
  have "link_query (url @ CHR ''?'' # (?p @ CHR ''&'' # ?q)) = map query_pair (split_on (CHR ''&'') (?p @ CHR ''&'' # ?q))"
    by (rule link_query_run [OF assms(1)]) (use free in simp)
  also have "split_on (CHR ''&'') (?p @ CHR ''&'' # ?q) = [?p, ?q]"
    by (rule split_two) (use free in simp_all)
  also have "map query_pair [?p, ?q] = [(''shortCode'', code), (''target'', target)]"
    unfolding list.map by (subst (1 2) query_pair_run) (use free in simp_all)
  finally show ?thesis by simp
qed

lemma link_query_three:
  assumes "CHR ''?'' \<notin> set url" "url_safe code" "url_safe target" "url_safe source"
  shows "link_query (url @ ''?shortCode='' @ code @ ''&target='' @ target @ ''&source='' @ source) =
    [(''shortCode'', code), (''target'', target), (''source'', source)]"
proof -
  note free = url_safe_free [OF assms(2)] url_safe_free [OF assms(3)] url_safe_free [OF assms(4)]
  let ?p = "''shortCode'' @ CHR ''='' # code" and ?q = "''target'' @ CHR ''='' # target"
    and ?r = "''source'' @ CHR ''='' # source"
  let ?query = "?p @ CHR ''&'' # ?q @ CHR ''&'' # ?r"
  have "link_query (url @ CHR ''?'' # ?query) = map query_pair (split_on (CHR ''&'') ?query)"
    by (rule link_query_run [OF assms(1)]) (use free in simp)
  also have "split_on (CHR ''&'') ?query = [?p, ?q, ?r]"
    by (rule split_three) (use free in simp_all)
  also have "map query_pair [?p, ?q, ?r] = [(''shortCode'', code), (''target'', target), (''source'', source)]"
    unfolding list.map by (subst (1 2 3) query_pair_run) (use free in simp_all)
  finally show ?thesis by simp
qed

section \<open>Every mail has its template\<close>

text \<open>A language that passed the validation has a variant of each template, and the data of the mail
  names every field the variant executes.\<close>

definition mail_complete :: "mail_job \<Rightarrow> bool" where
  "mail_complete j \<longleftrightarrow> (\<exists>t. mail_template j = Some t \<and> set (t_fields t) \<subseteq> fst ` set (mj_data j))"

definition mail_file :: "mail_job \<Rightarrow> string option" where
  "mail_file j = map_option t_file (mail_template j)"

definition mail_link :: "mail_job \<Rightarrow> string option" where
  "mail_link j = (case mail_template j of None \<Rightarrow> None | Some t \<Rightarrow> render_link (mj_data j) (t_link t))"

lemma known_langs: "lang \<in> set KnownLangs \<longleftrightarrow> lang = LangFR \<or> lang = LangEN"
  by (auto simp: KnownLangs_def LangFR_def LangEN_def)

lemma lang_distinct [simp]: "LangFR \<noteq> LangEN" "LangEN \<noteq> LangFR"
  by (simp_all add: LangFR_def LangEN_def)

lemma register_mail:
  assumes "scr_Lang rq \<in> set KnownLangs"
  shows "mail_complete (mail_Register E cfg urls rq sc)"
    "mail_file (mail_Register E cfg urls rq sc) = Some (scr_Lang rq @ ''/register.html'')"
    "mail_link (mail_Register E cfg urls rq sc) = Some (Register urls @ ''?shortCode='' @ sc_PlainCode sc @
       ''&target='' @ b64_encode url_alphabet (scr_Email rq))"
  using assms
  by (auto simp: known_langs mail_complete_def mail_file_def LangFR_def LangEN_def mail_link_def mail_template_def Mails_def parsed_mails_def
      mail_Register_def template_defs)

lemma email_update_mail:
  assumes "sceu_Lang rq \<in> set KnownLangs"
  shows "mail_complete (mail_EmailUpdate E cfg urls rq sc)"
    "mail_file (mail_EmailUpdate E cfg urls rq sc) = Some (sceu_Lang rq @ ''/email-update.html'')"
    "mail_link (mail_EmailUpdate E cfg urls rq sc) = Some (UpdateEmail urls @ ''?shortCode='' @ sc_PlainCode sc @
       ''&target='' @ x_uuid_string E (sceu_ID rq) @ ''&source='' @ b64_encode url_alphabet (sceu_Email rq))"
  using assms
  by (auto simp: known_langs mail_complete_def mail_file_def LangFR_def LangEN_def mail_link_def mail_template_def Mails_def parsed_mails_def
      mail_EmailUpdate_def template_defs)

lemma password_reset_mail:
  assumes "scpr_Lang rq \<in> set KnownLangs"
  shows "mail_complete (mail_PasswordReset E cfg urls rq i sc)"
    "mail_file (mail_PasswordReset E cfg urls rq i sc) = Some (scpr_Lang rq @ ''/password-reset.html'')"
    "mail_link (mail_PasswordReset E cfg urls rq i sc) = Some (UpdatePassword urls @ ''?shortCode='' @
       sc_PlainCode sc @ ''&target='' @ x_uuid_string E i)"
  using assms
  by (auto simp: known_langs mail_complete_def mail_file_def LangFR_def LangEN_def mail_link_def mail_template_def Mails_def parsed_mails_def
      mail_PasswordReset_def template_defs)

end
