(* ===== verification/ProcessProperties.thy ===== *)
theory ProcessProperties
  imports Bootstrap Startup Migrations Shutdown Interleaving Issuing RoleUpdates PasswordUpdates Mails ServiceProperties
begin

text \<open>
  The properties of the processes around the requests: the bootstrap of the super-admin, the start of the
  server from its settings, its shutdown, redemptions, insertions of codes and updates of roles and passwords
  that overlap in time, the links of the mails, and the migrations; each with its witness.
\<close>

section \<open>The bootstrap\<close>

text \<open>C33: The bootstrap command with a missing address or password never touches the tables. With both
  set it leaves the tables as they were or leaves one super-admin account with that address and password,
  the other accounts unchanged, and it exits normally only in the second case: every failure ends the
  process with a panic, never with an ignored error.\<close>

theorem bootstrap_all_or_nothing:
  assumes "environment_ok E" "accounts_ok (db w)" "\<not> in_tx w" "init_main P E env w = (r, w')"
  shows "(env_SuperAdminEmail env = '''' \<or> env_SuperAdminPassword env = '''' \<longrightarrow> db w' = db w) \<and>
    (db w' = db w \<or> (\<exists>row. provisioned E (configured env) (db w) row (db w'))) \<and>
    (r = Ret () \<and> env_SuperAdminEmail env \<noteq> '''' \<and> env_SuperAdminPassword env \<noteq> '''' \<longrightarrow>
       (\<exists>row. provisioned E (configured env) (db w) row (db w'))) \<and>
    (r = Ret () \<or> (\<exists>p. r = Panic p))"
  using assms(4)
proof (cases rule: init_main_cases)
  case (reconciled t s)
  then have "(\<forall>c. s = Ret c \<longrightarrow> (\<exists>row. c = to_Credentials row \<and> provisioned E (configured env) (db w) row (db w'))) \<and>
      (db w' = db w \<or> (\<exists>row. provisioned E (configured env) (db w) row (db w')))"
    using super_admin_result [OF reconciled(3) environment_okD(1) [OF assms(1)]] assms(2,3) by simp
  with reconciled show ?thesis by (cases s) auto
qed auto

text \<open>C23: While the infrastructure answers, the bootstrap can be run on every deployment: it exits normally
  any number of times, a second run keeps the identifier of the account and adds none, and the configured
  address and password then sign in with the role super-admin.\<close>

theorem bootstrap_idempotent:
  assumes "reliable E" "\<And>c. pe_otel_init P c = None" "\<And>t c. pe_connect P t c = None"
    and "service_ok (db w)" "\<not> in_tx w" "struct_valid E (super_admin_struct (configured env))"
    and "by_email (env_SuperAdminEmail env) (credentials (db w)) = None \<Longrightarrow>
      \<forall>t. x_uuid_new E t \<notin> c_id ` set (credentials (db w))"
  shows "\<exists>w1 w2 row1 row2 tok w3.
    init_main P E env w = (Ret (), w1) \<and> init_main P E env w1 = (Ret (), w2) \<and>
    by_email (env_SuperAdminEmail env) (credentials (db w1)) = Some row1 \<and>
    by_email (env_SuperAdminEmail env) (credentials (db w2)) = Some row2 \<and>
    c_id row2 = c_id row1 \<and> c_role row1 = RoleSuperAdmin \<and>
    (\<forall>j. j \<noteq> c_id row1 \<longrightarrow> by_id j (credentials (db w2)) = by_id j (credentials (db w1))) \<and>
    core_TokenCreate E \<lparr>tc_Email = env_SuperAdminEmail env, tc_Password = env_SuperAdminPassword env\<rparr> w2 =
      (Ret tok, w3) \<and>
    bound_pair E tok (c_id row1) RoleSuperAdmin"
proof -
  obtain w1 row1 where a: "init_main P E env w = (Ret (), w1)" "service_ok (db w1)" "\<not> in_tx w1"
      "provisioned E (configured env) (db w) row1 (db w1)"
    by (rule init_main_run [OF assms])
  have p1: "by_email (env_SuperAdminEmail env) (credentials (db w1)) = Some row1" "c_role row1 = RoleSuperAdmin"
    using a(4) by (simp_all add: provisioned_def)
  obtain w2 row2 where b: "init_main P E env w1 = (Ret (), w2)" "service_ok (db w2)" "\<not> in_tx w2"
      "provisioned E (configured env) (db w1) row2 (db w2)"
    using p1(1) by (rule_tac init_main_run [OF assms(1-3) a(2,3) assms(6)]) auto
  have p2: "by_email (env_SuperAdminEmail env) (credentials (db w2)) = Some row2" "c_role row2 = RoleSuperAdmin"
      "generated_hash E (env_SuperAdminPassword env) (c_password row2)" "c_id row2 = c_id row1"
      "\<forall>j. j \<noteq> c_id row1 \<longrightarrow> by_id j (credentials (db w2)) = by_id j (credentials (db w1))"
    using b(4) p1 by (simp_all add: provisioned_def)
  let ?sign = "\<lparr>tc_Email = env_SuperAdminEmail env, tc_Password = env_SuperAdminPassword env\<rparr>"
  have "struct_valid E (token_create_struct ?sign)"
    using assms(6) by (simp add: token_create_struct_def super_admin_struct_def)
  then obtain tok w3 where "core_TokenCreate E ?sign w2 = (Ret tok, w3)" "bound_pair E tok (c_id row1) RoleSuperAdmin"
    using p2(1-4) by (rule_tac sign_in_run [OF assms(1), of ?sign w2 row2]) simp_all
  with a(1) b(1) p1 p2 show ?thesis by blast
qed

section \<open>The settings\<close>

text \<open>C34: The server that is started is the one the environment describes: it listens on the configured port with
  the configured timeouts, size limit and cross-origin rules, each the documented default when its variable is
  unset, and drains within the configured budget; mails leave the process through the configured SMTP server, so
  many at a time, and when its address is unset they are only logged, with a warning; a mail links to the
  configured page or, when its variable is unset, to the default path under the platform's address; the drain
  covers every service that mails and, with both timeouts unset, leaves time for a send. It starts exactly when
  nothing refuses, and with nothing configured it starts on the documented defaults.\<close>

theorem settings_of_the_environment:
  assumes "loader_contract L" "iteration_order (h_order (app_http A))"
  shows "(\<forall>env p w w'. load_settings L Getenv = Ret env \<and> rest_main P C A env w = (Ret p, w') \<longrightarrow>
      describes_server L (prefixed Getenv) (ps_server p) \<and> describes_sender L (prefixed Getenv) (ps_sender p) \<and>
      le_duration L (prefixed Getenv ''REST_TIMEOUT_SHUTDOWN'') (25 * second) = Ret (ps_shutdown p) \<and>
      app_urls (hs_app (ps_server p)) =
        (let var = (\<lambda>n page. if prefixed Getenv n = '''' then prefixed Getenv ''PLATFORM_AUTH_URL'' @ page
                            else prefixed Getenv n) in
         \<lparr>UpdateEmail = var ''PLATFORM_AUTH_URL_UPDATE_EMAIL'' ''/ext/email/validate'',
          UpdatePassword = var ''PLATFORM_AUTH_URL_UPDATE_PASSWORD'' ''/ext/password/reset'',
          Register = var ''PLATFORM_AUTH_URL_REGISTER'' ''/ext/account/create''\<rparr>) \<and>
      (ps_warned p \<longleftrightarrow> prefixed Getenv ''SMTP_ADDR'' = '''') \<and>
      (ps_warned p \<longleftrightarrow> (\<exists>n. ps_sender p = BoundedSender DebugSender n)) \<and> set (ps_drains p) = UNIV \<and>
      (prefixed Getenv ''SMTP_TIMEOUT'' = '''' \<and> prefixed Getenv ''REST_TIMEOUT_SHUTDOWN'' = '''' \<longrightarrow>
         env_SmtpTimeout env < ps_shutdown p) \<and>
      startup (hs_app (ps_server p)) = Ret (hs_permissions (ps_server p)) \<and> db w' = db w) \<and>
    (\<forall>env w. (\<exists>p w'. rest_main P C A env w = (Ret p, w')) \<longleftrightarrow> nothing_refuses P C env (tick w)) \<and>
    ((\<forall>n. prefixed Getenv n = '''') \<longrightarrow> load_settings L Getenv = Ret default_settings)"
proof (intro conjI)
  note le = loader_contractD [OF assms(1)]
  let ?e = "prefixed Getenv"
  show "\<forall>env p w w'. load_settings L Getenv = Ret env \<and> rest_main P C A env w = (Ret p, w') \<longrightarrow>
      describes_server L ?e (ps_server p) \<and> describes_sender L ?e (ps_sender p) \<and>
      le_duration L (?e ''REST_TIMEOUT_SHUTDOWN'') (25 * second) = Ret (ps_shutdown p) \<and>
      app_urls (hs_app (ps_server p)) =
        (let var = (\<lambda>n page. if ?e n = '''' then ?e ''PLATFORM_AUTH_URL'' @ page else ?e n) in
         \<lparr>UpdateEmail = var ''PLATFORM_AUTH_URL_UPDATE_EMAIL'' ''/ext/email/validate'',
          UpdatePassword = var ''PLATFORM_AUTH_URL_UPDATE_PASSWORD'' ''/ext/password/reset'',
          Register = var ''PLATFORM_AUTH_URL_REGISTER'' ''/ext/account/create''\<rparr>) \<and>
      (ps_warned p \<longleftrightarrow> ?e ''SMTP_ADDR'' = '''') \<and>
      (ps_warned p \<longleftrightarrow> (\<exists>n. ps_sender p = BoundedSender DebugSender n)) \<and> set (ps_drains p) = UNIV \<and>
      (?e ''SMTP_TIMEOUT'' = '''' \<and> ?e ''REST_TIMEOUT_SHUTDOWN'' = '''' \<longrightarrow> env_SmtpTimeout env < ps_shutdown p) \<and>
      startup (hs_app (ps_server p)) = Ret (hs_permissions (ps_server p)) \<and> db w' = db w"
    (is "\<forall>env p w w'. ?H env p w w' \<longrightarrow> ?C env p w w'")
  proof (intro allI impI)
    fix env p w w'
    assume H: "?H env p w w'"
    obtain perms where s: "startup A = Ret perms" "p = started A env perms" "db w' = db w"
      by (rule rest_main_Ret [OF assms(2) conjunct2 [OF H]])
    have r: "read_settings L ?e = Ret env" using H by (simp add: load_settings_def)
    have urls: "app_urls (hs_app (ps_server p)) = App_SmtpUrls (AppPresetDefault env)"
      "startup (hs_app (ps_server p)) = startup A" "hs_permissions (ps_server p) = perms"
      "ps_shutdown p = env_RestTimeoutShutdown env" "ps_drains p = drains"
      "ps_warned p \<longleftrightarrow> App_Smtp (AppPresetDefault env) = DebugSender"
      "ps_sender p = BoundedSender (App_Smtp (AppPresetDefault env)) (env_SmtpMaxConcurrent env)"
      by (simp_all add: s(2) started_def Let_def new_server_def wired_def startup_def AppPresetDefault_def)
    have "set drains = UNIV" using drains_complete by blast
    with s urls started_as_described [OF r, of A perms, folded s(2)] read_settings_plain(2) [OF r]
      read_settings_loaded(1-3) [OF r] read_settings_rest(8) [OF r] read_settings_smtp(6) [OF r]
    show "?C env p w w'"
      by (auto simp: AppPresetDefault_def Let_def le setting_defaults second_def)
  qed
next
  show "\<forall>env w. (\<exists>p w'. rest_main P C A env w = (Ret p, w')) \<longleftrightarrow> nothing_refuses P C env (tick w)"
    using rest_main_starts [OF assms(2)] by blast
next
  show "(\<forall>n. prefixed Getenv n = '''') \<longrightarrow> load_settings L Getenv = Ret default_settings"
    using nothing_set [OF assms(1), of "prefixed Getenv"] by (simp add: load_settings_def)
qed

section \<open>The shutdown\<close>

text \<open>C11: When the server process returns from its drain without an error, every mail that any request had
  scheduled has been sent or its failure reported, none is in flight; it returns with an error only after
  the shutdown budget expired.\<close>

theorem shutdown_loses_no_mail:
  assumes "process_reaches start_process s"
  shows "(phase s = Returned None \<longrightarrow> in_flight s = [] \<and> mset (ended s) = mset (scheduled s)) \<and>
    (\<forall>e. phase s = Returned (Some e) \<longrightarrow> expired s)"
  using reached_ok [OF assms] by (auto simp: process_ok_def)

text \<open>C24: Once the server has stopped accepting, the drain always comes to an end: whatever the order of
  events, it makes at most \<open>drain_work\<close> steps, it is never stuck before it returned, and after the budget
  expired one step returns.\<close>

theorem shutdown_terminates:
  assumes "process_reaches start_process s" "phase s = Draining"
  shows "(\<forall>n t. (process_step ^^ n) s t \<longrightarrow> n \<le> drain_work s) \<and>
    (\<forall>t. process_reaches s t \<and> (\<nexists>u. process_step t u) \<longrightarrow> (\<exists>e. phase t = Returned e)) \<and>
    (expired s \<longrightarrow> process_step s (s\<lparr>phase := Returned (Some drain_error)\<rparr>))"
proof (intro conjI allI impI)
  show "n \<le> drain_work s" if "(process_step ^^ n) s t" for n t by (rule drain_bound [OF that assms(2)])
  fix t assume t: "process_reaches s t \<and> (\<nexists>u. process_step t u)"
  from t have "process_reaches s t" by blast
  then have "process_ok t \<and> (phase t = Draining \<or> (\<exists>e. phase t = Returned e))"
    by (rule drain_run) (use assms reached_ok in auto)
  then show "\<exists>e. phase t = Returned e" using t drain_progress by blast
next
  assume "expired s"
  then show "process_step s (s\<lparr>phase := Returned (Some drain_error)\<rparr>)"
    using process_step.drain [OF assms(2) select_expired] by blast
qed

section \<open>Redemptions that overlap\<close>

text \<open>C9: However the statements of any number of redemptions and insertions interleave, a code is redeemed by
  at most one of them, only by a session that presented its plain text for its target and usage, and once
  redeemed it is never found active again.\<close>

theorem concurrent_redemptions:
  assumes "codes_ok rs" "redeem_reaches E rqs (fresh_sessions rs) s" "sessions s k = Redeemed r"
  shows "(\<forall>l r'. sessions s l = Redeemed r' \<and> s_id r' = s_id r \<longrightarrow> l = k) \<and>
    pair_of r = (sco_Target (rqs k), sco_Usage (rqs k)) \<and>
    CompareArgon2 (x_idkey E) (x_argon_version E) (sco_Code (rqs k)) (s_code r) = Ret () \<and>
    (\<forall>p now x. find_active p now (codes s) = Some x \<longrightarrow> s_id x \<noteq> s_id r)"
proof -
  have ok: "sessions_ok s" by (rule redemptions.reached [OF assms(2) fresh_sessions_ok [OF assms(1)]])
  moreover have "proved E (rqs k) r" using redeemed_proved [OF assms(2), of k r] assms(3) by simp
  ultimately show ?thesis
    using redeemed_once [OF ok assms(3)] redeemed_gone [OF ok assms(3)] unfolding proved_def by blast
qed

section \<open>Witnesses\<close>

definition sample_process :: process_env where
  "sample_process = \<lparr>pe_otel_init = (\<lambda>_. None), pe_connect = (\<lambda>_ _. None)\<rparr>"

definition sample_settings :: settings where
  "sample_settings = default_settings\<lparr>env_SuperAdminEmail := ''user@a'', env_SuperAdminPassword := ''word''\<rparr>"

lemma sample_settings_simps [simp]:
  "env_SuperAdminEmail sample_settings = ''user@a''" "env_SuperAdminPassword sample_settings = ''word''"
  by (simp_all add: sample_settings_def)

lemma sample_super_admin_struct: "struct_valid sample (super_admin_struct (configured sample_settings))"
  by (simp add: super_admin_struct_def contract_tags [OF sample_validator] builtin_tags tag_simps rune_count_def)

lemma sample_bootstrap:
  obtains w' where "init_main sample_process sample sample_settings sample_world = (Ret (), w')"
  by (rule init_main_run [OF sample_reliable, of sample_process sample_world sample_settings])
    (simp_all add: sample_process_def sample_service_ok sample_super_admin_struct [simplified] sample_fresh)

lemma bootstrap_all_or_nothing_witness:
  "\<exists>w' row. init_main sample_process sample sample_settings sample_world = (Ret (), w') \<and>
     by_email ''user@a'' (credentials (db w')) = Some row \<and> c_role row = RoleSuperAdmin"
proof -
  obtain w' where i: "init_main sample_process sample sample_settings sample_world = (Ret (), w')"
    by (rule sample_bootstrap)
  from bootstrap_all_or_nothing [OF sample_ok sample_accounts_ok _ i] i show ?thesis
    by (auto simp: provisioned_def)
qed

lemma bootstrap_idempotent_witness:
  "\<exists>w1 w2 row1 row2. init_main sample_process sample sample_settings sample_world = (Ret (), w1) \<and>
     init_main sample_process sample sample_settings w1 = (Ret (), w2) \<and>
     by_email ''user@a'' (credentials (db w1)) = Some row1 \<and>
     by_email ''user@a'' (credentials (db w2)) = Some row2 \<and> c_id row2 = c_id row1"
proof -
  have "pe_otel_init sample_process c = None" "pe_connect sample_process t p = None" for c t p
    by (simp_all add: sample_process_def)
  from bootstrap_idempotent [OF sample_reliable this sample_service_ok _ sample_super_admin_struct]
  show ?thesis using sample_fresh by auto
qed

text \<open>A loader that reads numbers in decimal, durations in seconds and lists of one element, and an environment
  that sets the platform's address, two timeouts and the SMTP server.\<close>

definition sample_loader :: env_loader where
  "sample_loader = \<lparr>le_string = (\<lambda>s d. Ret (if s = '''' then d else s)),
     le_int = (\<lambda>s d. Ret (if s = '''' then d else int (digits_value s))),
     le_int64 = (\<lambda>s d. Ret (if s = '''' then d else int (digits_value s))),
     le_duration = (\<lambda>s d. Ret (if s = '''' then d else int (digits_value s) * second)),
     le_bool = (\<lambda>s d. Ret (if s = '''' then d else s = ''true'')),
     le_strings = (\<lambda>s d. Ret (if s = '''' then d else [s]))\<rparr>"

definition sample_environ :: environ where
  "sample_environ name =
     (case map_of [(''PLATFORM_AUTH_URL'', ''https://a''), (''REST_TIMEOUT_READ'', ''5''),
        (''REST_TIMEOUT_SHUTDOWN'', ''7''), (''SMTP_ADDR'', ''mail:25''), (''SMTP_SENDER_NAME'', ''a'')] name of
      None \<Rightarrow> '''' | Some v \<Rightarrow> v)"

text \<open>Clients that refuse nothing.\<close>

definition sample_clients :: client_libs where
  "sample_clients = \<lparr>cl_options = (\<lambda>_. Inr ''''), cl_client = (\<lambda>_ _. None), cl_verifier = (\<lambda>_. None)\<rparr>"

lemma sample_loaded: "loader_contract sample_loader"
  by (simp add: loader_contract_def sample_loader_def)

lemma sample_starts: "nothing_refuses sample_process sample_clients env t"
  by (simp add: nothing_refuses_def sample_process_def sample_clients_def Let_def)

lemma settings_of_the_environment_witness:
  "\<exists>env p w' q v'. load_settings sample_loader sample_environ = Ret env \<and>
     rest_main sample_process sample_clients sample_app env sample_world = (Ret p, w') \<and>
     Register (app_urls (hs_app (ps_server p))) = ''https://a/ext/account/create'' \<and>
     hs_ReadTimeout (ps_server p) = 5 * second \<and> hs_WriteTimeout (ps_server p) = 30 * second \<and>
     hs_Addr (ps_server p) = '':8080'' \<and> ps_shutdown p = 7 * second \<and> \<not> ps_warned p \<and>
     ps_sender p = BoundedSender (ProdSender \<lparr>ps_Addr = ''mail:25'', ps_Name = ''a'', ps_Email = '''', ps_Password = '''',
       ps_Domain = '''', ps_ForceUnencryptedTls = False, ps_Timeout = 20 * second\<rparr>) 16 \<and>
     load_settings sample_loader (\<lambda>_. '''') = Ret default_settings \<and>
     rest_main sample_process sample_clients sample_app default_settings sample_world = (Ret q, v') \<and>
     ps_warned q \<and> env_SmtpTimeout default_settings < ps_shutdown q"
proof -
  note c = settings_of_the_environment [OF sample_loaded sample_order, of _ sample_process sample_clients]
  obtain env where env: "load_settings sample_loader sample_environ = Ret env"
    by (simp add: load_settings_def read_settings_def sample_loader_def)
  obtain p w' where p: "rest_main sample_process sample_clients sample_app env sample_world = (Ret p, w')"
    using c [THEN conjunct2, THEN conjunct1] sample_starts by blast
  have port: "Itoa 8080 = ''8080''" by (simp add: Itoa_def show_nat.simps digit_def, code_simp)
  have five: "digits_value ''5'' = 5" "digits_value ''7'' = 7" by code_simp+
  note started = c [of sample_environ, THEN conjunct1, rule_format, OF conjI [OF env p]]
  note reads = describes_server_def describes_sender_def prefixed_def sample_environ_def sample_loader_def port five
  have "Register (app_urls (hs_app (ps_server p))) = ''https://a/ext/account/create''"
     "hs_ReadTimeout (ps_server p) = 5 * second" "hs_WriteTimeout (ps_server p) = 30 * second"
     "hs_Addr (ps_server p) = '':8080''" "ps_shutdown p = 7 * second" "\<not> ps_warned p"
    using started by (simp_all add: reads Let_def)
  moreover have "describes_sender sample_loader (prefixed sample_environ) (ps_sender p)" using started by blast
  then have "ps_sender p = BoundedSender (ProdSender \<lparr>ps_Addr = ''mail:25'', ps_Name = ''a'', ps_Email = '''',
       ps_Password = '''', ps_Domain = '''', ps_ForceUnencryptedTls = False, ps_Timeout = 20 * second\<rparr>) 16"
    by (auto simp: reads)
  moreover have none: "load_settings sample_loader (\<lambda>_. '''') = Ret default_settings"
    using c [of "\<lambda>_. ''''", THEN conjunct2, THEN conjunct2] by (simp add: prefixed_def)
  moreover obtain q v' where q: "rest_main sample_process sample_clients sample_app default_settings sample_world = (Ret q, v')"
    using c [THEN conjunct2, THEN conjunct1] sample_starts by blast
  moreover have "ps_warned q" "env_SmtpTimeout default_settings < ps_shutdown q"
    using c [of "\<lambda>_. ''''", THEN conjunct1, rule_format, OF conjI [OF none q]] by (simp_all add: prefixed_def)
  ultimately show ?thesis using env p by blast
qed

text \<open>A stop with one registration mail in flight that ends before the goroutine has waited.\<close>

definition sample_mail :: mail_job where
  "sample_mail = \<lparr>mj_service = MailRegister, mj_to = ''new@a'', mj_lang = ''en'', mj_data = []\<rparr>"

definition draining_process :: process where
  "draining_process = start_process\<lparr>requests := 0, in_flight := [sample_mail], scheduled := [sample_mail],
     phase := Draining, waiting := Some drains\<rparr>"

lemma sample_draining: "process_reaches start_process draining_process"
proof -
  let ?a = "start_process\<lparr>requests := Suc 0\<rparr>"
  let ?b = "?a\<lparr>in_flight := [sample_mail], scheduled := [sample_mail]\<rparr>"
  let ?c = "?b\<lparr>requests := 0\<rparr>"
  let ?d = "?c\<lparr>phase := ShuttingDown\<rparr>"
  have "process_step start_process ?a" using accept [of start_process] by (simp add: start_process_def)
  moreover have "process_step ?a ?b" using schedule [of ?a sample_mail] by (simp add: start_process_def)
  moreover have "process_step ?b ?c" using respond [of ?b 0] by (simp add: start_process_def)
  moreover have "process_step ?c ?d" using signal [of ?c] by (simp add: start_process_def)
  moreover have "process_step ?d draining_process"
    using shutdown_done [of ?d] by (simp add: start_process_def draining_process_def)
  ultimately show ?thesis by (meson rtranclp.rtrancl_into_rtrancl rtranclp.rtrancl_refl)
qed

lemma shutdown_terminates_witness:
  "process_reaches start_process draining_process \<and>
   (\<nexists>t. (process_step ^^ 8) draining_process t)"
proof -
  have "phase draining_process = Draining" "drain_work draining_process = 7"
    by (simp_all add: draining_process_def drain_work_def drains_def start_process_def)
  with shutdown_terminates [OF sample_draining] have "n \<le> 7" if "(process_step ^^ n) draining_process t" for n t
    using that by auto
  from this [of 8] sample_draining show ?thesis by auto
qed

lemma shutdown_loses_no_mail_witness:
  "\<exists>s. process_reaches start_process s \<and> phase s = Returned None \<and> mset (ended s) = {#sample_mail#}"
proof -
  let ?a = "draining_process\<lparr>in_flight := [], ended := [sample_mail]\<rparr>"
  let ?b = "?a\<lparr>waiting := Some [MailEmailUpdate, MailPasswordReset]\<rparr>"
  let ?c = "?a\<lparr>waiting := Some [MailPasswordReset]\<rparr>"
  let ?d = "?a\<lparr>waiting := Some []\<rparr>"
  let ?e = "?d\<lparr>done_closed := True\<rparr>"
  let ?f = "?e\<lparr>phase := Returned None\<rparr>"
  note defs = draining_process_def start_process_def drains_def Wait_returns_def
  have "process_step draining_process ?a"
    using send_ends [of draining_process "[]" sample_mail "[]"] by (simp add: defs)
  moreover have "process_step ?a ?b"
    using drain [OF _ wait_next [of ?a MailRegister]] by (simp add: defs)
  moreover have "process_step ?b ?c"
    using drain [OF _ wait_next [of ?b MailEmailUpdate]] by (simp add: defs)
  moreover have "process_step ?c ?d"
    using drain [OF _ wait_next [of ?c MailPasswordReset]] by (simp add: defs)
  moreover have "process_step ?d ?e" using drain [OF _ close_done [of ?d]] by (simp add: defs)
  moreover have "process_step ?e ?f" using drain [OF _ select_done [of ?e]] by (simp add: defs)
  ultimately have r: "process_reaches start_process ?f"
    using sample_draining by (meson rtranclp.rtrancl_into_rtrancl)
  from shutdown_loses_no_mail [OF this] have "mset (ended ?f) = mset (scheduled ?f)" by simp
  with r show ?thesis by (intro exI [of _ ?f]) (simp add: draining_process_def)
qed

lemma concurrent_redemptions_witness:
  "\<exists>rs s r rq. redeem_reaches sample (\<lambda>_. rq) (fresh_sessions rs) s \<and> sessions s 0 = Redeemed r \<and>
     (\<nexists>l r'. sessions s l = Redeemed r' \<and> s_id r' = s_id r \<and> l \<noteq> 0)"
proof -
  obtain sc w1 where c: "core_ShortCodeCreate sample ShortCodesPresetDefault sample_issue sample_world = (Ret sc, w1)"
    by (rule sample_issued)
  let ?rq = "\<lparr>sco_Usage = scc_Usage sample_issue, sco_Target = scc_Target sample_issue, sco_Code = sc_PlainCode sc\<rparr>"
  obtain w2 where r: "core_ShortCodeConsume sample ?rq w1 = (Ret sc, w2)"
    by (rule issued_redeemable [OF sample_reliable _ _ c refl sample_expiry [OF c] sample_redeemable [OF c]])
      (simp_all add: sample_codes_ok hour_def second_def)
  have ok: "short_codes_ok (db w1)" by (rule sample_keeps_codes [OF c])
  from consume_is_a_run [of sample "\<lambda>_. ?rq" 0, OF r ok] obtain s row where
    s: "redeem_reaches sample (\<lambda>_. ?rq) (fresh_sessions (short_codes (db w1))) s" "sessions s 0 = Redeemed row"
    by blast
  have "codes_ok (short_codes (db w1))" using ok by (simp add: short_codes_ok_def)
  from concurrent_redemptions [OF this s] s show ?thesis by blast
qed

section \<open>Insertions of codes that overlap\<close>

text \<open>C10: However the statements of any number of insertions of codes interleave, with each other and with
  redemptions, the table keeps its constraints, so a target has at most one live code per usage; a row is
  there for every insertion that succeeded, as it was asked for, and no row appears otherwise; and an insertion
  with override that was refused was refused because another one for the same target and usage had succeeded.\<close>

theorem concurrent_issuing:
  assumes "codes_ok rs" "distinct_requests rs rqs" "issue_reaches rqs (idle_issues rs) s"
  shows "codes_ok (committed s) \<and>
    (\<forall>k. issues s k = Issued \<longrightarrow> (\<exists>r\<in>set (committed s).
       s_id r = si_ID (rqs ! k) \<and> pair_of r = pair_for (rqs ! k) \<and> s_code r = si_Code (rqs ! k))) \<and>
    (\<forall>r\<in>set (committed s). s_id r \<in> s_id ` set rs \<or> issued_by rqs s r) \<and>
    (\<forall>k. si_Override (rqs ! k) \<and> issues s k = Lost \<longrightarrow>
       (\<exists>l. l \<noteq> k \<and> issues s l = Issued \<and> pair_for (rqs ! l) = pair_for (rqs ! k)))"
  using issued_ok(1) [OF assms(1,3)] issued_ok(2) [OF assms(1,3,2)]
  unfolding table_ok_def winners_ok_def by blast

definition sample_race :: "ShortCodeInsertRequest list" where
  "sample_race = map (\<lambda>i. \<lparr>si_ID = i, si_Code = ''hash'', si_Usage = ShortCodeUsageRegister, si_Target = ''a@b'',
     si_Data = None, si_Now = 0, si_ExpiresAt = hour, si_Override = True\<rparr>) [1, 2]"

lemma concurrent_issuing_witness:
  "\<exists>s. issue_reaches sample_race (idle_issues []) s \<and> issues s 0 = Lost \<and> issues s 1 = Issued \<and>
     (\<exists>l. l \<noteq> 0 \<and> issues s l = Issued) \<and> codes_ok (committed s)"
proof -
  let ?a = "becomes (becomes (idle_issues []) 0 (IsCleared {})) 1 (IsCleared {})"
  let ?i = "becomes ?a 1 (IsInserted {})"
  let ?b = "?i\<lparr>committed := [new_code (sample_race ! 1)], issues := (issues ?i)(1 := Issued)\<rparr>"
  let ?c = "becomes ?b 0 Lost"
  note defs = idle_issues_def sample_race_def clear_rows_def seen_by_def to_insert_def
  have cleared: "issue_reaches sample_race s (becomes s k (IsCleared {}))"
    if "issues s k = NotStarted" "k < 2" "committed s = []" for s k
  proof -
    have "issue_step sample_race s (becomes s k (Clearing 0 [] {}))"
      using issue_step.start [of s k sample_race 0] that by (simp add: sample_race_def)
    moreover have "issue_step sample_race (becomes s k (Clearing 0 [] {})) (becomes s k (IsCleared {}))"
      using issue_step.cleared [of "becomes s k (Clearing 0 [] {})" k 0 "{}" sample_race] by simp
    ultimately show ?thesis by (meson rtranclp.rtrancl_into_rtrancl rtranclp.rtrancl_refl)
  qed
  have "issue_reaches sample_race (idle_issues []) (becomes (idle_issues []) 0 (IsCleared {}))"
    by (rule cleared) (simp_all add: idle_issues_def)
  moreover have "issue_reaches sample_race (becomes (idle_issues []) 0 (IsCleared {})) ?a"
    by (rule cleared) (simp_all add: idle_issues_def)
  moreover have "issue_step sample_race ?a ?i"
    using issue_step.insert [of sample_race 1 ?a "[new_code (sample_race ! 1)]"]
    by (simp add: defs delete_where_def insert_code_def)
  moreover have "issue_step sample_race ?i ?b"
    using issue_step.commit [of ?i 1 "{}" sample_race] by (simp add: defs delete_where_def)
  moreover have "issue_step sample_race ?b ?c"
    using issue_step.violation [of sample_race 0 ?b "new_code (sample_race ! 1)"]
    by (simp add: defs delete_where_def)
  ultimately have run: "issue_reaches sample_race (idle_issues []) ?c"
    by (meson rtranclp.rtrancl_into_rtrancl rtranclp_trans)
  have "distinct_requests [] sample_race" by (simp add: distinct_requests_def sample_race_def)
  note all = concurrent_issuing [OF _ this run]
  have "si_Override (sample_race ! 0)" by (simp add: sample_race_def)
  with all have "\<exists>l. l \<noteq> 0 \<and> issues ?c l = Issued" "codes_ok (committed ?c)" by (auto simp: codes_ok_def)
  with run show ?thesis by (intro exI [of _ ?c]) simp
qed

section \<open>Role updates that overlap\<close>

text \<open>C13: However the statements of any number of role updates interleave with each other and with the other
  changes of the accounts, nobody ends above the highest rank there was, no account disappears and the
  constraints of the table hold.\<close>

theorem concurrent_role_updates:
  assumes "credentials_ok rs" "\<forall>r\<in>set rs. rank (c_role r) \<le> m" "rank RoleUser \<le> m"
    and "role_reaches E rqs (idle_updates rs) s"
  shows "(\<forall>r\<in>set (accounts_now s). rank (c_role r) \<le> m) \<and>
    c_id ` set rs \<subseteq> c_id ` set (accounts_now s) \<and> credentials_ok (accounts_now s)"
proof -
  have "ranks_ok m (idle_updates rs)" using assms(1,2) by (simp add: ranks_ok_def idle_updates_def)
  from role_reaches_ok [OF assms(4) this assms(3)] show ?thesis by (simp add: ranks_ok_def idle_updates_def)
qed

text \<open>A promotion of the account 13 by a super-admin that overlaps with another update of it to admin by the
  same super-admin: both decide on the rows read at first.\<close>

definition sample_updates :: "nat \<Rightarrow> CoreUpdateRoleRequest" where
  "sample_updates k = \<lparr>cur_TargetUserID = 13, cur_CurrentUserID = 11,
      cur_Role = (if k = 0 then RoleSuperAdmin else RoleAdmin)\<rparr>"

lemma sample_race:
  obtains s t promoted demoted where
    "role_reaches sample sample_updates (idle_updates sample_accounts) s" "role_reaches sample sample_updates s t"
    "by_id 13 (accounts_now s) = Some promoted" "c_role promoted = RoleSuperAdmin"
    "role_decision (sample_updates 1) (accounts_now s) = Inl ErrCredentialsUpdateRoleDowngradeSuperior"
    "by_id 13 (accounts_now t) = Some demoted" "c_role demoted = RoleAdmin" "updates t 1 = Written demoted"
proof -
  let ?rqs = sample_updates
  let ?user = "sample_account 13 ''user@a'' RoleUser" and ?root = "sample_account 11 ''root@a'' RoleSuperAdmin"
  let ?up = "set_role RoleSuperAdmin 0 ?user"
  let ?down = "set_role RoleAdmin 0 ?up"
  let ?rest = "[?root, sample_account 21 ''admin@a'' RoleAdmin]"
  let ?s0 = "idle_updates sample_accounts"
  let ?s1 = "?s0\<lparr>updates := (updates ?s0)(1 := TargetRead ?user)\<rparr>"
  let ?s2 = "?s1\<lparr>updates := (updates ?s1)(1 := BothRead ?user ?root)\<rparr>"
  let ?s3 = "?s2\<lparr>updates := (updates ?s2)(0 := TargetRead ?user)\<rparr>"
  let ?s4 = "?s3\<lparr>updates := (updates ?s3)(0 := BothRead ?user ?root)\<rparr>"
  let ?d5 = "\<lparr>credentials = ?rest @ [?up], short_codes = []\<rparr>" and ?d6 = "\<lparr>credentials = ?rest @ [?down], short_codes = []\<rparr>"
  let ?s5 = "?s4\<lparr>accounts_now := credentials ?d5, updates := (updates ?s4)(0 := Written ?up)\<rparr>"
  let ?s6 = "?s5\<lparr>accounts_now := credentials ?d6, updates := (updates ?s5)(1 := Written ?down)\<rparr>"
  have valid: "struct_valid sample [(FStr RoleSuperAdmin, [Required, TagRole])]"
    "struct_valid sample [(FStr RoleAdmin, [Required, TagRole])]"
    unfolding role_struct [OF sample_validator] by (simp_all add: role_check_list_def role_names)
  have roles: "c_role ?user = RoleUser" "c_role ?root = RoleSuperAdmin" by (simp_all add: sample_account_def)
  have known: "RoleAdmin \<in> set role_check_list" by (simp add: role_check_list_def role_names)
  note sel = sql_credentialsSelect_def sample_accounts_def sample_account_def
  note upd = sql_credentialsUpdateRole_def sql_update_def update_table_Inr update_table_def update_row_def
    Let_def row_checks_def role_check_list_def role_names set_role_def
  have "role_step sample ?rqs ?s0 ?s1"
    by (rule read_target [where k = 1]) (simp_all add: idle_updates_def sel sample_updates_def valid del: struct_valid_simps)
  moreover have "role_step sample ?rqs ?s1 ?s2"
    by (rule read_actor) (simp_all add: idle_updates_def sel sample_updates_def)
  moreover have "role_step sample ?rqs ?s2 ?s3"
    by (rule read_target [where k = 0]) (simp_all add: idle_updates_def sel sample_updates_def valid del: struct_valid_simps)
  moreover have "role_step sample ?rqs ?s3 ?s4"
    by (rule read_actor) (simp_all add: idle_updates_def sel sample_updates_def)
  moreover have "role_step sample ?rqs ?s4 ?s5"
    by (rule write_role [where k = 0 and clock = 0 and now = 0 and n = 3 and t = 1 and c = 3 and rs = "[]" and d = ?d5 and target = ?user and actor = ?root])
      (simp_all add: role_guards_def Priority_default roles sample_updates_def, simp_all add: upd idle_updates_def sel sample_updates_def)
  moreover have "role_step sample ?rqs ?s5 ?s6"
    by (rule write_role [where k = 1 and clock = 0 and now = 0 and n = 2 and t = 1 and c = 3 and rs = "[]" and d = ?d6 and target = ?user and actor = ?root])
      (simp_all add: role_guards_def Priority_default roles sample_updates_def, simp_all add: upd idle_updates_def sel sample_updates_def)
  ultimately have "role_reaches sample ?rqs ?s0 ?s5" "role_reaches sample ?rqs ?s5 ?s6"
    by (meson rtranclp.rtrancl_into_rtrancl rtranclp.rtrancl_refl)+
  moreover have "by_id 13 (accounts_now ?s5) = Some ?up" "by_id 13 (accounts_now ?s6) = Some ?down"
    by (simp_all add: by_id_def sample_account_def)
  moreover have "role_decision (?rqs 1) (accounts_now ?s5) = Inl ErrCredentialsUpdateRoleDowngradeSuperior"
    using known by (simp add: role_decision_def sample_updates_def by_id_def sample_account_def)
  ultimately show thesis by (intro that [of ?s5 ?s6 ?up ?down]) simp_all
qed

theorem concurrent_role_updates_witness:
  "\<exists>t demoted. role_reaches sample sample_updates (idle_updates sample_accounts) t \<and>
     by_id 13 (accounts_now t) = Some demoted \<and> c_role demoted = RoleAdmin \<and>
     filter (\<lambda>r. 3 < rank (c_role r)) (accounts_now t) = [] \<and> credentials_ok (accounts_now t)"
proof (rule sample_race)
  fix s t promoted demoted
  assume run: "role_reaches sample sample_updates (idle_updates sample_accounts) s"
      "role_reaches sample sample_updates s t"
    and t: "by_id 13 (accounts_now t) = Some demoted" "c_role demoted = RoleAdmin"
  have reach: "role_reaches sample sample_updates (idle_updates sample_accounts) t" using run by simp
  have ranks: "\<forall>r\<in>set sample_accounts. rank (c_role r) \<le> 3" "rank RoleUser \<le> 3"
    by (simp_all add: sample_accounts_def sample_account_def)
  have "credentials_ok sample_accounts" using sample_accounts_ok by (simp add: accounts_ok_def)
  from concurrent_role_updates [OF this ranks reach] t reach show ?thesis by (fastforce simp: filter_empty_conv)
qed


section \<open>Changes of a password that overlap\<close>

text \<open>C14: However changes of passwords interleave with each other, with redemptions and insertions of codes and
  with the other changes of the accounts, no account is lost and its password is the one it had or the one that a
  session set for it which had proved its right: with a reset code of that very account, of which it presented the
  plain text and which nobody else redeemed nor ever can, or with a password that was the account's at some
  moment of the run. That moment need not be the last one: a session that proved a password still writes after
  another one has replaced it. No code is spent without the change it was given for.\<close>

theorem concurrent_password_updates:
  assumes "codes_ok cs" "password_reaches E rqs (idle_changes rs cs) s" "by_id i rs = Some old"
  shows "(\<exists>new. by_id i (rows_now s) = Some new \<and> (c_password new = c_password old \<or>
    (\<exists>k row. changes s k = PasswordSet row \<and> cup_UserID (rqs k) = i \<and> c_password row = c_password new \<and>
       generated_hash E (cup_Password (rqs k)) (c_password new) \<and>
       (if cup_ShortCode (rqs k) \<noteq> '''' then
          \<exists>code. sessions (reset_codes s) k = Redeemed code \<and>
            pair_of code = (x_uuid_string E i, ShortCodeUsageResetPassword) \<and>
            CompareArgon2 (x_idkey E) (x_argon_version E) (cup_ShortCode (rqs k)) (s_code code) = Ret () \<and>
            (\<forall>l r. sessions (reset_codes s) l = Redeemed r \<and> s_id r = s_id code \<longrightarrow> l = k) \<and>
            (\<forall>p now x. find_active p now (codes (reset_codes s)) = Some x \<longrightarrow> s_id x \<noteq> s_id code)
        else had_password E rqs (idle_changes rs cs) s k)))) \<and>
    (\<forall>k r. sessions (reset_codes s) k = Redeemed r \<longrightarrow> (\<exists>row. changes s k = PasswordSet row))"
proof -
  note ok = password_run_ok [OF assms(2)]
  have "by_id i (rows_now (idle_changes rs cs)) = Some old" using assms(3) by (simp add: idle_changes_def)
  then obtain new where new: "by_id i (rows_now s) = Some new"
    "c_password new = c_password old \<or> set_by E rqs s i (c_password new)"
    using ok unfolding passwords_ok_def by blast
  have right: "if cup_ShortCode (rqs k) \<noteq> '''' then
          \<exists>code. sessions (reset_codes s) k = Redeemed code \<and>
            pair_of code = (x_uuid_string E i, ShortCodeUsageResetPassword) \<and>
            CompareArgon2 (x_idkey E) (x_argon_version E) (cup_ShortCode (rqs k)) (s_code code) = Ret () \<and>
            (\<forall>l r. sessions (reset_codes s) l = Redeemed r \<and> s_id r = s_id code \<longrightarrow> l = k) \<and>
            (\<forall>p now x. find_active p now (codes (reset_codes s)) = Some x \<longrightarrow> s_id x \<noteq> s_id code)
        else had_password E rqs (idle_changes rs cs) s k"
    if "changes s k = PasswordSet row" "cup_UserID (rqs k) = i" for k row
  proof -
    have e: "entitled E rqs (idle_changes rs cs) s k" using ok that(1) unfolding passwords_ok_def by force
    show ?thesis
    proof (cases "cup_ShortCode (rqs k) \<noteq> ''''")
      case True
      then obtain code where code: "sessions (reset_codes s) k = Redeemed code" using e by (auto simp: entitled_def)
      from code_spent [OF assms(1,2) code, unfolded spent_for_def that(2)] show ?thesis
        unfolding if_P [OF True] by (rule exI)
    qed (use e in \<open>simp add: entitled_def\<close>)
  qed
  have "\<forall>k r. sessions (reset_codes s) k = Redeemed r \<longrightarrow> (\<exists>row. changes s k = PasswordSet row)"
    using ok unfolding passwords_ok_def by blast
  moreover from new(2) have "c_password new = c_password old \<or>
    (\<exists>k row. changes s k = PasswordSet row \<and> cup_UserID (rqs k) = i \<and> c_password row = c_password new \<and>
       generated_hash E (cup_Password (rqs k)) (c_password new))"
    unfolding set_by_def .
  ultimately show ?thesis using new(1) right by blast
qed

text \<open>The user of the sample database asks for a reset with a code while a session still holds the proof of the
  old password.\<close>

definition reset_code :: dao_short_code where
  "reset_code = \<lparr>s_id = 5, s_code = sample_hash ''code'', s_usage = ShortCodeUsageResetPassword, s_target = enc_uuid 13,
     s_data = None, s_created_at = 0, s_expires_at = 10 * second, s_deleted_at = None, s_deleted_comment = None\<rparr>"

definition sample_changes :: "nat \<Rightarrow> CoreUpdatePasswordRequest" where
  "sample_changes k =
     (if k = 0 then \<lparr>cup_Password = ''word'', cup_CurrentPassword = '''', cup_ShortCode = ''code'', cup_UserID = 13\<rparr>
      else \<lparr>cup_Password = ''other'', cup_CurrentPassword = ''pass'', cup_ShortCode = '''', cup_UserID = 13\<rparr>)"

abbreviation sample_password_step :: "password_state \<Rightarrow> password_state \<Rightarrow> bool" where
  "sample_password_step \<equiv> password_step sample sample_changes"

abbreviation sample_changes_start :: password_state where
  "sample_changes_start \<equiv> idle_changes sample_accounts [reset_code]"

lemma sample_compare:
  "CompareArgon2 sample_idkey 19 pw (sample_hash pw) = Ret ()"
  "CompareArgon2 sample_idkey 19 ''pass'' (sample_hash ''word'') \<noteq> Ret ()"
  "CompareArgon2 sample_idkey 19 ''pass'' (sample_hash ''other'') \<noteq> Ret ()"
  "CompareArgon2 sample_idkey 19 ''word'' (sample_hash ''other'') \<noteq> Ret ()"
proof -
  have pc: "idkey_contract sample_idkey" using sample_passwords by (simp add: password_contract_def)
  show "CompareArgon2 sample_idkey 19 pw (sample_hash pw) = Ret ()"
    using compare_own_password [OF pc _ sample_generate [of 0 pw]] by simp
  show "CompareArgon2 sample_idkey 19 ''pass'' (sample_hash ''word'') \<noteq> Ret ()"
    "CompareArgon2 sample_idkey 19 ''pass'' (sample_hash ''other'') \<noteq> Ret ()"
    "CompareArgon2 sample_idkey 19 ''word'' (sample_hash ''other'') \<noteq> Ret ()"
    using compare_generated [OF pc _ sample_generate [of 0 "''word''"], of "''pass''"]
      compare_generated [OF pc _ sample_generate [of 0 "''other''"], of "''pass''"]
      compare_generated [OF pc _ sample_generate [of 0 "''other''"], of "''word''"]
    by (auto simp: sample_idkey_def Argon2ParamsDefault_def)
qed

lemma sample_reset_simps [simp]:
  "reset_consume sample (sample_changes 0) =
     \<lparr>sco_Usage = ShortCodeUsageResetPassword, sco_Target = enc_uuid 13, sco_Code = ''code''\<rparr>"
  "s_id reset_code = 5" "s_code reset_code = sample_hash ''code''" "s_expires_at reset_code = 10 * second"
  "pair_of reset_code = (enc_uuid 13, ShortCodeUsageResetPassword)" "active_at 0 reset_code" "live reset_code"
  by (simp_all add: reset_consume_def sample_changes_def reset_code_def pair_of_def active_at_def live_def second_def)

lemma sample_codes_consistent: "codes_ok [reset_code]"
  by (simp add: codes_ok_def)

abbreviation user13 :: dao_credentials where
  "user13 \<equiv> sample_account 13 ''user@a'' RoleUser"

definition after_word :: dao_credentials where
  "after_word = set_password (sample_hash ''word'') 0 user13"

definition after_other :: dao_credentials where
  "after_other = set_password (sample_hash ''other'') 0 after_word"

text \<open>Session 1 proves the old password; session 0 redeems the code and sets a new one; session 1 still writes.\<close>

lemma sample_password_race:
  obtains s t where "sample_password_step\<^sup>*\<^sup>* sample_changes_start s" "sample_password_step s t"
    "by_id 13 (rows_now s) = Some after_word" "by_id 13 (rows_now t) = Some after_other"
    "\<forall>k row. changes s k = PasswordSet row \<longrightarrow> k = 0" "changes t 0 = PasswordSet after_word"
proof -
  let ?rest = "[sample_account 11 ''root@a'' RoleSuperAdmin, sample_account 21 ''admin@a'' RoleAdmin]"
  let ?c0 = "fresh_sessions [reset_code]"
  let ?c1 = "?c0\<lparr>sessions := (sessions ?c0)(0 := Selected reset_code)\<rparr>"
  let ?c2 = "?c1\<lparr>sessions := (sessions ?c1)(0 := Deleted reset_code 0 0)\<rparr>"
  let ?c3 = "?c2\<lparr>codes := [delete_mark 0 ShortCodeDeleteConsumed reset_code], sessions := (sessions ?c2)(0 := Redeemed reset_code)\<rparr>"
  let ?s0 = "sample_changes_start"
  let ?s1 = "?s0\<lparr>changes := (changes ?s0)(1 := Proven user13)\<rparr>"
  let ?s2 = "?s1\<lparr>reset_codes := ?c1\<rparr>"
  let ?s3 = "?s2\<lparr>reset_codes := ?c2\<rparr>"
  let ?s4 = "?s3\<lparr>rows_now := ?rest @ [after_word], reset_codes := ?c3, changes := (changes ?s3)(0 := PasswordSet after_word)\<rparr>"
  let ?s5 = "?s4\<lparr>rows_now := ?rest @ [after_other], changes := (changes ?s4)(1 := PasswordSet after_other)\<rparr>"
  have valid: "struct_valid sample (update_password_struct (sample_changes k))" for k
    by (simp add: update_password_struct_def contract_tags [OF sample_validator] rune_count_def sample_changes_def)
  have consume: "struct_valid sample (consume_struct (reset_consume sample (sample_changes 0)))"
    using sample_uuid_string [of 13]
    by (simp add: consume_struct_def contract_tags [OF sample_validator] tag_simps unknown_usage usage_names rune_count_def)
  note upd = sql_credentialsUpdatePassword_def sql_update_def update_table_Inr update_table_def update_row_def
    Let_def row_checks_def role_check_list_def role_names set_password_def sample_accounts_def sample_account_def
    after_word_def after_other_def
  have "sample_password_step ?s0 ?s1"
    by (rule by_password [OF _ valid, where clock = 0 and rs = "[]" and d = "accounts_stored ?s0"])
      (simp_all add: idle_changes_def sample_changes_def sql_credentialsSelect_def sample_accounts_def sample_account_def
        sample_compare(1))
  moreover have "sample_password_step ?s1 ?s2"
  proof (rule redeeming)
    show "redeem_step sample (resets sample sample_changes) (reset_codes ?s1) ?c1"
      using consume redeem_step.select [of ?c0 0 sample "resets sample sample_changes" 0 reset_code "[]" "stored ?c0" 0]
      by (simp add: idle_changes_def fresh_sessions_def sql_shortCodeSelect_def sample_compare(1) second_def)
  qed (simp add: idle_changes_def fresh_sessions_def)
  moreover have "sample_password_step ?s2 ?s3"
  proof (rule redeeming)
    show "redeem_step sample (resets sample sample_changes) (reset_codes ?s2) ?c2"
      using redeem_step.delete [of ?c1 0 reset_code 0 0 "delete_mark 0 ShortCodeDeleteConsumed reset_code" "[]"
          "(stored ?c1)\<lparr>short_codes := [delete_mark 0 ShortCodeDeleteConsumed reset_code]\<rparr>"]
      by (simp add: fresh_sessions_def sql_shortCodeDelete_def locked_def retire_match_def delete_where_def)
  qed (simp add: idle_changes_def fresh_sessions_def)
  moreover have "sample_password_step ?s3 ?s4"
    using write_by_code [of ?s3 0 sample sample_changes reset_code 0 0 "sample_hash ''word''" 0 0 after_word "[]"
        "\<lparr>credentials = ?rest @ [after_word], short_codes = []\<rparr>"
        "Inr [delete_mark 0 ShortCodeDeleteConsumed reset_code]"
        "\<lparr>credentials = [], short_codes = [delete_mark 0 ShortCodeDeleteConsumed reset_code]\<rparr>", OF _ valid]
    by (simp add: idle_changes_def fresh_sessions_def sample_changes_def sample_hash_generated
        sql_shortCodeDelete_def retire_match_def delete_where_def, simp add: upd)
  moreover have w: "sample_password_step ?s4 ?s5"
    using write_password [of ?s4 1 user13 sample sample_changes "sample_hash ''other''" 0 0 after_other "[]"
        "\<lparr>credentials = ?rest @ [after_other], short_codes = []\<rparr>"]
    by (simp add: sample_changes_def sample_hash_generated idle_changes_def, simp add: upd)
  ultimately have "sample_password_step\<^sup>*\<^sup>* ?s0 ?s4" by (meson rtranclp.rtrancl_into_rtrancl rtranclp.rtrancl_refl)
  moreover have "by_id 13 (rows_now ?s4) = Some after_word" "by_id 13 (rows_now ?s5) = Some after_other"
    by (simp_all add: by_id_def sample_account_def after_word_def after_other_def)
  ultimately show thesis using w by (intro that [of ?s4 ?s5]) (auto simp: idle_changes_def split: if_splits)
qed

lemma sample_hashes: "sample_hash ''word'' \<noteq> sample_hash ''other''" "sample_hash ''word'' \<noteq> sample_hash ''pass''"
    "sample_hash ''other'' \<noteq> sample_hash ''pass''"
  using sample_compare(1) [of "''word''"] sample_compare(1) [of "''pass''"] sample_compare(2,3,4) by metis+

lemma concurrent_password_updates_witness:
  "\<exists>s t code now new k. sample_password_step\<^sup>*\<^sup>* sample_changes_start s \<and> sample_password_step s t \<and>
     sessions (reset_codes s) 0 = Redeemed code \<and> pair_of code = (enc_uuid 13, ShortCodeUsageResetPassword) \<and>
     CompareArgon2 sample_idkey 19 ''code'' (s_code code) = Ret () \<and>
     by_id 13 (rows_now s) = Some now \<and> generated_hash sample ''word'' (c_password now) \<and>
     CompareArgon2 sample_idkey 19 ''pass'' (c_password now) \<noteq> Ret () \<and>
     by_id 13 (rows_now t) = Some new \<and> generated_hash sample ''other'' (c_password new) \<and>
     had_password sample sample_changes sample_changes_start t k"
proof (rule sample_password_race)
  fix s t
  assume run: "sample_password_step\<^sup>*\<^sup>* sample_changes_start s" "sample_password_step s t"
    and s: "by_id 13 (rows_now s) = Some after_word" "\<forall>k row. changes s k = PasswordSet row \<longrightarrow> k = 0"
    and t: "by_id 13 (rows_now t) = Some after_other" "changes t 0 = PasswordSet after_word"
  have set: "c_password after_word = sample_hash ''word''" "c_password after_other = sample_hash ''other''"
    by (simp_all add: after_word_def after_other_def)
  have old: "c_password user13 = sample_hash ''pass''" by simp
  from concurrent_password_updates [OF sample_codes_consistent run(1) sample_user, THEN conjunct1]
  obtain code where code: "sessions (reset_codes s) 0 = Redeemed code"
    "pair_of code = (enc_uuid 13, ShortCodeUsageResetPassword)"
    "CompareArgon2 sample_idkey 19 ''code'' (s_code code) = Ret ()" "generated_hash sample ''word'' (c_password after_word)"
    using s sample_hashes(2) unfolding set old by (auto simp: sample_changes_def set split: if_splits)
  have "sample_password_step\<^sup>*\<^sup>* sample_changes_start t" using run by simp
  from concurrent_password_updates [OF sample_codes_consistent this sample_user, THEN conjunct1] t
  obtain k row where k: "changes t k = PasswordSet row" "c_password row = sample_hash ''other''"
    "generated_hash sample (cup_Password (sample_changes k)) (c_password after_other)"
    "cup_ShortCode (sample_changes k) = '''' \<longrightarrow> had_password sample sample_changes sample_changes_start t k"
    using sample_hashes(3) by (auto simp: set)
  have "k \<noteq> 0" using k(1,2) t(2) sample_hashes(1) set(1) by (metis change_session.inject(2))
  then have "had_password sample sample_changes sample_changes_start t k"
    "generated_hash sample ''other'' (c_password after_other)"
    using k(3,4) by (simp_all add: sample_changes_def)
  with run s(1) t(1) code set sample_compare(2) show ?thesis
    by (intro exI [of _ s] exI [of _ t] exI [of _ code] exI [of _ after_word] exI [of _ after_other] exI [of _ k] conjI)
      simp_all
qed

section \<open>The mailed links\<close>

text \<open>C22: The mail of each flow goes to the address of its request and is rendered from the template of its
  flow in the language that was asked for, with every field the template executes. The link in it is the page
  configured for the flow, and its query reads back as the code that was issued and its target: the address,
  encoded, for a registration; the account and the new address for a change of address; the account with the
  requested address for a reset.\<close>

theorem mailed_links_carry_the_code:
  assumes "environment_ok E" "\<not> in_tx w" "\<And>i. url_safe (x_uuid_string E i)"
    and "CHR ''?'' \<notin> set (Register urls)" "CHR ''?'' \<notin> set (UpdateEmail urls)" "CHR ''?'' \<notin> set (UpdatePassword urls)"
  shows "(\<forall>rq sc w'. core_ShortCodeCreateRegister E cfg urls rq w = (Ret sc, w') \<longrightarrow>
      (\<exists>j query target. jobs w' = jobs w @ [j] \<and> mj_service j = MailRegister \<and> mj_to j = scr_Email rq \<and>
         mail_complete j \<and> mail_file j = Some (scr_Lang rq @ ''/register.html'') \<and>
         mail_link j = Some (Register urls @ ''?'' @ query) \<and>
         link_query (Register urls @ ''?'' @ query) = [(''shortCode'', sc_PlainCode sc), (''target'', target)] \<and>
         b64_decode url_alphabet target = Some (scr_Email rq))) \<and>
    (\<forall>rq sc w'. core_ShortCodeCreateEmailUpdate E cfg urls rq w = (Ret sc, w') \<longrightarrow>
      (\<exists>j query source. jobs w' = jobs w @ [j] \<and> mj_service j = MailEmailUpdate \<and> mj_to j = sceu_Email rq \<and>
         mail_complete j \<and> mail_file j = Some (sceu_Lang rq @ ''/email-update.html'') \<and>
         mail_link j = Some (UpdateEmail urls @ ''?'' @ query) \<and>
         link_query (UpdateEmail urls @ ''?'' @ query) =
           [(''shortCode'', sc_PlainCode sc), (''target'', x_uuid_string E (sceu_ID rq)), (''source'', source)] \<and>
         b64_decode url_alphabet source = Some (sceu_Email rq))) \<and>
    (\<forall>rq sc w'. core_ShortCodeCreatePasswordReset E cfg urls rq w = (Ret sc, w') \<longrightarrow>
      (\<exists>j query row. jobs w' = jobs w @ [j] \<and> mj_service j = MailPasswordReset \<and> mj_to j = scpr_Email rq \<and>
         mail_complete j \<and> mail_file j = Some (scpr_Lang rq @ ''/password-reset.html'') \<and>
         mail_link j = Some (UpdatePassword urls @ ''?'' @ query) \<and>
         by_email (scpr_Email rq) (credentials (db w)) = Some row \<and>
         link_query (UpdatePassword urls @ ''?'' @ query) =
           [(''shortCode'', sc_PlainCode sc), (''target'', x_uuid_string E (c_id row))]))"
proof (intro conjI allI impI)
  note tx = environment_okD(2) [OF assms(1)] and rand = environment_okD(4) [OF assms(1)]
  note jobs = flow_jobs [OF tx assms(2), of cfg urls]
  have safe: "url_safe (sc_PlainCode sc)"
    if "core_ShortCodeCreate E cfg rq v = (Ret sc, v')" "frame w v" for rq v v' sc
    using create_Ret [OF that(1) tx _ rand] that(2) assms(2) code_url_safe by (metis frame_def)
  {
    fix rq sc w' assume r: "core_ShortCodeCreateRegister E cfg urls rq w = (Ret sc, w')"
    then show "\<exists>j query target. jobs w' = jobs w @ [j] \<and> mj_service j = MailRegister \<and> mj_to j = scr_Email rq \<and>
         mail_complete j \<and> mail_file j = Some (scr_Lang rq @ ''/register.html'') \<and>
         mail_link j = Some (Register urls @ ''?'' @ query) \<and>
         link_query (Register urls @ ''?'' @ query) = [(''shortCode'', sc_PlainCode sc), (''target'', target)] \<and>
         b64_decode url_alphabet target = Some (scr_Email rq)"
    proof (cases rule: register_Ret)
      case (1 w1 w2)
      have lang: "scr_Lang rq \<in> set KnownLangs" using 1(4) by (simp add: register_struct_def tag_simps)
      have "url_safe (sc_PlainCode sc)" by (rule safe [OF 1(5,3)])
      then show ?thesis
        using jobs r register_mail [OF lang] link_query_two [OF assms(4) _ encoded_url_safe]
        by (intro exI [of _ "mail_Register E cfg urls rq sc"] exI [of _ "''shortCode='' @ sc_PlainCode sc @
              ''&target='' @ b64_encode url_alphabet (scr_Email rq)"] exI [of _ "b64_encode url_alphabet (scr_Email rq)"])
          (simp add: url64.encode_decode, simp add: mail_Register_def)
    qed
  next
    fix rq sc w' assume r: "core_ShortCodeCreateEmailUpdate E cfg urls rq w = (Ret sc, w')"
    then show "\<exists>j query source. jobs w' = jobs w @ [j] \<and> mj_service j = MailEmailUpdate \<and> mj_to j = sceu_Email rq \<and>
         mail_complete j \<and> mail_file j = Some (sceu_Lang rq @ ''/email-update.html'') \<and>
         mail_link j = Some (UpdateEmail urls @ ''?'' @ query) \<and>
         link_query (UpdateEmail urls @ ''?'' @ query) =
           [(''shortCode'', sc_PlainCode sc), (''target'', x_uuid_string E (sceu_ID rq)), (''source'', source)] \<and>
         b64_decode url_alphabet source = Some (sceu_Email rq)"
    proof (cases rule: email_update_Ret)
      case (1 w1 w2)
      have lang: "sceu_Lang rq \<in> set KnownLangs" using 1(4) by (simp add: email_update_struct_def tag_simps)
      have "url_safe (sc_PlainCode sc)" by (rule safe [OF 1(5,3)])
      then show ?thesis
        using jobs r email_update_mail [OF lang] link_query_three [OF assms(5) _ assms(3) encoded_url_safe]
        by (intro exI [of _ "mail_EmailUpdate E cfg urls rq sc"] exI [of _ "''shortCode='' @ sc_PlainCode sc @
              ''&target='' @ x_uuid_string E (sceu_ID rq) @ ''&source='' @ b64_encode url_alphabet (sceu_Email rq)"]
            exI [of _ "b64_encode url_alphabet (sceu_Email rq)"])
          (simp add: url64.encode_decode, simp add: mail_EmailUpdate_def)
    qed
  next
    fix rq sc w' assume r: "core_ShortCodeCreatePasswordReset E cfg urls rq w = (Ret sc, w')"
    then show "\<exists>j query row. jobs w' = jobs w @ [j] \<and> mj_service j = MailPasswordReset \<and> mj_to j = scpr_Email rq \<and>
         mail_complete j \<and> mail_file j = Some (scpr_Lang rq @ ''/password-reset.html'') \<and>
         mail_link j = Some (UpdatePassword urls @ ''?'' @ query) \<and>
         by_email (scpr_Email rq) (credentials (db w)) = Some row \<and>
         link_query (UpdatePassword urls @ ''?'' @ query) =
           [(''shortCode'', sc_PlainCode sc), (''target'', x_uuid_string E (c_id row))]"
    proof (cases rule: password_reset_Ret)
      case (1 row w1 w2)
      have lang: "scpr_Lang rq \<in> set KnownLangs" using 1(4) by (simp add: password_reset_struct_def tag_simps)
      have code: "url_safe (sc_PlainCode sc)" by (rule safe [OF 1(5,3)])
      have row: "jobs w' = jobs w @ [mail_PasswordReset E cfg urls rq (c_id row) sc]"
        using jobs(3) [OF r] 1(1) by auto
      show ?thesis
        using row password_reset_mail [OF lang] 1(1) link_query_two [OF assms(6) code assms(3), of "c_id row"]
        by (intro exI [of _ "mail_PasswordReset E cfg urls rq (c_id row) sc"] exI [of _ "''shortCode='' @
              sc_PlainCode sc @ ''&target='' @ x_uuid_string E (c_id row)"] exI [of _ row])
          (simp, simp add: mail_PasswordReset_def)
    qed
  }
qed

lemma sample_uuid_safe: "url_safe (x_uuid_string sample i)"
proof -
  have "c \<in> set url_alphabet" if "is_digit c" for c
  proof -
    have "c \<in> set (map digit [0..<10])"
    proof -
      have "48 \<le> (of_char c :: nat)" "of_char c \<le> (57 :: nat)" using that by (simp_all add: is_digit_def)
      then have "c = digit (of_char c - 48)" "of_char c - 48 < (10 :: nat)" by (auto simp: digit_def)
      then show ?thesis by (metis atLeast0LessThan atLeast_upt image_eqI lessThan_iff set_map)
    qed
    moreover have "set (map digit [0..<10]) \<subseteq> set url_alphabet"
      by code_simp
    ultimately show ?thesis by blast
  qed
  then show ?thesis using show_nat_digits by (auto simp: url_safe_def enc_uuid_def)
qed

text \<open>The other two flows on the sample database, in the other language.\<close>

definition sample_email_request :: ShortCodeCreateEmailUpdateRequest where
  "sample_email_request = \<lparr>sceu_ID = 13, sceu_Email = ''new@a'', sceu_Lang = ''fr''\<rparr>"

definition sample_reset_request :: ShortCodeCreatePasswordResetRequest where
  "sample_reset_request = \<lparr>scpr_Email = ''user@a'', scpr_Lang = ''fr''\<rparr>"

lemma sample_email_flow:
  obtains sc w' where "core_ShortCodeCreateEmailUpdate sample ShortCodesPresetDefault sample_urls
      sample_email_request sample_world = (Ret sc, w')"
proof (rule email_flow_run [OF sample_reliable _ sample_size, of sample_world sample_email_request sample_urls])
  show "usage_ttl ShortCodesPresetDefault ShortCodeUsageValidateEmail \<noteq> 0"
    using sample_ttl(2) by (simp add: hour_def second_def)
qed (use that sample_uuid_string [of 13] in \<open>simp_all add: sample_email_request_def email_update_struct_def
  contract_tags [OF sample_validator] tag_simps builtin_tags KnownLangs_def rune_count_def by_email_def
  sample_accounts_def sample_account_def\<close>)

lemma sample_reset_flow:
  obtains sc w' where "core_ShortCodeCreatePasswordReset sample ShortCodesPresetDefault sample_urls
      sample_reset_request sample_world = (Ret sc, w')"
proof (rule reset_flow_silent [OF sample_reliable _ sample_size _ _ _ sample_uuid_string, of sample_world
      sample_reset_request sample_urls])
  show "usage_ttl ShortCodesPresetDefault ShortCodeUsageResetPassword \<noteq> 0"
    using sample_ttl(3) by (simp add: hour_def second_def)
qed (use that in \<open>simp_all add: sample_reset_request_def password_reset_struct_def contract_tags [OF sample_validator]
  tag_simps builtin_tags KnownLangs_def rune_count_def by_email_def sample_accounts_def sample_account_def\<close>)

theorem mailed_links_carry_the_code_witness:
  "\<exists>sc1 w1 sc2 w2 sc3 w3 j1 j2 j3 q1 q2 q3.
     core_ShortCodeCreateRegister sample ShortCodesPresetDefault sample_urls
       \<lparr>scr_Email = ''new@a'', scr_Lang = ''en''\<rparr> sample_world = (Ret sc1, w1) \<and> jobs w1 = jobs sample_world @ [j1] \<and>
     mail_file j1 = Some ''en/register.html'' \<and> mail_link j1 = Some (Register sample_urls @ ''?'' @ q1) \<and>
     map_of (link_query (Register sample_urls @ ''?'' @ q1)) ''shortCode'' = Some (sc_PlainCode sc1) \<and>
     core_ShortCodeCreateEmailUpdate sample ShortCodesPresetDefault sample_urls sample_email_request sample_world =
       (Ret sc2, w2) \<and> jobs w2 = jobs sample_world @ [j2] \<and>
     mail_file j2 = Some ''fr/email-update.html'' \<and> mail_link j2 = Some (UpdateEmail sample_urls @ ''?'' @ q2) \<and>
     map_of (link_query (UpdateEmail sample_urls @ ''?'' @ q2)) ''target'' = Some (enc_uuid 13) \<and>
     core_ShortCodeCreatePasswordReset sample ShortCodesPresetDefault sample_urls sample_reset_request sample_world =
       (Ret sc3, w3) \<and> jobs w3 = jobs sample_world @ [j3] \<and>
     mail_file j3 = Some ''fr/password-reset.html'' \<and> mail_link j3 = Some (UpdatePassword sample_urls @ ''?'' @ q3) \<and>
     map_of (link_query (UpdatePassword sample_urls @ ''?'' @ q3)) ''target'' = Some (enc_uuid 13)"
proof -
  obtain sc1 w1 where r1: "core_ShortCodeCreateRegister sample ShortCodesPresetDefault sample_urls
      \<lparr>scr_Email = ''new@a'', scr_Lang = ''en''\<rparr> sample_world = (Ret sc1, w1)" by (rule sample_register_flow)
  obtain sc2 w2 where r2: "core_ShortCodeCreateEmailUpdate sample ShortCodesPresetDefault sample_urls
      sample_email_request sample_world = (Ret sc2, w2)" by (rule sample_email_flow)
  obtain sc3 w3 where r3: "core_ShortCodeCreatePasswordReset sample ShortCodesPresetDefault sample_urls
      sample_reset_request sample_world = (Ret sc3, w3)" by (rule sample_reset_flow)
  have urls: "CHR ''?'' \<notin> set (Register sample_urls)" "CHR ''?'' \<notin> set (UpdateEmail sample_urls)"
    "CHR ''?'' \<notin> set (UpdatePassword sample_urls)" by (simp_all add: sample_app_def)
  have tx: "\<not> in_tx sample_world" by simp
  note links = mailed_links_carry_the_code [OF sample_ok tx sample_uuid_safe urls, of ShortCodesPresetDefault]
  from links [THEN conjunct1, rule_format, OF r1] obtain j1 q1 t1 where j1: "jobs w1 = jobs sample_world @ [j1]"
    "mail_file j1 = Some ''en/register.html''" "mail_link j1 = Some (Register sample_urls @ ''?'' @ q1)"
    "link_query (Register sample_urls @ ''?'' @ q1) = [(''shortCode'', sc_PlainCode sc1), (''target'', t1)]" by auto
  from links [THEN conjunct2, THEN conjunct1, rule_format, OF r2] obtain j2 q2 t2 where
    j2: "jobs w2 = jobs sample_world @ [j2]"
    "mail_file j2 = Some ''fr/email-update.html''" "mail_link j2 = Some (UpdateEmail sample_urls @ ''?'' @ q2)"
    "link_query (UpdateEmail sample_urls @ ''?'' @ q2) =
       [(''shortCode'', sc_PlainCode sc2), (''target'', enc_uuid 13), (''source'', t2)]"
    by (auto simp: sample_email_request_def)
  from links [THEN conjunct2, THEN conjunct2, rule_format, OF r3] obtain j3 q3 row where
    j3: "jobs w3 = jobs sample_world @ [j3]"
    "mail_file j3 = Some ''fr/password-reset.html''" "mail_link j3 = Some (UpdatePassword sample_urls @ ''?'' @ q3)"
    and row: "by_email ''user@a'' sample_accounts = Some row"
    and q3: "link_query (UpdatePassword sample_urls @ ''?'' @ q3) =
       [(''shortCode'', sc_PlainCode sc3), (''target'', enc_uuid (c_id row))]"
    by (auto simp: sample_reset_request_def)
  have "c_id row = 13" using row by (auto simp: by_email_def sample_accounts_def sample_account_def)
  then have q3': "map_of (link_query (UpdatePassword sample_urls @ ''?'' @ q3)) ''target'' = Some (enc_uuid 13)"
    unfolding q3 by simp
  have "map_of (link_query (Register sample_urls @ ''?'' @ q1)) ''shortCode'' = Some (sc_PlainCode sc1)"
    "map_of (link_query (UpdateEmail sample_urls @ ''?'' @ q2)) ''target'' = Some (enc_uuid 13)"
    unfolding j1(4) j2(4) by simp_all
  with r1 r2 r3 j1(1-3) j2(1-3) j3 q3' show ?thesis by (intro exI conjI)
qed

section \<open>The migrations\<close>

text \<open>C12: Run on a database of any earlier version, with whatever rows the service of that version could have
  left, the migrations command succeeds: every account keeps its id, address and password and gets the role
  it had, \<open>auth:user\<close> for none or for the default that was no role, no pair of target and usage loses its
  newest code, and the tables then satisfy the constraints every request and command relies on.\<close>

theorem migrations_establish_the_constraints:
  assumes "runs_pending at runner" "connect (newPostgresPreset env) = None" "n \<le> 5" "version_ok n s"
  shows "\<exists>s' log. migrations_main connect runner env (map fst (take n up_scripts)) s = (Ret (), s', log) \<and>
    Examined 5 \<in> set log \<and> service_ok (to_db s') \<and>
    credentials (to_db s') = map (\<lambda>r. to_row (final_row r)) (account_rows s) \<and>
    map s_id (short_codes (to_db s')) = map s_id (code_rows s) \<and>
    (\<forall>r\<in>set (code_rows s). live r \<longrightarrow>
       (\<exists>q\<in>set (short_codes (to_db s')). live q \<and> pair_of q = pair_of r \<and> (q = r \<or> newer q r)))"
proof -
  obtain s' where s': "apply_all (drop n up_scripts) at s = Inr s'" "service_ok (to_db s')"
    "credentials (to_db s') = map (\<lambda>r. to_row (final_row r)) (account_rows s)" "short_codes (to_db s') = cleanup at (code_rows s)"
    by (rule upgrade_db [OF assms(3,4)])
  have "runner up_scripts (map fst (take n up_scripts)) s = (None, s')"
    using assms(1) s'(1) unfolding runs_pending_def by (metis pending_scripts)
  then have run: "\<exists>log. migrations_main connect runner env (map fst (take n up_scripts)) s = (Ret (), s', log) \<and>
      Examined 5 \<in> set log"
    using assms(2) by (simp add: migrations_main_def embedded_listed Let_def) (simp add: up_scripts_def)
  have "distinct (map s_id (code_rows s))" using assms(4) by (simp add: version_ok_def)
  from run s'(2-4) cleanup_keeps_latest [OF this] show ?thesis by auto
qed

text \<open>A database of version 3: an account whose role is the old default, a super-admin, and two codes for the
  same target and usage.\<close>

definition old_row :: "uuid \<Rightarrow> string \<Rightarrow> string \<Rightarrow> credentials_row" where
  "old_row i email role = \<lparr>m_id = i, m_email = email, m_password = Some ''hash'', m_role = Some role,
     m_created_at = 0, m_updated_at = 0\<rparr>"

definition old_code :: "uuid \<Rightarrow> time \<Rightarrow> dao_short_code" where
  "old_code i created = \<lparr>s_id = i, s_code = ''hash'', s_usage = ''register'', s_target = ''me@a'', s_data = None,
     s_created_at = created, s_expires_at = 10 * second, s_deleted_at = None, s_deleted_comment = None\<rparr>"

definition old_schema :: schema where
  "old_schema = \<lparr>cred_table = Some [old_row 1 ''me@a'' ''user'', old_row 2 ''root@a'' ''auth:superadmin''],
     role_default = Some ''user'', role_check = None,
     codes_table = Some [old_code 1 0, old_code 2 (2 * second)], active_unique = False\<rparr>"

definition sample_runner :: runner where
  "sample_runner ms applied s =
     (case apply_all (filter (\<lambda>(n, _). n \<notin> set applied) ms) (5 * second) s of
        Inl e \<Rightarrow> (Some e, s) | Inr s' \<Rightarrow> (None, s'))"

theorem migrations_establish_the_constraints_witness:
  "\<exists>s' log. migrations_main (\<lambda>_. None) sample_runner sample_settings (map fst (take 3 up_scripts)) old_schema =
      (Ret (), s', log) \<and> service_ok (to_db s') \<and>
    map c_role (credentials (to_db s')) = [''auth:user'', ''auth:superadmin''] \<and> length (short_codes (to_db s')) = 2"
proof -
  have "runs_pending (5 * second) sample_runner" by (simp add: runs_pending_def sample_runner_def)
  moreover have "version_ok 3 old_schema"
    by (simp add: version_ok_def old_schema_def account_rows_def code_rows_def old_row_def old_code_def roles_at_def role_check_list_def)
  ultimately obtain s' log where s': "migrations_main (\<lambda>_. None) sample_runner sample_settings
      (map fst (take 3 up_scripts)) old_schema = (Ret (), s', log)" "service_ok (to_db s')"
    "credentials (to_db s') = map (\<lambda>r. to_row (final_row r)) (account_rows old_schema)"
    "map s_id (short_codes (to_db s')) = map s_id (code_rows old_schema)"
    using migrations_establish_the_constraints [of "5 * second" sample_runner "\<lambda>_. None" sample_settings 3 old_schema]
    by auto
  have "map c_role (credentials (to_db s')) = [''auth:user'', ''auth:superadmin'']"
    unfolding s'(3) by (simp add: account_rows_def old_schema_def old_row_def to_row_def final_row_def)
  moreover have "length (short_codes (to_db s')) = 2"
    using arg_cong [OF s'(4), of length] by (simp add: code_rows_def old_schema_def)
  ultimately show ?thesis using s'(1,2) by (intro exI conjI)
qed

end
