(* ===== verification/Spec2Isabelle.thy ===== *)
theory Spec2Isabelle
  imports LibProperties ServiceProperties ProcessProperties
begin

text \<open>
  A verification library for the authentication service (\<open>a-novel/service-authentication\<close>, Go): accounts
  with a role and a password, short codes mailed to prove an address, and sessions made of an access and a
  refresh token, behind a REST API on two Postgres tables.

  \<^bold>\<open>The program and its parts.\<close> \<open>internal/lib\<close> holds password hashing, random codes, the resolution of the
  role hierarchy and the drain of detached work; \<open>internal/config\<close> the roles, the settings and their
  defaults; \<open>internal/dao\<close> one type per SQL statement; \<open>internal/core\<close> one service per use case, composed
  of statements, hashing and the JSON-keys service; \<open>internal/handlers\<close> one handler per endpoint and the
  authentication middleware; \<open>cmd/rest\<close> the router and the life of the server process; \<open>cmd/init\<close> the
  bootstrap of the super-admin; \<open>cmd/migrations\<close> the upgrade of the schema. A request goes router,
  middleware, handler, core service, dao, and its error comes back as an HTTP status.

  \<^bold>\<open>How programs are modelled.\<close> A Go call is a function from a world to an outcome and a world (theory
  \<open>Prelude\<close>): \<open>Ret\<close> a value, \<open>Fail\<close> a non-nil error, \<open>Panic\<close>. Errors keep their wrapping and joining, so
  \<open>errors.Is\<close> and \<open>errors.As\<close> are functions. The world (theory \<open>World\<close>) is the two tables, whether the
  context carries a transaction, the mails handed to goroutines, the key derivations run, and a counter of
  questions asked of the environment. What is not under \<open>src/\<close> is a field of the record \<open>ext\<close>, a function
  of that counter, so that each call may answer differently: clocks, randomness, connection and statement
  faults, transactions, key derivation, JSON, token signing and verification, the validator's built-in tags.
  What the code relies on is stated as contracts on these fields (\<open>tx_contract\<close>, \<open>validator_contract\<close>,
  \<open>rand_contract\<close>, \<open>password_contract\<close>, \<open>json_keys_contract\<close>, together \<open>environment_ok\<close>; and \<open>reliable\<close>
  for statements that something succeeds); theory \<open>Sample\<close> gives one environment that meets them all, to
  which the properties are applied.

  \<^bold>\<open>Theories and the code they model.\<close>
  \<^item> \<open>Prelude\<close>: errors, outcomes, the program combinators, the rules for programs that keep an invariant.
  \<^item> \<open>GoStd\<close>, \<open>Base64\<close>: \<open>strings.Split\<close>, decimal printing and \<open>Sscanf\<close>, \<open>encoding/base64\<close> (locale
    \<open>alphabet64\<close>, interpreted for the standard and the URL alphabet).
  \<^item> \<open>Argon2\<close>, \<open>RandURL\<close>, \<open>ResolveDeps\<close>, \<open>Passwords\<close>: \<open>internal/lib/argon2.go\<close>, \<open>rand.go\<close>,
    \<open>resolveDependants.go\<close>; the derivations as operations of the running service.
  \<^item> \<open>Config\<close>, \<open>Settings\<close>: \<open>internal/config\<close>, its two YAML files, \<open>env/env.go\<close>, the assembled
    configuration, and \<open>NewAuthHandler\<close>'s resolution of the permissions (\<open>pkg/go/auth.go\<close>).
  \<^item> \<open>DaoCredentials\<close>, \<open>DaoShortCode\<close>: the tables with the constraints of the migrations, one definition
    per SQL file and one per operation of \<open>internal/dao\<close>. The laws of the tables are the locales
    \<open>account_table\<close> and \<open>code_table\<close>, interpreted on the code's own tables.
  \<^item> \<open>Validate\<close>, \<open>ShortCodeService\<close>, \<open>Tokens\<close>, \<open>Accounts\<close>: \<open>internal/core\<close>, one definition per service
    (\<open>core_ShortCodeConsume\<close> for \<open>ShortCodeConsume.Exec\<close> and so on), the body of each transaction apart.
  \<^item> \<open>Http\<close>, \<open>Handlers\<close>, \<open>Router\<close>: replies and error maps, the middleware and its context, one definition
    per handler (\<open>rest_...\<close>), the router of \<open>cmd/rest/main.go\<close> as the tree it is built as (\<open>Route\<close> mounts and
    the handlers below them, so that a mounted root is served with and without a slash), the wiring, the
    answer to a preflight request and the dispatch. The path of a request is the part of the URL the router
    reads.
  \<^item> \<open>Server\<close>, \<open>Reachability\<close>: what each endpoint may do to the tables, the abstract account
    specification, and the worlds sequences of requests reach.
  \<^item> \<open>Mails\<close>: \<open>internal/models/mails\<close>, the templates by language with the fields they execute and their
    link, and how the link reads back.
  \<^item> \<open>Bootstrap\<close>: \<open>cmd/init/main.go\<close>. \<open>Startup\<close>: \<open>main\<close> of \<open>cmd/rest/main.go\<close> up to \<open>serve\<close>. \<open>Shutdown\<close>:
    \<open>serve\<close>, \<open>lib/drain.go\<close> and the wait groups. \<open>Migrations\<close>: \<open>cmd/migrations/main.go\<close> and the SQL files of
    \<open>internal/models/migrations\<close>, up and down, as functions on schema and rows.
  \<^item> \<open>Steps\<close>: what a step relation keeps holds on every run (locale \<open>preserved\<close>), interpreted on the step
    relations of the development.
  \<^item> \<open>Interleaving\<close>, \<open>Issuing\<close>, \<open>RoleUpdates\<close>, \<open>PasswordUpdates\<close>: redemptions (\<open>shortCodeConsume.go\<close>),
    insertions of codes (\<open>pg.shortCodeInsert.go\<close>), role updates (\<open>credentialsUpdateRole.go\<close>) and changes of
    passwords (\<open>credentialsUpdatePassword.go\<close>) whose statements overlap. \<open>PasswordUpdates\<close> is composed with
    \<open>Interleaving\<close>: a reset redeems its code there, with the usage and the target the service gives, between
    the statements of the other changes.
  \<^item> \<open>Sample\<close>, \<open>Availability\<close>: the sample environment, and the services run while nothing breaks.
  \<^item> \<open>ErrorAnswers\<close>: the runs that end in an error which the map of the endpoint may not list (an expiry in
    the middle of a redemption, an account that is gone, a code that lost to another one), and their status.
  \<^item> \<open>LibProperties\<close>, \<open>ServerProperties\<close>, \<open>ServiceProperties\<close>, \<open>ProcessProperties\<close>: the properties
    C1 to C40, each followed or accompanied by its witness.
\<close>

text \<open>
  \<^bold>\<open>What is proved.\<close>
  \<^item> The server: a request changes the tables only on a guarded route with a verified token that grants the
    permission, within the contract of its endpoint; any sequence of requests refines the abstract account
    specification, keeps the tables consistent, never removes an account and never raises anyone above the
    highest rank; roles move only by a super-admin, passwords only with the current password or a reset code;
    the access matrix; refusals at the door; every request is answered, panics included, with a reply of the
    type of its endpoint, and a path or method that is not routed with 404, 405 or the preflight's 200; the
    accidents of a client that are answered as errors of the server.
  \<^item> Accounts: registration and bootstrap are all or nothing, addresses come from the code, a role update
    is the reference decision, the listing is paged slices of the filtered accounts.
  \<^item> Codes: redeemed once, sequentially and under any interleaving; a new code supersedes; what is issued
    redeems; failures leave no trace; each flow mails what it stored, in its own template
    of the requested language, with a link to the configured page that reads back as the code and its target,
    and answers the same whether or not the address has an account.
  \<^item> Sessions: sign-in only with the password, the same answer and work for an unknown address; only a pair
    issued together refreshes; a session refreshes while its account exists.
  \<^item> Processes: the bootstrap can be repeated and its credentials sign in; the server starts exactly when
    nothing refuses, each timeout, limit, link and sender option as its environment variable describes it; a shutdown without an error lost no mail, and the drain
    terminates. Upgrading a database of any earlier version establishes the constraints of the tables that the
    other properties assume, and keeps the accounts and the newest codes.
  \<^item> Overlap: whatever the interleaving, insertions of codes keep the constraints, store what they issued, and
    lose only to one that won; a changed password was set by a session that presented a password the account
    had during the run, though perhaps no longer (the witness is such a run), or that spent a reset code of the
    account, which serves one session; role updates lift
    nobody above the highest rank, but a super-admin can be demoted by one that decided on rows another has
    changed since.
  \<^item> The library: encoded hashes decode, a generated hash accepts its password, a comparison is decided by what
    the stored hash reads as and fails with one class of error, the lane count, random strings; the resolution of dependencies succeeds exactly on closed well-founded graphs,
    whatever order Go iterates its maps in.

  \<^bold>\<open>Recursion and bounds.\<close> No definition has fuel. \<open>resolve_order\<close> terminates because a round that goes on
  shortened the graph; every other recursion is structural. Words have the width of the code's types (8 and
  32 bits for the derivation's parameters, 128 for UUIDs); Go's \<open>int\<close> and times are integers, as no
  computation of the code on them comes near 64 bits (times are nanoseconds, read from a clock). The drain
  of a shutdown makes at most \<open>drain_work\<close> steps.

  \<^bold>\<open>Concurrency.\<close> A request is dispatched as one step of the server. Statements of concurrent redemptions
  interleave with whole insertions in \<open>Interleaving\<close>, those of concurrent insertions with whole redemptions in
  \<open>Issuing\<close> (at read committed, row lock by row lock); those of role updates and of password changes, each with
  every other change of the accounts, in \<open>RoleUpdates\<close> and \<open>PasswordUpdates\<close>; sends, requests and the drain in
  \<open>Shutdown\<close>. A single session run alone is the service's own operation (\<open>consume_is_a_run\<close>,
  \<open>insert_is_a_run\<close>). Other pairs of concurrent requests are not interleaved statement by statement.

  \<^bold>\<open>Not modelled.\<close> Tracing and most logging; what the transport middleware of third-party packages does
  (timeouts, body size, client address, and CORS beyond the answer to a preflight request) with the options
  \<open>Startup\<close> gives it; request decoding,
  \<open>httpf.HandleError\<close>'s choice of a status, \<open>config.LoadEnv\<close>, the SMTP sender and the migrator, which are
  parameters; the fixed text of the mail templates; the plain indexes of the schema; generated mocks; the
  JavaScript client. Go values that carry no behaviour (constructors, interfaces, struct tags for encoding)
  have no definition of their own.
\<close>

end
